(* ===== verification/Prelude.thy ===== *)
theory Prelude
  imports Main "HOL-Library.Word"
begin

unbundle bit_operations_syntax

text \<open>
  Shared vocabulary of the development: the machine integers of the Rust sources as words, byte
  buffers, the big-endian conversions \<open>to_be_bytes\<close> / \<open>from_be_bytes\<close>, reads and writes of a
  buffer at a fixed offset, and the rewriting collection \<open>wire\<close> that evaluates a read or a write
  over a concatenation of fields.  A fallible operation returns \<open>'e + 'a\<close>: \<open>Inl\<close> is Rust's
  \<open>Err\<close>, \<open>Inr\<close> is \<open>Ok\<close>.
\<close>

section \<open>Machine integers and buffers\<close>

type_synonym u8 = "8 word"
type_synonym u16 = "16 word"
type_synonym u32 = "32 word"
type_synonym u64 = "64 word"
type_synonym bytes = "u8 list"

named_theorems wire

text \<open>\<open>to_be_bytes\<close> and \<open>from_be_bytes\<close> at the widths the wire format uses.\<close>

definition be16 :: "u16 \<Rightarrow> bytes" where
  "be16 w = [ucast (drop_bit 8 w), ucast w]"

definition be32 :: "u32 \<Rightarrow> bytes" where
  "be32 w = [ucast (drop_bit 24 w), ucast (drop_bit 16 w), ucast (drop_bit 8 w), ucast w]"

definition be64 :: "u64 \<Rightarrow> bytes" where
  "be64 w = [ucast (drop_bit 56 w), ucast (drop_bit 48 w), ucast (drop_bit 40 w),
             ucast (drop_bit 32 w), ucast (drop_bit 24 w), ucast (drop_bit 16 w),
             ucast (drop_bit 8 w), ucast w]"

definition from_be16 :: "u8 \<Rightarrow> u8 \<Rightarrow> u16" where
  "from_be16 a b = push_bit 8 (ucast a) OR ucast b"

definition from_be32 :: "u8 \<Rightarrow> u8 \<Rightarrow> u8 \<Rightarrow> u8 \<Rightarrow> u32" where
  "from_be32 a b c d =
     push_bit 24 (ucast a) OR push_bit 16 (ucast b) OR push_bit 8 (ucast c) OR ucast d"

definition from_be64 ::
  "u8 \<Rightarrow> u8 \<Rightarrow> u8 \<Rightarrow> u8 \<Rightarrow> u8 \<Rightarrow> u8 \<Rightarrow> u8 \<Rightarrow> u8 \<Rightarrow> u64" where
  "from_be64 a b c d e f g h =
     push_bit 56 (ucast a) OR push_bit 48 (ucast b) OR push_bit 40 (ucast c) OR
     push_bit 32 (ucast d) OR push_bit 24 (ucast e) OR push_bit 16 (ucast f) OR
     push_bit 8 (ucast g) OR ucast h"

text \<open>
  Reads at an offset, as the sources write them
  (\<open>u32::from_be_bytes([buf[i], buf[i + 1], buf[i + 2], buf[i + 3]])\<close>), the sub-slice
  \<open>&buf[i..i + n]\<close>, and the in-place write \<open>buf[i..i + n].copy_from_slice(xs)\<close>.  Every caller
  checks the buffer's length first, so no read or write is out of range.
\<close>

definition rd16 :: "nat \<Rightarrow> bytes \<Rightarrow> u16" where
  "rd16 i buf = from_be16 (buf ! i) (buf ! (i + 1))"

definition rd32 :: "nat \<Rightarrow> bytes \<Rightarrow> u32" where
  "rd32 i buf = from_be32 (buf ! i) (buf ! (i + 1)) (buf ! (i + 2)) (buf ! (i + 3))"

definition rd64 :: "nat \<Rightarrow> bytes \<Rightarrow> u64" where
  "rd64 i buf = from_be64 (buf ! i) (buf ! (i + 1)) (buf ! (i + 2)) (buf ! (i + 3))
                          (buf ! (i + 4)) (buf ! (i + 5)) (buf ! (i + 6)) (buf ! (i + 7))"

definition subslice :: "nat \<Rightarrow> nat \<Rightarrow> 'a list \<Rightarrow> 'a list" where
  "subslice i j buf = take (j - i) (drop i buf)"

definition write_at :: "nat \<Rightarrow> 'a list \<Rightarrow> 'a list \<Rightarrow> 'a list" where
  "write_at i xs buf = take i buf @ xs @ drop (i + length xs) buf"

section \<open>Words as naturals\<close>

lemma unat_of_nat_small: "n < 2 ^ LENGTH('a) \<Longrightarrow> unat (of_nat n :: 'a::len word) = n"
  by (simp add: unsigned_of_nat take_bit_nat_eq_self)

lemma of_nat_eq_word_iff: "n < 2 ^ LENGTH('a) \<Longrightarrow> of_nat n = w \<longleftrightarrow> n = unat w" for w :: "'a::len word"
  using unat_of_nat_small [of n, where 'a = 'a] by auto

section \<open>Big-endian conversions\<close>

lemma xor_cancel: "x XOR z = y XOR z \<longleftrightarrow> x = y" for x y z :: "'a::len word"
  by (metis xor.assoc xor_self_eq xor.right_neutral)

lemma xor_cancel_left: "z XOR x = z XOR y \<longleftrightarrow> x = y" for x y z :: "'a::len word"
  by (metis xor_cancel xor.commute)

lemma length_be [simp]: "length (be16 w) = 2" "length (be32 x) = 4" "length (be64 y) = 8"
  by (simp_all add: be16_def be32_def be64_def)

lemmas be_bit_simps = bit_push_bit_iff bit_drop_bit_eq bit_unsigned_iff bit_or_iff

lemma bit_push_byte:
  fixes w :: "'a::len word"
  shows "bit (push_bit k (ucast (ucast (drop_bit k w) :: u8)) :: 'a word) n \<longleftrightarrow>
    k \<le> n \<and> n < k + 8 \<and> n < LENGTH('a) \<and> bit w n"
  by (auto simp: be_bit_simps dest: bit_imp_le_length)

lemma bit_low_byte:
  fixes w :: "'a::len word"
  shows "bit (ucast (ucast w :: u8) :: 'a word) n \<longleftrightarrow> n < 8 \<and> bit w n"
  by (auto simp: be_bit_simps dest: bit_imp_le_length)

lemmas byte_simps = bit_or_iff bit_push_byte bit_low_byte

lemma from_be16_be16 [simp]: "from_be16 (ucast (drop_bit 8 w)) (ucast w) = w"
  unfolding from_be16_def by (rule bit_word_eqI) (simp add: byte_simps, linarith)

lemma from_be32_be32 [simp]:
  "from_be32 (ucast (drop_bit 24 w)) (ucast (drop_bit 16 w)) (ucast (drop_bit 8 w)) (ucast w) = w"
  unfolding from_be32_def by (rule bit_word_eqI) (simp add: byte_simps, linarith)

lemma from_be64_be64 [simp]:
  "from_be64 (ucast (drop_bit 56 w)) (ucast (drop_bit 48 w)) (ucast (drop_bit 40 w))
     (ucast (drop_bit 32 w)) (ucast (drop_bit 24 w)) (ucast (drop_bit 16 w))
     (ucast (drop_bit 8 w)) (ucast w) = w"
  unfolding from_be64_def by (rule bit_word_eqI) (simp add: byte_simps, linarith)

lemma be16_from_be16 [simp]: "be16 (from_be16 a b) = [a, b]"
  by (auto simp: be16_def from_be16_def intro!: bit_word_eqI)
     (auto simp: be_bit_simps dest: bit_imp_le_length)

lemma be32_from_be32 [simp]: "be32 (from_be32 a b c d) = [a, b, c, d]"
  by (auto simp: be32_def from_be32_def intro!: bit_word_eqI)
     (auto simp: be_bit_simps dest: bit_imp_le_length)

lemma be64_from_be64 [simp]: "be64 (from_be64 a b c d e f g h) = [a, b, c, d, e, f, g, h]"
  by (auto simp: be64_def from_be64_def intro!: bit_word_eqI)
     (auto simp: be_bit_simps dest: bit_imp_le_length)

section \<open>Reads and writes over a concatenation of fields\<close>

lemma rd_be [wire]:
  "rd16 0 (be16 w @ ys) = w" "rd32 0 (be32 x @ ys) = x" "rd64 0 (be64 y @ ys) = y"
  by (simp_all add: rd16_def rd32_def rd64_def be16_def be32_def be64_def)

lemma rd_append [wire]:
  "length xs \<le> i \<Longrightarrow> rd16 i (xs @ ys) = rd16 (i - length xs) ys"
  "length xs \<le> i \<Longrightarrow> rd32 i (xs @ ys) = rd32 (i - length xs) ys"
  "length xs \<le> i \<Longrightarrow> rd64 i (xs @ ys) = rd64 (i - length xs) ys"
  by (simp_all add: rd16_def rd32_def rd64_def nth_append Suc_diff_le)

lemma be_inject [simp]: "be16 a = be16 b \<longleftrightarrow> a = b" "be32 c = be32 d \<longleftrightarrow> c = d"
  by (metis append_Nil2 rd_be(1), metis append_Nil2 rd_be(2))

lemma be_rd:
  "i + 2 \<le> length buf \<Longrightarrow> be16 (rd16 i buf) = subslice i (i + 2) buf"
  "i + 4 \<le> length buf \<Longrightarrow> be32 (rd32 i buf) = subslice i (i + 4) buf"
  "i + 8 \<le> length buf \<Longrightarrow> be64 (rd64 i buf) = subslice i (i + 8) buf"
  by (simp_all add: rd16_def rd32_def rd64_def subslice_def Cons_nth_drop_Suc [symmetric]
      numeral_eq_Suc)

lemma nth_head [wire]: "([x] @ ys) ! 0 = x"
  by simp

lemma nth_append_ge [wire]: "length xs \<le> i \<Longrightarrow> (xs @ ys) ! i = ys ! (i - length xs)"
  by (simp add: nth_append)

lemma subslice_append_ge [wire]:
  "length xs \<le> i \<Longrightarrow> subslice i j (xs @ ys) = subslice (i - length xs) (j - length xs) ys"
  by (simp add: subslice_def)

lemma subslice_0_append [wire]: "j = length xs \<Longrightarrow> subslice 0 j (xs @ ys) = xs"
  by (simp add: subslice_def)

lemma length_subslice [simp]: "length (subslice i j xs) = min (j - i) (length xs - i)"
  by (simp add: subslice_def)

lemma nth_eq_subslice: "i < length xs \<Longrightarrow> [xs ! i] = subslice i (i + 1) xs"
  by (simp add: subslice_def take_Suc_conv_app_nth [of 0, simplified] Cons_nth_drop_Suc [symmetric])

lemma subslice_join: "i \<le> j \<Longrightarrow> j \<le> k \<Longrightarrow> subslice i j xs @ subslice j k xs = subslice i k xs"
proof -
  assume "i \<le> j" "j \<le> k"
  then obtain a b where "j = i + a" "k = i + a + b"
    by (metis le_iff_add)
  then show ?thesis
    by (simp add: subslice_def take_add add.commute)
qed

lemma subslice_join_append:
  "i \<le> j \<Longrightarrow> j \<le> k \<Longrightarrow> subslice i j xs @ subslice j k xs @ ys = subslice i k xs @ ys"
  by (metis append.assoc subslice_join)

lemma take_eq_subslice: "take n xs = subslice 0 n xs"
  by (simp add: subslice_def)

lemma write_at_0 [wire]: "write_at 0 xs buf = xs @ drop (length xs) buf"
  by (simp add: write_at_def)

lemma write_at_append [wire]:
  "length xs \<le> i \<Longrightarrow> write_at i ys (xs @ zs) = xs @ write_at (i - length xs) ys zs"
  by (simp add: write_at_def)

lemma length_write_at [simp]:
  "i + length xs \<le> length buf \<Longrightarrow> length (write_at i xs buf) = length buf"
  by (simp add: write_at_def)

end
