(* ===== verification/Codec.thy ===== *)
theory Codec
  imports Prelude
begin

unbundle bit_operations_syntax

text \<open>
  The codec crate (\<open>gravital-talk-codec/src\<close>): codec identifiers and negotiation, the PCM codec, the
  wrapper of libopus, and the construction of an encoder/decoder pair.  libopus is a third-party library: its
  calls are a parameter record \<open>libopus\<close>, and a build without the feature \<open>opus\<close> is the parameter
  \<open>None\<close>.  The traits \<open>Encoder\<close> and \<open>Decoder\<close> are the locale \<open>lossless_codec\<close>: what a client may
  rely on, interpreted for PCM.  Sample counts are \<open>usize\<close>; at 64 bits none of the products overflows.
\<close>

type_synonym i16 = "16 word"

section \<open>Identifiers and negotiation\<close>

datatype CodecId = Pcm | Opus | Other u8

fun CodecId_code :: "CodecId \<Rightarrow> u8" where
  "CodecId_code Pcm = 0x01"
| "CodecId_code Opus = 0x02"
| "CodecId_code (Other b) = b"

definition CodecId_from_code :: "u8 \<Rightarrow> CodecId" where
  "CodecId_from_code code = (if code = 0x01 then Pcm else if code = 0x02 then Opus else Other code)"

datatype CodecError =
    CodecBufferTooSmall nat nat
  | FrameSizeMismatch nat nat
  | InvalidParams string
  | Unsupported CodecId
  | Backend string

definition supported :: "'o option \<Rightarrow> CodecId list" where
  "supported opus = (case opus of Some _ \<Rightarrow> [Opus, Pcm] | None \<Rightarrow> [Pcm])"

definition negotiate :: "'o option \<Rightarrow> CodecId \<Rightarrow> CodecError + CodecId" where
  "negotiate opus client_preferred =
     (let local = supported opus in
      if client_preferred \<in> set local then Inr client_preferred
      else case local of [] \<Rightarrow> Inl (Unsupported client_preferred) | c # _ \<Rightarrow> Inr c)"

section \<open>PCM\<close>

record PcmCodec =
  pcm_sample_rate :: u32
  pcm_channels :: u8
  pcm_frame_duration_ms :: u8

definition PcmCodec_new :: "u32 \<Rightarrow> u8 \<Rightarrow> u8 \<Rightarrow> PcmCodec" where
  "PcmCodec_new sample_rate channels frame_duration_ms =
     \<lparr>pcm_sample_rate = sample_rate, pcm_channels = channels, pcm_frame_duration_ms = frame_duration_ms\<rparr>"

definition samples_per_channel :: "PcmCodec \<Rightarrow> nat" where
  "samples_per_channel c = unat (pcm_sample_rate c) * unat (pcm_frame_duration_ms c) div 1000"

definition total_samples :: "PcmCodec \<Rightarrow> nat" where
  "total_samples c = samples_per_channel c * unat (pcm_channels c)"

definition wire_bytes :: "PcmCodec \<Rightarrow> nat" where
  "wire_bytes c = total_samples c * 2"

text \<open>\<open>i16::to_le_bytes\<close> and \<open>from_le_bytes\<close>; a signed sample is kept as its two's complement word.\<close>

definition to_le_bytes :: "i16 \<Rightarrow> bytes" where
  "to_le_bytes w = [ucast w, ucast (drop_bit 8 w)]"

definition from_le_bytes :: "u8 \<Rightarrow> u8 \<Rightarrow> i16" where
  "from_le_bytes a b = push_bit 8 (ucast b) OR ucast a"

definition PcmCodec_encode :: "PcmCodec \<Rightarrow> i16 list \<Rightarrow> bytes \<Rightarrow> CodecError + (bytes \<times> nat)" where
  "PcmCodec_encode c pcm out =
     (let needed = wire_bytes c in
      if length pcm \<noteq> total_samples c then Inl (FrameSizeMismatch (total_samples c) (length pcm))
      else if length out < needed then Inl (CodecBufferTooSmall needed (length out))
      else Inr (foldl (\<lambda>out (i, sample).
                   (out [i * 2 := to_le_bytes sample ! 0]) [i * 2 + 1 := to_le_bytes sample ! 1])
                 out (enumerate 0 pcm), needed))"

definition PcmCodec_decode :: "PcmCodec \<Rightarrow> bytes \<Rightarrow> i16 list \<Rightarrow> CodecError + (i16 list \<times> nat)" where
  "PcmCodec_decode c data pcm =
     (if length data mod 2 \<noteq> 0 then Inl (InvalidParams ''PCM payload length not even'')
      else
        let samples = length data div 2 in
        if length pcm < samples then Inl (CodecBufferTooSmall samples (length pcm))
        else Inr (foldl (\<lambda>pcm i. pcm [i := from_le_bytes (data ! (i * 2)) (data ! (i * 2 + 1))]) pcm [0..<samples],
                  samples div max (unat (pcm_channels c)) 1))"

section \<open>Opus\<close>

datatype SampleRate = Hz8000 | Hz12000 | Hz16000 | Hz24000 | Hz48000
datatype Channels = Mono | Stereo

text \<open>The calls of \<open>audiopus\<close> that the wrapper makes; an error is its text.  A coder is its hidden state.\<close>

record ('e, 'd) libopus =
  lo_encoder_new :: "SampleRate \<Rightarrow> Channels \<Rightarrow> string + 'e"
  lo_set_bitrate :: "'e \<Rightarrow> nat \<Rightarrow> string + 'e"
  lo_set_inband_fec :: "'e \<Rightarrow> bool \<Rightarrow> string + 'e"
  lo_set_packet_loss_perc :: "'e \<Rightarrow> nat \<Rightarrow> string + 'e"
  lo_encode :: "'e \<Rightarrow> i16 list \<Rightarrow> bytes \<Rightarrow> (string + (bytes \<times> nat)) \<times> 'e"
  lo_decoder_new :: "SampleRate \<Rightarrow> Channels \<Rightarrow> string + 'd"
  lo_decode :: "'d \<Rightarrow> bytes \<Rightarrow> i16 list \<Rightarrow> (string + (i16 list \<times> nat)) \<times> 'd"

record ('e, 'd) OpusCodec =
  opus_encoder :: "'e option"
  opus_decoder :: "'d option"
  opus_sample_rate :: u32
  opus_channels :: u8
  opus_frame_duration_ms :: u8

definition to_sample_rate :: "u32 \<Rightarrow> CodecError + SampleRate" where
  "to_sample_rate hz =
     (if hz = 8000 then Inr Hz8000 else if hz = 12000 then Inr Hz12000 else if hz = 16000 then Inr Hz16000
      else if hz = 24000 then Inr Hz24000 else if hz = 48000 then Inr Hz48000
      else Inl (InvalidParams ''Opus supports 8/12/16/24/48 kHz only''))"

definition to_channels :: "u8 \<Rightarrow> CodecError + Channels" where
  "to_channels n =
     (if n = 1 then Inr Mono else if n = 2 then Inr Stereo
      else Inl (InvalidParams ''Opus supports 1 or 2 channels''))"

text \<open>The operator \<open>?\<close> on a \<open>Result\<close>, and \<open>map_err\<close> to a backend error.\<close>

definition andThen :: "'e + 'a \<Rightarrow> ('a \<Rightarrow> 'e + 'b) \<Rightarrow> 'e + 'b" where
  "andThen r f = (case r of Inl e \<Rightarrow> Inl e | Inr x \<Rightarrow> f x)"

definition backend :: "string \<Rightarrow> string + 'a \<Rightarrow> CodecError + 'a" where
  "backend what r = (case r of Inl e \<Rightarrow> Inl (Backend (what @ '': '' @ e)) | Inr x \<Rightarrow> Inr x)"

definition OpusCodec_new_encoder ::
  "('e, 'd) libopus \<Rightarrow> u32 \<Rightarrow> u8 \<Rightarrow> u8 \<Rightarrow> CodecError + ('e, 'd) OpusCodec" where
  "OpusCodec_new_encoder L sample_rate channels frame_duration_ms =
     andThen (to_sample_rate sample_rate) (\<lambda>sr.
     andThen (to_channels channels) (\<lambda>ch.
     andThen (backend ''opus encoder'' (lo_encoder_new L sr ch)) (\<lambda>enc.
     andThen (backend ''opus set_bitrate'' (lo_set_bitrate L enc 64000)) (\<lambda>enc.
     andThen (backend ''opus set_fec'' (lo_set_inband_fec L enc True)) (\<lambda>enc.
     andThen (backend ''opus set_ploss'' (lo_set_packet_loss_perc L enc 5)) (\<lambda>enc.
       Inr \<lparr>opus_encoder = Some enc, opus_decoder = None, opus_sample_rate = sample_rate,
            opus_channels = channels, opus_frame_duration_ms = frame_duration_ms\<rparr>))))))"

definition OpusCodec_new_decoder ::
  "('e, 'd) libopus \<Rightarrow> u32 \<Rightarrow> u8 \<Rightarrow> u8 \<Rightarrow> CodecError + ('e, 'd) OpusCodec" where
  "OpusCodec_new_decoder L sample_rate channels frame_duration_ms =
     andThen (to_sample_rate sample_rate) (\<lambda>sr.
     andThen (to_channels channels) (\<lambda>ch.
     andThen (backend ''opus decoder'' (lo_decoder_new L sr ch)) (\<lambda>dec.
       Inr \<lparr>opus_encoder = None, opus_decoder = Some dec, opus_sample_rate = sample_rate,
            opus_channels = channels, opus_frame_duration_ms = frame_duration_ms\<rparr>)))"

definition opus_samples_per_channel :: "('e, 'd) OpusCodec \<Rightarrow> nat" where
  "opus_samples_per_channel c = unat (opus_sample_rate c) * unat (opus_frame_duration_ms c) div 1000"

definition OpusCodec_encode ::
  "('e, 'd) libopus \<Rightarrow> ('e, 'd) OpusCodec \<Rightarrow> i16 list \<Rightarrow> bytes \<Rightarrow>
   (CodecError + (bytes \<times> nat)) \<times> ('e, 'd) OpusCodec" where
  "OpusCodec_encode L c pcm out =
     (let expected = opus_samples_per_channel c * unat (opus_channels c) in
      if length pcm \<noteq> expected then (Inl (FrameSizeMismatch expected (length pcm)), c)
      else case opus_encoder c of
        None \<Rightarrow> (Inl (InvalidParams ''not an encoder instance''), c)
      | Some enc \<Rightarrow>
          (case lo_encode L enc pcm out of
             (r, enc) \<Rightarrow> (backend ''opus encode'' r, c\<lparr>opus_encoder := Some enc\<rparr>)))"

definition OpusCodec_decode ::
  "('e, 'd) libopus \<Rightarrow> ('e, 'd) OpusCodec \<Rightarrow> bytes \<Rightarrow> i16 list \<Rightarrow>
   (CodecError + (i16 list \<times> nat)) \<times> ('e, 'd) OpusCodec" where
  "OpusCodec_decode L c data pcm =
     (case opus_decoder c of
        None \<Rightarrow> (Inl (InvalidParams ''not a decoder instance''), c)
      | Some dec \<Rightarrow>
          (case lo_decode L dec data pcm of
             (r, dec) \<Rightarrow> (backend ''opus decode'' r, c\<lparr>opus_decoder := Some dec\<rparr>)))"

section \<open>The boxed coders\<close>

text \<open>\<open>Box<dyn Encoder>\<close> and \<open>Box<dyn Decoder>\<close>: a coder of either kind and its trait methods.\<close>

datatype ('e, 'd) coder = PcmCoder PcmCodec | OpusCoder "('e, 'd) libopus" "('e, 'd) OpusCodec"

fun coder_id :: "('e, 'd) coder \<Rightarrow> CodecId" where
  "coder_id (PcmCoder _) = Pcm"
| "coder_id (OpusCoder _ _) = Opus"

fun frame_samples :: "('e, 'd) coder \<Rightarrow> nat" where
  "frame_samples (PcmCoder c) = samples_per_channel c"
| "frame_samples (OpusCoder _ c) = opus_samples_per_channel c"

fun encode_frame :: "('e, 'd) coder \<Rightarrow> i16 list \<Rightarrow> bytes \<Rightarrow> (CodecError + (bytes \<times> nat)) \<times> ('e, 'd) coder" where
  "encode_frame (PcmCoder c) pcm out = (PcmCodec_encode c pcm out, PcmCoder c)"
| "encode_frame (OpusCoder L c) pcm out = (case OpusCodec_encode L c pcm out of (r, c) \<Rightarrow> (r, OpusCoder L c))"

fun decode_frame :: "('e, 'd) coder \<Rightarrow> bytes \<Rightarrow> i16 list \<Rightarrow> (CodecError + (i16 list \<times> nat)) \<times> ('e, 'd) coder" where
  "decode_frame (PcmCoder c) data pcm = (PcmCodec_decode c data pcm, PcmCoder c)"
| "decode_frame (OpusCoder L c) data pcm = (case OpusCodec_decode L c data pcm of (r, c) \<Rightarrow> (r, OpusCoder L c))"

definition build_pair ::
  "('e, 'd) libopus option \<Rightarrow> CodecId \<Rightarrow> u32 \<Rightarrow> u8 \<Rightarrow> u8 \<Rightarrow> CodecError + (('e, 'd) coder \<times> ('e, 'd) coder)" where
  "build_pair opus codec sample_rate channels frame_duration_ms =
     (case codec of
        Pcm \<Rightarrow>
          (let enc = PcmCodec_new sample_rate channels frame_duration_ms;
               dec = PcmCodec_new sample_rate channels frame_duration_ms
           in Inr (PcmCoder enc, PcmCoder dec))
      | Opus \<Rightarrow>
          (case opus of
             Some L \<Rightarrow>
               andThen (OpusCodec_new_encoder L sample_rate channels frame_duration_ms) (\<lambda>enc.
               andThen (OpusCodec_new_decoder L sample_rate channels frame_duration_ms) (\<lambda>dec.
                 Inr (OpusCoder L enc, OpusCoder L dec)))
           | None \<Rightarrow> Inl (Unsupported codec))
      | Other _ \<Rightarrow> Inl (Unsupported codec))"

section \<open>The conversion loops\<close>

lemma le_bytes_inverse [simp]: "from_le_bytes (ucast w) (ucast (drop_bit 8 w)) = w"
  using from_be16_be16 [of w] by (simp add: from_le_bytes_def from_be16_def)

lemma to_le_bytes_simps [simp]:
  "length (to_le_bytes w) = 2" "from_le_bytes (to_le_bytes w ! 0) (to_le_bytes w ! Suc 0) = w"
  by (simp_all add: to_le_bytes_def)

lemma sample_write:
  assumes "i * 2 + 2 \<le> length out"
  shows "(out [i * 2 := to_le_bytes w ! 0]) [Suc (i * 2) := to_le_bytes w ! Suc 0] =
    take (2 * i) out @ to_le_bytes w @ drop (Suc (Suc (2 * i))) out"
proof -
  have "Suc (Suc (j - 2)) = j" if "\<not> j \<le> Suc (2 * i)" for j
    using that by simp
  then show ?thesis
    using assms by (intro nth_equalityI) (auto simp: to_le_bytes_def nth_append nth_list_update nth_Cons' min_def)
qed

lemma length_samples [simp]: "length (concat (map to_le_bytes pcm)) = 2 * length pcm"
  by (induction pcm) simp_all

lemma encode_loop:
  "2 * (k + length pcm) \<le> length out \<Longrightarrow>
   foldl (\<lambda>out (i, sample). (out [i * 2 := to_le_bytes sample ! 0]) [i * 2 + 1 := to_le_bytes sample ! 1])
     out (enumerate k pcm) = take (2 * k) out @ concat (map to_le_bytes pcm) @ drop (2 * (k + length pcm)) out"
proof (induction pcm arbitrary: k out)
  case (Cons w pcm)
  let ?out = "take (2 * k) out @ to_le_bytes w @ drop (2 * k + 2) out"
  have len: "2 * k + 2 \<le> length out" "2 * (Suc k + length pcm) \<le> length ?out"
    using Cons.prems by simp_all
  have "take (2 * Suc k) ?out = take (2 * k) out @ to_le_bytes w"
    using len(1) by simp
  moreover have "drop (2 * (Suc k + length pcm)) ?out = drop (2 * (Suc k + length pcm)) out"
    using len(1) by (simp add: add.commute)
  ultimately show ?case
    using Cons.IH [OF len(2)] len(1) sample_write [of k out w] by simp
qed simp

lemma fill_loop:
  "n \<le> length xs \<Longrightarrow> foldl (\<lambda>xs i. xs [i := f i]) xs [0..<n] = map f [0..<n] @ drop n xs"
proof (induction n)
  case (Suc n)
  then have "foldl (\<lambda>xs i. xs [i := f i]) xs [0..<Suc n] = (map f [0..<n] @ drop n xs) [n := f n]"
    by simp
  also have "\<dots> = map f [0..<n] @ (drop n xs) [0 := f n]"
    by (simp add: list_update_append)
  also have "drop n xs = xs ! n # drop (Suc n) xs"
    using Suc.prems by (simp add: Cons_nth_drop_Suc)
  finally show ?case
    by simp
qed simp

lemma sample_at:
  "i < length pcm \<Longrightarrow> concat (map to_le_bytes pcm) ! (i * 2 + j) = to_le_bytes (pcm ! i) ! j" if "j < 2"
proof (induction pcm arbitrary: i)
  case (Cons w pcm)
  show ?case
    using Cons.IH [of "i - 1"] Cons.prems that by (cases i) (simp_all add: nth_append)
qed simp

lemma decode_samples:
  assumes "length pcm \<le> length buf"
  shows "PcmCodec_decode c (concat (map to_le_bytes pcm)) buf =
    Inr (pcm @ drop (length pcm) buf, length pcm div max (unat (pcm_channels c)) 1)"
proof -
  have "map (\<lambda>i. from_le_bytes (concat (map to_le_bytes pcm) ! (i * 2)) (concat (map to_le_bytes pcm) ! (i * 2 + 1)))
      [0..<length pcm] = pcm"
    using sample_at [where j = 0 and pcm = pcm] sample_at [where j = 1 and pcm = pcm]
    by (intro nth_equalityI) simp_all
  then show ?thesis
    using assms by (simp add: PcmCodec_decode_def Let_def fill_loop)
qed

lemma encode_samples:
  "length pcm = total_samples c \<Longrightarrow> 2 * length pcm \<le> length out \<Longrightarrow>
   PcmCodec_encode c pcm out = Inr (concat (map to_le_bytes pcm) @ drop (2 * length pcm) out, 2 * length pcm)"
  using encode_loop [of 0 pcm out] by (simp add: PcmCodec_encode_def wire_bytes_def mult.commute Let_def)

section \<open>What a client relies on\<close>

text \<open>The contract of a lossless codec: a frame of the right size is encoded into any buffer that is large enough, nothing
  else is encoded, and the decoder returns the samples and how many there are per channel.  The client lemma is
  about the receiver's use of it: decode into a zeroed buffer and keep the samples of all channels.\<close>

locale lossless_codec =
  fixes enc :: "'c \<Rightarrow> i16 list \<Rightarrow> bytes \<Rightarrow> CodecError + (bytes \<times> nat)"
    and dec :: "'c \<Rightarrow> bytes \<Rightarrow> i16 list \<Rightarrow> CodecError + (i16 list \<times> nat)"
    and samples :: "'c \<Rightarrow> nat" and channels :: "'c \<Rightarrow> nat" and wire_size :: "'c \<Rightarrow> nat"
  assumes enc_total: "length pcm = samples c \<Longrightarrow> wire_size c \<le> length out \<Longrightarrow> \<exists>out'. enc c pcm out = Inr (out', wire_size c)"
    and enc_only: "enc c pcm out = Inr (out', n) \<Longrightarrow> length pcm = samples c \<and> n = wire_size c"
    and dec_enc: "enc c pcm out = Inr (out', n) \<Longrightarrow> length pcm \<le> length buf \<Longrightarrow>
      dec c (take n out') buf = Inr (pcm @ drop (length pcm) buf, length pcm div max (channels c) 1)"
    and whole_frames: "channels c dvd samples c"
begin

lemma kept_samples:
  assumes "enc c pcm out = Inr (out', n)" and "samples c \<le> k"
  shows "\<exists>buf produced. dec c (take n out') (replicate k 0) = Inr (buf, produced) \<and> take (produced * channels c) buf = pcm"
proof -
  have len: "length pcm = samples c"
    using enc_only [OF assms(1)] by simp
  have "length pcm div max (channels c) 1 * channels c = length pcm"
    using whole_frames [of c] len by (cases "channels c = 0") (simp_all add: max_def)
  then show ?thesis
    using dec_enc [OF assms(1), of "replicate k 0"] assms(2) len by simp
qed

end

interpretation pcm: lossless_codec PcmCodec_encode PcmCodec_decode total_samples "\<lambda>c. unat (pcm_channels c)" wire_bytes
proof
  fix c pcm out
  show "length pcm = total_samples c \<Longrightarrow> wire_bytes c \<le> length out \<Longrightarrow> \<exists>out'. PcmCodec_encode c pcm out = Inr (out', wire_bytes c)"
    using encode_samples [of pcm c out] by (simp add: wire_bytes_def mult.commute)
next
  fix c pcm out out' n
  assume enc: "PcmCodec_encode c pcm out = Inr (out', n)"
  then have len: "length pcm = total_samples c" "2 * length pcm \<le> length out"
    by (auto simp: PcmCodec_encode_def wire_bytes_def Let_def split: if_splits)
  then show "length pcm = total_samples c \<and> n = wire_bytes c"
    using enc encode_samples [OF len] by (simp add: wire_bytes_def)
  fix buf :: "i16 list"
  assume "length pcm \<le> length buf"
  then show "PcmCodec_decode c (take n out') buf = Inr (pcm @ drop (length pcm) buf, length pcm div max (unat (pcm_channels c)) 1)"
    using enc encode_samples [OF len] decode_samples [of pcm buf c] by auto
qed (simp add: total_samples_def)

lemma andThen_cases:
  "andThen r f = Inr y \<longleftrightarrow> (\<exists>x. r = Inr x \<and> f x = Inr y)"
  "andThen r f = Inl e \<longleftrightarrow> r = Inl e \<or> (\<exists>x. r = Inr x \<and> f x = Inl e)"
  by (auto simp: andThen_def split: sum.splits)

lemma backend_Inl: "backend what r = Inl e \<Longrightarrow> \<exists>m. e = Backend m"
  by (auto simp: backend_def split: sum.splits)

lemma to_sample_rate_cases:
  "to_sample_rate r = Inr sr \<Longrightarrow> r \<in> {8000, 12000, 16000, 24000, 48000}"
  "to_sample_rate r = Inl e \<Longrightarrow> \<exists>m. e = InvalidParams m"
  by (auto simp: to_sample_rate_def split: if_splits)

lemma to_channels_cases:
  "to_channels n = Inr ch \<Longrightarrow> n \<in> {1, 2}"
  "to_channels n = Inl e \<Longrightarrow> \<exists>m. e = InvalidParams m"
  by (auto simp: to_channels_def split: if_splits)

lemma new_encoder_spec:
  "OpusCodec_new_encoder L r ch ms = Inr c \<Longrightarrow>
     r \<in> {8000, 12000, 16000, 24000, 48000} \<and> ch \<in> {1, 2} \<and> opus_samples_per_channel c = unat r * unat ms div 1000"
  "OpusCodec_new_encoder L r ch ms = Inl e \<Longrightarrow> e \<noteq> Unsupported x"
  unfolding OpusCodec_new_encoder_def andThen_cases
  by (auto simp: opus_samples_per_channel_def dest!: to_sample_rate_cases to_channels_cases backend_Inl)

lemma new_decoder_spec:
  "OpusCodec_new_decoder L r ch ms = Inr c \<Longrightarrow> opus_samples_per_channel c = unat r * unat ms div 1000"
  "OpusCodec_new_decoder L r ch ms = Inl e \<Longrightarrow> e \<noteq> Unsupported x"
  unfolding OpusCodec_new_decoder_def andThen_cases
  by (auto simp: opus_samples_per_channel_def dest!: to_sample_rate_cases to_channels_cases backend_Inl)

section \<open>Properties\<close>

text \<open>PCM is lossless.  Encoding fails, with the error that says why, exactly when the frame has the wrong number of
  samples or the output buffer is too small; otherwise it writes two bytes per sample, leaves the rest of the buffer
  alone, and decoding what it wrote returns exactly the samples, in any buffer that can hold them.\<close>

lemma pcm_lossless:
  "case PcmCodec_encode c pcm out of
     Inl e \<Rightarrow> (if length pcm = total_samples c
               then length out < 2 * length pcm \<and> e = CodecBufferTooSmall (2 * length pcm) (length out)
               else e = FrameSizeMismatch (total_samples c) (length pcm))
   | Inr (out', n) \<Rightarrow>
       length pcm = total_samples c \<and> n = 2 * length pcm \<and> n \<le> length out \<and> length out' = length out \<and>
       drop n out' = drop n out \<and>
       (\<forall>xs. PcmCodec_decode c (take n out') (replicate (length pcm) 0 @ xs) =
          Inr (pcm @ xs, length pcm div max (unat (pcm_channels c)) 1))"
proof (cases "length pcm = total_samples c \<and> 2 * length pcm \<le> length out")
  case True
  then show ?thesis
    using encode_samples [of pcm c out] decode_samples [where c = c and pcm = pcm] by simp
next
  case False
  then show ?thesis
    by (auto simp: PcmCodec_encode_def wire_bytes_def Let_def mult.commute)
qed

text \<open>Codec negotiation.  Negotiation never fails: it returns a codec of this build, the client's own choice when the
  build has it, and a codec that is not PCM only when libopus is there.  Every byte on the wire names one codec and
  the name is encoded as the same byte; an identifier survives the trip unless it is one of the two reserved codes
  disguised as an extension.\<close>

lemma codec_negotiation:
  "(\<exists>c. negotiate opus p = Inr c \<and> c = (if p \<in> set (supported opus) then p else hd (supported opus)) \<and>
      c \<in> set (supported opus) \<and>
      (if opus = None then c = Pcm else c \<in> {Pcm, Opus})) \<and>
   CodecId_code (CodecId_from_code b) = b \<and>
   (CodecId_from_code (CodecId_code p) = p \<longleftrightarrow> p \<notin> {Other 1, Other 2})"
  by (cases p; cases opus) (simp_all add: negotiate_def supported_def CodecId_from_code_def)

text \<open>Which coders can be built.  A PCM pair always can, and its two ends agree on the frame size; an unknown codec
  never can; an Opus pair only in a build with libopus, at one of its five sample rates and with one or two channels,
  and then the frame size is the PCM one.\<close>

lemma build_pair_cases:
  "case build_pair opus codec sample_rate channels ms of
     Inr (e, d) \<Rightarrow>
       coder_id e = codec \<and> coder_id d = codec \<and> frame_samples e = frame_samples d \<and>
       frame_samples e = unat sample_rate * unat ms div 1000 \<and>
       (codec = Pcm \<or> codec = Opus \<and> opus \<noteq> None \<and> sample_rate \<in> {8000, 12000, 16000, 24000, 48000} \<and> channels \<in> {1, 2})
   | Inl err \<Rightarrow> codec \<noteq> Pcm \<and> (err = Unsupported codec \<longleftrightarrow> codec \<noteq> Opus \<or> opus = None)"
proof (cases codec)
  case Opus
  then show ?thesis
    by (auto simp: build_pair_def andThen_cases dest!: new_encoder_spec new_decoder_spec split: sum.splits option.splits)
qed (simp_all add: build_pair_def Let_def samples_per_channel_def PcmCodec_new_def)

end
