(* ===== verification/Constants.thy ===== *)
theory Constants
  imports Prelude
begin

text \<open>
  The protocol constants of \<open>gravital-talk-core/src/constants.rs\<close> and the core error type of
  \<open>gravital-talk-core/src/error.rs\<close> with its stable numeric codes.
\<close>

section \<open>Protocol constants\<close>

definition MAGIC_BYTES :: bytes where
  "MAGIC_BYTES = [0x47, 0x53]"

definition PROTOCOL_VERSION :: u8 where
  "PROTOCOL_VERSION = 0x01"

definition PROTOCOL_VERSION_MIN :: u8 where
  "PROTOCOL_VERSION_MIN = 0x01"

definition PROTOCOL_VERSION_MAX :: u8 where
  "PROTOCOL_VERSION_MAX = 0x01"

definition HEADER_SIZE :: nat where
  "HEADER_SIZE = 24"

definition DEFAULT_MTU :: nat where
  "DEFAULT_MTU = 1200"

definition MAX_PAYLOAD_SIZE :: nat where
  "MAX_PAYLOAD_SIZE = DEFAULT_MTU - HEADER_SIZE"

definition MAX_FRAGMENTS :: u16 where
  "MAX_FRAGMENTS = 16"

definition FRAGMENT_SUBHEADER_SIZE :: nat where
  "FRAGMENT_SUBHEADER_SIZE = 4"

definition DEFAULT_SAMPLE_RATE :: u32 where
  "DEFAULT_SAMPLE_RATE = 48000"

definition DEFAULT_FRAME_DURATION_MS :: u8 where
  "DEFAULT_FRAME_DURATION_MS = 20"

definition DEFAULT_JITTER_BUFFER_MS :: u16 where
  "DEFAULT_JITTER_BUFFER_MS = 40"

definition DEFAULT_MAX_BITRATE :: u32 where
  "DEFAULT_MAX_BITRATE = 64000"

definition HEARTBEAT_INTERVAL_MS :: u64 where
  "HEARTBEAT_INTERVAL_MS = 1000"

definition HEARTBEAT_TIMEOUT_MS :: u64 where
  "HEARTBEAT_TIMEOUT_MS = 10000"

definition HANDSHAKE_TIMEOUT_MS :: u64 where
  "HANDSHAKE_TIMEOUT_MS = 10000"

definition HANDSHAKE_RETRY_BASE_MS :: u64 where
  "HANDSHAKE_RETRY_BASE_MS = 200"

definition LOSS_WINDOW_SIZE :: u32 where
  "LOSS_WINDOW_SIZE = 64"

definition FEC_WINDOW :: u8 where
  "FEC_WINDOW = 4"

definition CONGESTION_MIN_BITRATE :: u32 where
  "CONGESTION_MIN_BITRATE = 8000"

definition CONGESTION_AIMD_INCREMENT :: u32 where
  "CONGESTION_AIMD_INCREMENT = 2000"

definition PAYLOAD_LEN_TAIL_OFFSET :: nat where
  "PAYLOAD_LEN_TAIL_OFFSET = 4"

definition CHECKSUM_TAIL_OFFSET :: nat where
  "CHECKSUM_TAIL_OFFSET = 2"

lemmas size_consts = HEADER_SIZE_def DEFAULT_MTU_def MAX_PAYLOAD_SIZE_def
  FRAGMENT_SUBHEADER_SIZE_def PAYLOAD_LEN_TAIL_OFFSET_def CHECKSUM_TAIL_OFFSET_def

lemmas version_consts = PROTOCOL_VERSION_def PROTOCOL_VERSION_MIN_def PROTOCOL_VERSION_MAX_def

text \<open>Field offsets of the packet header (\<open>constants::offsets\<close>).\<close>

definition OFF_MAGIC :: nat where
  "OFF_MAGIC = 0"

definition OFF_VERSION :: nat where
  "OFF_VERSION = 2"

definition OFF_FLAGS :: nat where
  "OFF_FLAGS = 3"

definition OFF_MSG_TYPE :: nat where
  "OFF_MSG_TYPE = 4"

definition OFF_RESERVED :: nat where
  "OFF_RESERVED = 5"

definition OFF_SESSION_ID :: nat where
  "OFF_SESSION_ID = 8"

definition OFF_SEQUENCE :: nat where
  "OFF_SEQUENCE = 12"

definition OFF_TIMESTAMP :: nat where
  "OFF_TIMESTAMP = 16"

lemmas offset_consts = OFF_MAGIC_def OFF_VERSION_def OFF_FLAGS_def OFF_MSG_TYPE_def
  OFF_RESERVED_def OFF_SESSION_ID_def OFF_SEQUENCE_def OFF_TIMESTAMP_def

section \<open>Core errors\<close>

datatype Error =
    TooShort
  | BadMagic
  | ProtocolMismatch
  | LengthMismatch
  | BadChecksum
  | UnknownMessageType u8
  | BufferTooSmall
  | PayloadTooLarge
  | TooManyFragments
  | FragmentOutOfRange
  | DuplicateFragment
  | IncompleteReassembly
  | InvalidStateTransition
  | MalformedPayload
  | DecryptionFailed
  | ReservedFieldNonZero
  | VersionNegotiationFailed

primrec Error_code :: "Error \<Rightarrow> u16" where
  "Error_code TooShort = 1"
| "Error_code BadMagic = 2"
| "Error_code ProtocolMismatch = 3"
| "Error_code LengthMismatch = 4"
| "Error_code BadChecksum = 5"
| "Error_code (UnknownMessageType _) = 6"
| "Error_code BufferTooSmall = 7"
| "Error_code PayloadTooLarge = 8"
| "Error_code TooManyFragments = 9"
| "Error_code FragmentOutOfRange = 10"
| "Error_code DuplicateFragment = 11"
| "Error_code IncompleteReassembly = 12"
| "Error_code InvalidStateTransition = 13"
| "Error_code MalformedPayload = 14"
| "Error_code DecryptionFailed = 15"
| "Error_code ReservedFieldNonZero = 16"
| "Error_code VersionNegotiationFailed = 17"

text \<open>The FFI can tell two errors apart by their code, up to the byte an unknown type carries.\<close>

lemma Error_code_eq:
  "Error_code e = Error_code e' \<longleftrightarrow>
     e = e' \<or> (\<exists>b b'. e = UnknownMessageType b \<and> e' = UnknownMessageType b')"
  by (cases e; cases e') simp_all

end
