(* ===== verification/Wire.thy ===== *)
theory Wire
  imports Checksum
begin

text \<open>
  The contract every fixed-size message of the protocol keeps, as a locale: \<open>encode\<close> writes the
  message's layout into the front of the caller's buffer and leaves the rest alone, \<open>decode\<close>
  accepts exactly the layouts of well-formed messages and ignores what follows them.  The lemmas
  proved once here (round trip, canonicity, injectivity, error branches) are inherited by every
  message through an \<open>interpretation\<close> in the theory of that message.
\<close>

locale wire_codec =
  fixes size :: nat
    and short_err :: Error
    and wf :: "'m \<Rightarrow> bool"
    and layout :: "'m \<Rightarrow> bytes"
    and encode :: "'m \<Rightarrow> bytes \<Rightarrow> Error + bytes"
    and decode :: "bytes \<Rightarrow> Error + 'm"
  assumes length_layout: "wf m \<Longrightarrow> length (layout m) = size"
    and encode_short: "length buf < size \<Longrightarrow> encode m buf = Inl BufferTooSmall"
    and encode_long: "wf m \<Longrightarrow> size \<le> length buf \<Longrightarrow> encode m buf = Inr (layout m @ drop size buf)"
    and decode_short: "length buf < size \<Longrightarrow> decode buf = Inl short_err"
    and decode_layout: "wf m \<Longrightarrow> decode (layout m @ rest) = Inr m"
    and decode_sound: "decode buf = Inr m \<Longrightarrow> wf m \<and> take size buf = layout m"
begin

lemma decode_long: "decode buf = Inr m \<Longrightarrow> size \<le> length buf"
  using decode_short [of buf] by (fastforce simp: not_less [symmetric])

text \<open>Encoding into any large enough buffer and decoding gives the message back.\<close>

lemma roundtrip:
  assumes "wf m" and "size \<le> length buf"
  shows "\<exists>buf'. encode m buf = Inr buf' \<and> length buf' = length buf \<and>
           drop size buf' = drop size buf \<and> decode buf' = Inr m"
  using assms by (simp add: encode_long decode_layout length_layout)

text \<open>Canonicity: re-encoding what was decoded rewrites the buffer to itself.\<close>

lemma reencode: "decode buf = Inr m \<Longrightarrow> encode m buf = Inr buf"
  using decode_sound [of buf m] decode_long [of buf m] encode_long [of m buf]
  by (metis append_take_drop_id)

text \<open>The decoder accepts a buffer as \<open>m\<close> exactly when \<open>m\<close> is well-formed and encoding it into that
  buffer changes nothing.\<close>

lemma decode_iff: "decode buf = Inr m \<longleftrightarrow> wf m \<and> size \<le> length buf \<and> encode m buf = Inr buf"
  using decode_sound [of buf m] decode_long [of buf m] reencode [of buf m] encode_long [of m buf]
    decode_layout [of m "drop size buf"] by auto

text \<open>Decoding reads only the first \<open>size\<close> bytes.\<close>

lemma decode_prefix:
  assumes "decode buf = Inr m" and "take size buf' = take size buf"
  shows "decode buf' = Inr m"
proof -
  have "wf m" "take size buf' = layout m"
    using decode_sound [OF assms(1)] assms(2) by auto
  then show ?thesis
    using decode_layout [of m "drop size buf'"] by (metis append_take_drop_id)
qed

lemma layout_inject: "wf m \<Longrightarrow> wf m' \<Longrightarrow> layout m = layout m' \<longleftrightarrow> m = m'"
  by (metis decode_layout sum.inject(2))

lemma decode_inject:
  "decode buf = Inr m \<Longrightarrow> decode buf' = Inr m \<Longrightarrow> take size buf = take size buf'"
  using decode_sound by metis

end

text \<open>
  How the layout of a message is matched against a buffer: the reads of the decoder are the
  consecutive sub-slices of the layout.  \<open>wire_sound\<close> glues them together again.
\<close>

lemmas wire_sound = be_rd subslice_join subslice_join_append take_eq_subslice

end
