(* ===== verification/Header.thy ===== *)
theory Header
  imports Wire
begin

unbundle bit_operations_syntax

text \<open>
  \<open>gravital-talk-core/src/header.rs\<close>: the flag byte and the 24-byte packet header.  The header
  codec is an instance of \<open>wire_codec\<close>: a well-formed header carries the protocol version.
\<close>

section \<open>Flags\<close>

type_synonym Flags = u8

definition FRAGMENTED :: Flags where
  "FRAGMENTED = 0x80"

definition LAST_FRAGMENT :: Flags where
  "LAST_FRAGMENT = 0x40"

definition ENCRYPTED :: Flags where
  "ENCRYPTED = 0x20"

definition RETRANSMIT :: Flags where
  "RETRANSMIT = 0x10"

definition Flags_empty :: Flags where
  "Flags_empty = 0"

definition Flags_contains :: "Flags \<Rightarrow> Flags \<Rightarrow> bool" where
  "Flags_contains self other \<longleftrightarrow> self AND other = other"

definition Flags_set :: "Flags \<Rightarrow> Flags \<Rightarrow> Flags" where
  "Flags_set self other = self OR other"

definition Flags_unset :: "Flags \<Rightarrow> Flags \<Rightarrow> Flags" where
  "Flags_unset self other = self AND NOT other"

lemma Flags_contains_bits: "Flags_contains f g \<longleftrightarrow> (\<forall>n. bit g n \<longrightarrow> bit f n)"
  unfolding Flags_contains_def bit_eq_iff bit_and_iff by (metis bit_imp_possible_bit)

lemma Flags_contains_set: "Flags_contains (Flags_set f g) h \<longleftrightarrow> (\<forall>n. bit h n \<longrightarrow> bit f n \<or> bit g n)"
  by (simp add: Flags_contains_bits Flags_set_def bit_or_iff)

lemma Flags_set_contains [simp]: "Flags_contains (Flags_set f g) g"
  by (simp add: Flags_contains_set)

section \<open>Packet header\<close>

record PacketHeader =
  version :: u8
  flags :: Flags
  msg_type :: u8
  session_id :: u32
  sequence :: u32
  timestamp :: u64

definition PacketHeader_decode :: "bytes \<Rightarrow> Error + PacketHeader" where
  "PacketHeader_decode buf =
     (if length buf < HEADER_SIZE then Inl TooShort
      else if buf ! OFF_MAGIC \<noteq> MAGIC_BYTES ! 0 \<or> buf ! (OFF_MAGIC + 1) \<noteq> MAGIC_BYTES ! 1
        then Inl BadMagic
      else if buf ! OFF_VERSION \<noteq> PROTOCOL_VERSION then Inl ProtocolMismatch
      else if buf ! OFF_RESERVED \<noteq> 0 \<or> buf ! (OFF_RESERVED + 1) \<noteq> 0 \<or> buf ! (OFF_RESERVED + 2) \<noteq> 0
        then Inl ReservedFieldNonZero
      else Inr \<lparr>version = buf ! OFF_VERSION, flags = buf ! OFF_FLAGS,
                msg_type = buf ! OFF_MSG_TYPE, session_id = rd32 OFF_SESSION_ID buf,
                sequence = rd32 OFF_SEQUENCE buf, timestamp = rd64 OFF_TIMESTAMP buf\<rparr>)"

definition PacketHeader_encode :: "PacketHeader \<Rightarrow> bytes \<Rightarrow> Error + bytes" where
  "PacketHeader_encode h buf =
     (if length buf < HEADER_SIZE then Inl BufferTooSmall
      else Inr
        (let buf = write_at OFF_MAGIC [MAGIC_BYTES ! 0] buf;
             buf = write_at (OFF_MAGIC + 1) [MAGIC_BYTES ! 1] buf;
             buf = write_at OFF_VERSION [version h] buf;
             buf = write_at OFF_FLAGS [flags h] buf;
             buf = write_at OFF_MSG_TYPE [msg_type h] buf;
             buf = write_at OFF_RESERVED [0] buf;
             buf = write_at (OFF_RESERVED + 1) [0] buf;
             buf = write_at (OFF_RESERVED + 2) [0] buf;
             buf = write_at OFF_SESSION_ID (be32 (session_id h)) buf;
             buf = write_at OFF_SEQUENCE (be32 (sequence h)) buf;
             buf = write_at OFF_TIMESTAMP (be64 (timestamp h)) buf
         in buf))"

definition PacketHeader_new :: "u8 \<Rightarrow> u32 \<Rightarrow> u32 \<Rightarrow> u64 \<Rightarrow> PacketHeader" where
  "PacketHeader_new mt sid seq ts =
     \<lparr>version = PROTOCOL_VERSION, flags = Flags_empty, msg_type = mt, session_id = sid,
      sequence = seq, timestamp = ts\<rparr>"

text \<open>The layout of the header comment in \<open>header.rs\<close>, as one byte list.\<close>

definition header_layout :: "PacketHeader \<Rightarrow> bytes" where
  "header_layout h =
     [0x47] @ [0x53] @ [version h] @ [flags h] @ [msg_type h] @ [0] @ [0] @ [0] @
     be32 (session_id h) @ be32 (sequence h) @ be64 (timestamp h)"

definition header_wf :: "PacketHeader \<Rightarrow> bool" where
  "header_wf h \<longleftrightarrow> version h = PROTOCOL_VERSION"

lemma length_header_layout [simp]: "length (header_layout h) = 24"
  by (simp add: header_layout_def)

lemma PacketHeader_encode_eq:
  "PacketHeader_encode h buf =
     (if length buf < 24 then Inl BufferTooSmall else Inr (header_layout h @ drop 24 buf))"
proof (cases "length buf < 24")
  case False
  then show ?thesis
    by (simp add: PacketHeader_encode_def size_consts offset_consts MAGIC_BYTES_def
        header_layout_def wire del: append_Cons)
qed (simp add: PacketHeader_encode_def size_consts)

lemma PacketHeader_decode_layout: "header_wf h \<Longrightarrow> PacketHeader_decode (header_layout h @ rest) = Inr h"
  by (simp add: PacketHeader_decode_def size_consts offset_consts MAGIC_BYTES_def header_layout_def
      header_wf_def wire del: append_Cons)

lemma PacketHeader_decode_sound:
  assumes "PacketHeader_decode buf = Inr h"
  shows "header_wf h \<and> take 24 buf = header_layout h"
proof -
  have len: "24 \<le> length buf"
    using assms by (auto simp: PacketHeader_decode_def size_consts split: if_splits)
  then have nonempty: "buf \<noteq> []" by auto
  have fields: "buf ! 0 = 0x47" "buf ! 1 = 0x53" "buf ! 2 = version h" "buf ! 3 = flags h"
    "buf ! 4 = msg_type h" "buf ! 5 = 0" "buf ! 6 = 0" "buf ! 7 = 0"
    "rd32 8 buf = session_id h" "rd32 12 buf = sequence h" "rd64 16 buf = timestamp h"
    "version h = PROTOCOL_VERSION"
    using assms
    by (auto simp: PacketHeader_decode_def size_consts offset_consts MAGIC_BYTES_def
        numeral_2_eq_2 [symmetric] split: if_splits)
  have "header_layout h = [buf ! 0] @ [buf ! 1] @ [buf ! 2] @ [buf ! 3] @ [buf ! 4] @ [buf ! 5] @
      [buf ! 6] @ [buf ! 7] @ be32 (rd32 8 buf) @ be32 (rd32 12 buf) @ be64 (rd64 16 buf)"
    by (simp only: header_layout_def fields)
  also have "\<dots> = take 24 buf"
    using len nonempty by (simp add: nth_eq_subslice wire_sound del: append_Cons One_nat_def)
  finally show ?thesis
    using fields by (simp add: header_wf_def)
qed

interpretation header: wire_codec 24 TooShort header_wf header_layout
  PacketHeader_encode PacketHeader_decode
  by unfold_locales
     (auto simp: PacketHeader_encode_eq PacketHeader_decode_layout PacketHeader_decode_sound,
      simp add: PacketHeader_decode_def size_consts)

text \<open>The order and the outcome of the header checks: a buffer is rejected as too short, for
  its magic bytes, for its version or for its reserved bytes, in that order, and is accepted in
  every other case.\<close>

lemma PacketHeader_decode_errors:
  "PacketHeader_decode buf =
     (if length buf < 24 then Inl TooShort
      else if take 2 buf \<noteq> [0x47, 0x53] then Inl BadMagic
      else if buf ! 2 \<noteq> 1 then Inl ProtocolMismatch
      else if subslice 5 8 buf \<noteq> [0, 0, 0] then Inl ReservedFieldNonZero
      else Inr \<lparr>version = 1, flags = buf ! 3, msg_type = buf ! 4, session_id = rd32 8 buf,
                sequence = rd32 12 buf, timestamp = rd64 16 buf\<rparr>)"
proof (cases "length buf < 24")
  case False
  then have "buf \<noteq> []" by auto
  with False have "take 2 buf = [buf ! 0, buf ! 1]" "subslice 5 8 buf = [buf ! 5, buf ! 6, buf ! 7]"
    by (simp_all add: subslice_def numeral_eq_Suc take_Suc_conv_app_nth Cons_nth_drop_Suc [symmetric])
  with False show ?thesis
    by (simp add: PacketHeader_decode_def size_consts offset_consts MAGIC_BYTES_def version_consts)
qed (simp add: PacketHeader_decode_def size_consts)

end
