(* ===== verification/Packet.thy ===== *)
theory Packet
  imports Header
begin

unbundle bit_operations_syntax

text \<open>
  \<open>gravital-talk-core/src/packet.rs\<close>: a whole datagram is header (24), payload, payload length (2)
  and CRC-16 (2).  Proved: encoding writes exactly that layout, decoding is its exact inverse (so
  every accepted datagram is canonical), a corrupted datagram is rejected, and which payloads fit
  an MTU-sized buffer.
\<close>

section \<open>Decoding and encoding\<close>

record PacketView =
  header :: PacketHeader
  payload :: bytes

definition packet_build_table :: "u16 list" where
  "packet_build_table = map (\<lambda>i. (crc_bit ^^ 8) (push_bit 8 (of_nat i))) [0..<256]"

definition packet_TABLE :: "u16 list" where
  "packet_TABLE = packet_build_table"

definition crc_step :: "u16 \<Rightarrow> bytes \<Rightarrow> u16" where
  "crc_step crc data =
     foldl (\<lambda>crc byte. push_bit 8 crc XOR
              packet_TABLE ! unat (ucast (drop_bit 8 crc) XOR byte :: u8)) crc data"

definition compute_checksum :: "bytes \<Rightarrow> bytes \<Rightarrow> u16 \<Rightarrow> u16" where
  "compute_checksum hdr pl payload_len =
     (let crc = 0xFFFF;
          crc = crc_step crc hdr;
          crc = crc_step crc pl;
          crc = crc_step crc (be16 payload_len)
      in crc)"

definition PacketView_decode :: "bytes \<Rightarrow> Error + PacketView" where
  "PacketView_decode buf =
     (let total_len = length buf in
      if total_len < HEADER_SIZE + 4 then Inl TooShort
      else case PacketHeader_decode buf of
        Inl e \<Rightarrow> Inl e
      | Inr hdr \<Rightarrow>
          (let payload_len_offset = total_len - PAYLOAD_LEN_TAIL_OFFSET;
               checksum_offset = total_len - CHECKSUM_TAIL_OFFSET;
               payload_len = rd16 payload_len_offset buf;
               expected_len = HEADER_SIZE + unat payload_len + 4
           in if expected_len \<noteq> total_len then Inl LengthMismatch
              else if unat payload_len > MAX_PAYLOAD_SIZE then Inl PayloadTooLarge
              else let pl = subslice HEADER_SIZE (HEADER_SIZE + unat payload_len) buf;
                       stored_checksum = rd16 checksum_offset buf;
                       computed = compute_checksum (take HEADER_SIZE buf) pl payload_len
                   in if stored_checksum \<noteq> computed then Inl BadChecksum
                      else Inr \<lparr>header = hdr, payload = pl\<rparr>))"

definition PacketBuilder_encode :: "PacketHeader \<Rightarrow> bytes \<Rightarrow> bytes \<Rightarrow> Error + (bytes \<times> nat)" where
  "PacketBuilder_encode hdr pl out =
     (let payload_len = length pl in
      if payload_len > MAX_PAYLOAD_SIZE then Inl PayloadTooLarge
      else let total = HEADER_SIZE + payload_len + 4 in
        if length out < total then Inl BufferTooSmall
        else case PacketHeader_encode hdr (take HEADER_SIZE out) of
          Inl e \<Rightarrow> Inl e
        | Inr hdr_buf \<Rightarrow>
            (let out = write_at 0 hdr_buf out;
                 out = write_at HEADER_SIZE pl out;
                 payload_len_u16 = of_nat payload_len;
                 payload_len_offset = total - PAYLOAD_LEN_TAIL_OFFSET;
                 out = write_at payload_len_offset (be16 payload_len_u16) out;
                 checksum = crc16_two_segments (take HEADER_SIZE out) pl;
                 checksum = crc_step checksum (be16 payload_len_u16);
                 checksum_offset = total - CHECKSUM_TAIL_OFFSET;
                 out = write_at checksum_offset (be16 checksum) out
             in Inr (out, total)))"

section \<open>The layout of a datagram\<close>

definition packet_body :: "PacketHeader \<Rightarrow> bytes \<Rightarrow> bytes" where
  "packet_body hdr pl = header_layout hdr @ pl @ be16 (of_nat (length pl))"

definition packet_bytes :: "PacketHeader \<Rightarrow> bytes \<Rightarrow> bytes" where
  "packet_bytes hdr pl = packet_body hdr pl @ be16 (crc16_ccitt_false (packet_body hdr pl))"

lemma length_packet_body [simp]: "length (packet_body hdr pl) = length pl + 26"
  by (simp add: packet_body_def)

lemma length_packet_bytes [simp]: "length (packet_bytes hdr pl) = length pl + 28"
  by (simp add: packet_bytes_def)

text \<open>The second copy of the table and of the CRC loop in \<open>packet.rs\<close> is the one of \<open>checksum.rs\<close>.\<close>

lemma packet_TABLE_eq: "packet_TABLE = TABLE"
  by (simp add: packet_TABLE_def packet_build_table_def TABLE_def build_table_def table_entry_def)

lemma crc_step_eq: "crc_step crc data = foldl crc_serial crc data"
proof -
  have "(\<lambda>crc byte. push_bit 8 crc XOR packet_TABLE ! unat (ucast (drop_bit 8 crc) XOR byte :: u8))
      = crc_serial"
    by (simp add: fun_eq_iff packet_TABLE_eq crc_update_serial [symmetric] crc_update_def Let_def)
  then show ?thesis
    by (simp add: crc_step_def)
qed

lemma compute_checksum_eq: "compute_checksum hdr pl n = crc16_ccitt_false (hdr @ pl @ be16 n)"
  by (simp add: compute_checksum_def crc_step_eq crc16_eq_foldl INIT_def Let_def)

lemma two_segments_step:
  "crc_step (crc16_two_segments hdr pl) xs = crc16_ccitt_false (hdr @ pl @ xs)"
  by (simp add: crc16_two_segments_def crc_step_eq crc16_eq_foldl foldl_crc_update)

lemma PacketBuilder_encode_eq:
  "PacketBuilder_encode hdr pl out =
     (if length pl > 1176 then Inl PayloadTooLarge
      else if length out < length pl + 28 then Inl BufferTooSmall
      else Inr (packet_bytes hdr pl @ drop (length pl + 28) out, length pl + 28))"
proof (cases "length pl > 1176 \<or> length out < length pl + 28")
  case True
  then show ?thesis
    by (auto simp: PacketBuilder_encode_def size_consts Let_def)
next
  case False
  let ?out = "header_layout hdr @ drop 24 out"
  have hdr: "PacketHeader_encode hdr (take 24 out) = Inr (header_layout hdr)"
    using False by (simp add: PacketHeader_encode_eq)
  show ?thesis
    using False hdr
    by (simp add: PacketBuilder_encode_def size_consts Let_def wire packet_bytes_def packet_body_def
        two_segments_step add.commute)
qed

section \<open>Decoding inverts the layout\<close>

lemma unat_of_nat_payload: "length pl \<le> 1176 \<Longrightarrow> unat (of_nat (length pl) :: u16) = length pl"
  by (simp add: unsigned_of_nat take_bit_nat_eq_self)

lemma PacketView_decode_packet_bytes:
  assumes "header_wf h" and "length pl \<le> 1176"
  shows "PacketView_decode (packet_bytes h pl) = Inr \<lparr>header = h, payload = pl\<rparr>"
  using assms
  by (simp add: PacketView_decode_def size_consts packet_bytes_def packet_body_def Let_def wire
      unat_of_nat_payload compute_checksum_eq PacketHeader_decode_layout
      rd_be(1) [of _ "[]", simplified])

lemma split_packet:
  assumes "length buf = n + 28"
  shows "buf = take 24 buf @ subslice 24 (24 + n) buf @ be16 (rd16 (24 + n) buf) @ be16 (rd16 (26 + n) buf)"
proof -
  have "take 24 buf @ subslice 24 (24 + n) buf @ be16 (rd16 (24 + n) buf) @ be16 (rd16 (26 + n) buf)
      = subslice 0 (n + 28) buf"
    using assms be_rd(1) [of "24 + n" buf] be_rd(1) [of "26 + n" buf]
    by (simp add: take_eq_subslice subslice_join subslice_join_append add.commute)
  also have "\<dots> = buf"
    using assms by (simp add: subslice_def)
  finally show ?thesis by simp
qed

lemma PacketView_decode_sound:
  assumes "PacketView_decode buf = Inr v"
  shows "header_wf (header v) \<and> length (payload v) \<le> 1176 \<and> buf = packet_bytes (header v) (payload v)"
proof -
  let ?n = "unat (rd16 (length buf - 4) buf)"
  obtain h where h: "PacketHeader_decode buf = Inr h"
    using assms by (auto simp: PacketView_decode_def Let_def split: if_splits sum.splits)
  have v: "v = \<lparr>header = h, payload = subslice 24 (24 + ?n) buf\<rparr>"
    and len: "length buf = ?n + 28" and small: "?n \<le> 1176"
    and crc: "rd16 (length buf - 2) buf =
        crc16_ccitt_false (take 24 buf @ payload v @ be16 (rd16 (length buf - 4) buf))"
    using assms h
    by (auto simp: PacketView_decode_def size_consts Let_def compute_checksum_eq split: if_splits)
  have hdr: "header_wf h" "take 24 buf = header_layout h"
    using PacketHeader_decode_sound [OF h] by simp_all
  have lenp: "length (payload v) = ?n"
    using v len by simp
  have "(of_nat ?n :: u16) = rd16 (length buf - 4) buf"
    by simp
  then have body: "take 24 buf @ payload v @ be16 (rd16 (length buf - 4) buf) = packet_body h (payload v)"
    by (simp only: packet_body_def hdr lenp)
  have "buf = packet_body h (payload v) @ be16 (rd16 (length buf - 2) buf)"
  proof -
    have "length buf - 4 = 24 + ?n" "length buf - 2 = 26 + ?n"
      using len by simp_all
    then have "buf = take 24 buf @ payload v @ be16 (rd16 (length buf - 4) buf) @
        be16 (rd16 (length buf - 2) buf)"
      using split_packet [OF len] v by simp
    then show ?thesis
      by (simp flip: body)
  qed
  then show ?thesis
    using crc body v hdr small lenp by (simp add: packet_bytes_def)
qed

lemma PacketView_decode_iff:
  "PacketView_decode buf = Inr v \<longleftrightarrow>
     header_wf (header v) \<and> length (payload v) \<le> 1176 \<and> buf = packet_bytes (header v) (payload v)"
  using PacketView_decode_sound PacketView_decode_packet_bytes [of "header v" "payload v"] by auto

section \<open>Properties\<close>

text \<open>Packet round trip.  For every header of this protocol version and every payload, encoding into
  a buffer that is large enough succeeds, reports the number of bytes it wrote, leaves the rest of the buffer
  alone, and decoding the written bytes gives exactly the header and the payload back.\<close>

lemma packet_roundtrip:
  assumes "header_wf h" and "length pl \<le> MAX_PAYLOAD_SIZE" and "length pl + 28 \<le> length out"
  shows "\<exists>out'. PacketBuilder_encode h pl out = Inr (out', length pl + 28) \<and>
           length out' = length out \<and> drop (length pl + 28) out' = drop (length pl + 28) out \<and>
           PacketView_decode (take (length pl + 28) out') = Inr \<lparr>header = h, payload = pl\<rparr>"
  using assms by (simp add: PacketBuilder_encode_eq size_consts PacketView_decode_packet_bytes)

lemma packet_roundtrip_witness:
  "\<exists>out'. PacketBuilder_encode (PacketHeader_new 0x10 7 1 5) [1, 2, 3] (replicate 31 0) = Inr (out', 31) \<and>
     PacketView_decode (take 31 out') = Inr \<lparr>header = PacketHeader_new 0x10 7 1 5, payload = [1, 2, 3]\<rparr>"
  using packet_roundtrip [of "PacketHeader_new 0x10 7 1 5" "[1, 2, 3]" "replicate 31 0"]
  by (auto simp: header_wf_def PacketHeader_new_def size_consts)


text \<open>Two accepted datagrams of the same length have the same payload length, hence the same trailer
  length field; this is what protects the length field itself against corruption.\<close>

lemma corrupted_body:
  assumes "PacketView_decode (xs @ [b, c] @ ys) = Inr v" and "PacketView_decode (xs @ [b', c'] @ ys) = Inr v'"
  shows "b = b' \<and> c = c'"
proof -
  let ?p = "xs @ [b, c] @ ys" and ?q = "xs @ [b', c'] @ ys"
  let ?n = "length (payload v)"
  have p: "?p = packet_bytes (header v) (payload v)" and q: "?q = packet_bytes (header v') (payload v')"
    using assms by (simp_all only: PacketView_decode_iff)
  have "length ?p = length ?q" by simp
  then have n': "length (payload v') = ?n"
    by (simp only: p q length_packet_bytes)
  define m where "m = ?n + 26"
  have bp: "crc16_ccitt_false (take m ?p) = rd16 m ?p" and bq: "crc16_ccitt_false (take m ?q) = rd16 m ?q"
    unfolding p q using n' by (simp_all add: packet_bytes_def m_def wire rd_be(1) [of _ "[]", simplified])
  have lp: "length xs + 2 + length ys = m + 2"
    using arg_cong [OF p, of length] by (simp add: m_def)
  have len_field: "subslice (m - 2) m ?p = subslice (m - 2) m ?q"
    unfolding p q using n'
    by (simp add: packet_bytes_def packet_body_def m_def wire)
  consider "length xs + 2 \<le> m" | "length xs = m - 1" "0 < m" | "length xs = m"
    using lp by linarith
  then show ?thesis
  proof cases
    case 1
    then have "rd16 m ?p = rd16 m ?q"
      by (simp add: rd16_def nth_append nth_Cons')
    moreover have "take m ?p = xs @ [b, c] @ take (m - length xs - 2) ys"
      "take m ?q = xs @ [b', c'] @ take (m - length xs - 2) ys"
      using 1 by (simp_all add: take_Cons' numeral_2_eq_2)
    ultimately show ?thesis
      using bp bq crc16_pair_inject by metis
  next
    case 2
    then have "b = b'"
      using len_field by (auto simp: subslice_def take_Cons' drop_Cons' split: if_splits)
    moreover from this 2 have "take m ?p = take m ?q"
      by (simp add: take_Cons')
    then have "rd16 m ?p = rd16 m ?q"
      using bp bq by simp
    then have "be16 (rd16 m ?p) = be16 (rd16 m ?q)"
      by simp
    moreover have "m - length xs = 1" "\<not> m < length xs"
      using 2 by simp_all
    ultimately show ?thesis
      by (simp add: rd16_def nth_append)
  next
    case 3
    then have "take m ?p = take m ?q"
      by simp
    then have "be16 (rd16 m ?p) = be16 (rd16 m ?q)"
      using bp bq by simp
    then show ?thesis
      using 3 by (simp add: rd16_def nth_append)
  qed
qed

text \<open>C6: corruption is detected.  Changing one byte, or two adjacent bytes, anywhere in a valid datagram
  (header, payload, length field, checksum or across their borders) makes the decoder reject it.\<close>

theorem packet_corruption_rejected:
  assumes "PacketView_decode (xs @ [b, c] @ ys) = Inr v" and "(b', c') \<noteq> (b, c)"
  shows "\<exists>e. PacketView_decode (xs @ [b', c'] @ ys) = Inl e"
  using assms corrupted_body by (cases "PacketView_decode (xs @ [b', c'] @ ys)") blast+

theorem packet_corruption_rejected_witness:
  "\<exists>e. PacketView_decode
     (header_layout (PacketHeader_new 0x10 7 1 5) @ [9, 2] @ be16 2 @
      be16 (crc16_ccitt_false (packet_body (PacketHeader_new 0x10 7 1 5) [1, 2]))) = Inl e"
proof -
  let ?h = "PacketHeader_new 0x10 7 1 5"
  let ?tail = "be16 2 @ be16 (crc16_ccitt_false (packet_body ?h [1, 2]))"
  have "packet_bytes ?h [1, 2] = header_layout ?h @ [1, 2] @ ?tail"
    by (simp add: packet_bytes_def packet_body_def)
  then have "PacketView_decode (header_layout ?h @ [1, 2] @ ?tail) = Inr \<lparr>header = ?h, payload = [1, 2]\<rparr>"
    using PacketView_decode_packet_bytes [of ?h "[1, 2]"]
    by (simp add: header_wf_def PacketHeader_new_def)
  then show ?thesis
    using packet_corruption_rejected [of "header_layout ?h" 1 2 ?tail _ 9 2] by simp
qed

text \<open>Which payloads fit a datagram.  With a buffer of the protocol's MTU (the one the transport session
  encodes into), encoding succeeds exactly for payloads of at most 1172 bytes.  Payloads of 1173 to 1176 bytes
  pass the size check against the maximal payload, which leaves no room for the 4-byte trailer, and fail
  as a too small buffer.\<close>

lemma packet_mtu_payload_limit:
  assumes "length out = DEFAULT_MTU"
  shows "PacketBuilder_encode h pl out =
    (if length pl \<le> 1172 then Inr (packet_bytes h pl @ drop (length pl + 28) out, length pl + 28)
     else if length pl \<le> MAX_PAYLOAD_SIZE then Inl BufferTooSmall else Inl PayloadTooLarge)"
  using assms by (auto simp: PacketBuilder_encode_eq size_consts)

lemma packet_mtu_payload_limit_witness:
  "PacketBuilder_encode (PacketHeader_new 0x10 1 1 1) (replicate 1174 0) (replicate 1200 0) = Inl BufferTooSmall"
  using packet_mtu_payload_limit [of "replicate 1200 0" "PacketHeader_new 0x10 1 1 1" "replicate 1174 0"]
  by (simp add: size_consts)

end
