(* ===== verification/Message.thy ===== *)
theory Message
  imports Wire
begin

text \<open>
  \<open>gravital-talk-core/src/message.rs\<close>: the message types and the fixed-size payloads of the
  handshake, of forward error correction, of bitrate control and of authentication.  Arrays
  \<open>[u8; n]\<close> are byte lists whose length is part of the well-formedness of the message.  Every
  payload is an instance of \<open>wire_codec\<close>.
\<close>

section \<open>Message types\<close>

datatype MessageType =
    HandshakeClientHello
  | HandshakeServerHello
  | HandshakeSessionConfirm
  | HandshakeKeyExchange
  | AudioFrame
  | AudioFragment
  | AudioFec
  | Heartbeat
  | HeartbeatAck
  | ControlPause
  | ControlResume
  | ControlMetrics
  | ControlBitrate
  | FloorRequest
  | FloorGrant
  | FloorDeny
  | FloorRelease
  | FloorTaken
  | AuthChallenge
  | AuthResponse
  | AuthAccepted
  | AuthRejected
  | Extension u8
  | ErrorMsg
  | CloseMsg

primrec MessageType_code :: "MessageType \<Rightarrow> u8" where
  "MessageType_code HandshakeClientHello = 0x01"
| "MessageType_code HandshakeServerHello = 0x02"
| "MessageType_code HandshakeSessionConfirm = 0x03"
| "MessageType_code HandshakeKeyExchange = 0x04"
| "MessageType_code AudioFrame = 0x10"
| "MessageType_code AudioFragment = 0x11"
| "MessageType_code AudioFec = 0x12"
| "MessageType_code Heartbeat = 0x20"
| "MessageType_code HeartbeatAck = 0x21"
| "MessageType_code ControlPause = 0x30"
| "MessageType_code ControlResume = 0x31"
| "MessageType_code ControlMetrics = 0x32"
| "MessageType_code ControlBitrate = 0x33"
| "MessageType_code FloorRequest = 0x40"
| "MessageType_code FloorGrant = 0x41"
| "MessageType_code FloorDeny = 0x42"
| "MessageType_code FloorRelease = 0x43"
| "MessageType_code FloorTaken = 0x44"
| "MessageType_code AuthChallenge = 0x50"
| "MessageType_code AuthResponse = 0x51"
| "MessageType_code AuthAccepted = 0x52"
| "MessageType_code AuthRejected = 0x53"
| "MessageType_code (Extension b) = b"
| "MessageType_code ErrorMsg = 0xFE"
| "MessageType_code CloseMsg = 0xFF"

text \<open>The \<open>match\<close> of \<open>from_code\<close>: the arms are tried in order, the range pattern of the extensions
  after the named codes.\<close>

definition extension_code :: "u8 \<Rightarrow> bool" where
  "extension_code c \<longleftrightarrow> 0x45 \<le> c \<and> c \<le> 0x4F \<or> 0x54 \<le> c \<and> c \<le> 0x7F"

definition MessageType_from_code :: "u8 \<Rightarrow> Error + MessageType" where
  "MessageType_from_code code =
     (if code = 0x01 then Inr HandshakeClientHello
      else if code = 0x02 then Inr HandshakeServerHello
      else if code = 0x03 then Inr HandshakeSessionConfirm
      else if code = 0x04 then Inr HandshakeKeyExchange
      else if code = 0x10 then Inr AudioFrame
      else if code = 0x11 then Inr AudioFragment
      else if code = 0x12 then Inr AudioFec
      else if code = 0x20 then Inr Heartbeat
      else if code = 0x21 then Inr HeartbeatAck
      else if code = 0x30 then Inr ControlPause
      else if code = 0x31 then Inr ControlResume
      else if code = 0x32 then Inr ControlMetrics
      else if code = 0x33 then Inr ControlBitrate
      else if code = 0x40 then Inr FloorRequest
      else if code = 0x41 then Inr FloorGrant
      else if code = 0x42 then Inr FloorDeny
      else if code = 0x43 then Inr FloorRelease
      else if code = 0x44 then Inr FloorTaken
      else if code = 0x50 then Inr AuthChallenge
      else if code = 0x51 then Inr AuthResponse
      else if code = 0x52 then Inr AuthAccepted
      else if code = 0x53 then Inr AuthRejected
      else if 0x45 \<le> code \<and> code \<le> 0x4F \<or> 0x54 \<le> code \<and> code \<le> 0x7F then Inr (Extension code)
      else if code = 0xFE then Inr ErrorMsg
      else if code = 0xFF then Inr CloseMsg
      else Inl (UnknownMessageType code))"

definition is_handshake :: "MessageType \<Rightarrow> bool" where
  "is_handshake m \<longleftrightarrow>
     m \<in> {HandshakeClientHello, HandshakeServerHello, HandshakeSessionConfirm, HandshakeKeyExchange}"

definition is_floor_control :: "MessageType \<Rightarrow> bool" where
  "is_floor_control m \<longleftrightarrow> m \<in> {FloorRequest, FloorGrant, FloorDeny, FloorRelease, FloorTaken}"

definition is_auth :: "MessageType \<Rightarrow> bool" where
  "is_auth m \<longleftrightarrow> m \<in> {AuthChallenge, AuthResponse, AuthAccepted, AuthRejected}"

fun MessageType_wf :: "MessageType \<Rightarrow> bool" where
  "MessageType_wf (Extension b) \<longleftrightarrow> extension_code b"
| "MessageType_wf _ \<longleftrightarrow> True"

lemma MessageType_from_code_code: "MessageType_wf m \<Longrightarrow> MessageType_from_code (MessageType_code m) = Inr m"
proof (cases m)
  case (Extension b)
  assume "MessageType_wf m"
  then have "0x45 \<le> b \<and> b \<le> 0x4F \<or> 0x54 \<le> b \<and> b \<le> 0x7F"
    by (simp add: Extension extension_code_def)
  then show ?thesis
    by (auto simp: Extension MessageType_from_code_def word_le_nat_alt)
qed (simp_all add: MessageType_from_code_def)

lemma MessageType_from_code_sound:
  "MessageType_from_code c = Inr m \<Longrightarrow> MessageType_code m = c \<and> MessageType_wf m"
  unfolding MessageType_from_code_def by (auto simp: extension_code_def split: if_split_asm)

section \<open>Payloads\<close>

text \<open>First handshake message (client to server).\<close>

record ClientHello =
  ch_ephemeral_public_key :: bytes
  ch_client_nonce :: bytes
  ch_protocol_version :: u8
  ch_codec_preferred :: u8
  ch_sample_rate :: u32
  ch_channels :: u8
  ch_frame_duration_ms :: u8
  ch_max_bitrate :: u32
  ch_capability_flags :: u32

definition ClientHello_SIZE :: nat where
  "ClientHello_SIZE = 80"

definition ClientHello_encode :: "ClientHello \<Rightarrow> bytes \<Rightarrow> Error + bytes" where
  "ClientHello_encode m buf =
     (if length buf < ClientHello_SIZE then Inl BufferTooSmall
      else Inr
        (let buf = write_at 0 (ch_ephemeral_public_key m) buf;
             buf = write_at 32 (ch_client_nonce m) buf;
             buf = write_at 64 [ch_protocol_version m] buf;
             buf = write_at 65 [ch_codec_preferred m] buf;
             buf = write_at 66 (be32 (ch_sample_rate m)) buf;
             buf = write_at 70 [ch_channels m] buf;
             buf = write_at 71 [ch_frame_duration_ms m] buf;
             buf = write_at 72 (be32 (ch_max_bitrate m)) buf;
             buf = write_at 76 (be32 (ch_capability_flags m)) buf
         in buf))"

definition ClientHello_decode :: "bytes \<Rightarrow> Error + ClientHello" where
  "ClientHello_decode buf =
     (if length buf < ClientHello_SIZE then Inl MalformedPayload
      else Inr \<lparr>ch_ephemeral_public_key = subslice 0 32 buf,
                     ch_client_nonce = subslice 32 64 buf, ch_protocol_version = buf ! 64,
                     ch_codec_preferred = buf ! 65, ch_sample_rate = rd32 66 buf,
                     ch_channels = buf ! 70, ch_frame_duration_ms = buf ! 71,
                     ch_max_bitrate = rd32 72 buf, ch_capability_flags = rd32 76 buf\<rparr>)"

definition ClientHello_wf :: "ClientHello \<Rightarrow> bool" where
  "ClientHello_wf m \<longleftrightarrow> length (ch_ephemeral_public_key m) = 32 \<and> length (ch_client_nonce m) = 32"

definition ClientHello_layout :: "ClientHello \<Rightarrow> bytes" where
  "ClientHello_layout m =
     ch_ephemeral_public_key m @ ch_client_nonce m @ [ch_protocol_version m] @
     [ch_codec_preferred m] @ be32 (ch_sample_rate m) @ [ch_channels m] @
     [ch_frame_duration_ms m] @ be32 (ch_max_bitrate m) @ be32 (ch_capability_flags m)"

lemmas ClientHello_defs = ClientHello_SIZE_def ClientHello_encode_def ClientHello_decode_def
  ClientHello_wf_def ClientHello_layout_def

lemma ClientHello_decode_sound:
  "ClientHello_decode buf = Inr m \<Longrightarrow> ClientHello_wf m \<and> take ClientHello_SIZE buf = ClientHello_layout m"
  by (auto simp: ClientHello_defs nth_eq_subslice wire_sound
      simp del: append_Cons One_nat_def length_greater_0_conv split: if_splits)

interpretation client_hello: wire_codec ClientHello_SIZE MalformedPayload ClientHello_wf ClientHello_layout
  ClientHello_encode ClientHello_decode
  by unfold_locales
     (auto dest: ClientHello_decode_sound, simp_all add: ClientHello_defs wire del: append_Cons)

text \<open>Second handshake message (server to client).\<close>

record ServerHello =
  sh_ephemeral_public_key :: bytes
  sh_server_nonce :: bytes
  sh_session_id :: u32
  sh_protocol_version :: u8
  sh_codec_accepted :: u8
  sh_sample_rate :: u32
  sh_channels :: u8
  sh_frame_duration_ms :: u8
  sh_max_bitrate :: u32
  sh_capability_flags :: u32

definition ServerHello_SIZE :: nat where
  "ServerHello_SIZE = 84"

definition ServerHello_encode :: "ServerHello \<Rightarrow> bytes \<Rightarrow> Error + bytes" where
  "ServerHello_encode m buf =
     (if length buf < ServerHello_SIZE then Inl BufferTooSmall
      else Inr
        (let buf = write_at 0 (sh_ephemeral_public_key m) buf;
             buf = write_at 32 (sh_server_nonce m) buf;
             buf = write_at 64 (be32 (sh_session_id m)) buf;
             buf = write_at 68 [sh_protocol_version m] buf;
             buf = write_at 69 [sh_codec_accepted m] buf;
             buf = write_at 70 (be32 (sh_sample_rate m)) buf;
             buf = write_at 74 [sh_channels m] buf;
             buf = write_at 75 [sh_frame_duration_ms m] buf;
             buf = write_at 76 (be32 (sh_max_bitrate m)) buf;
             buf = write_at 80 (be32 (sh_capability_flags m)) buf
         in buf))"

definition ServerHello_decode :: "bytes \<Rightarrow> Error + ServerHello" where
  "ServerHello_decode buf =
     (if length buf < ServerHello_SIZE then Inl MalformedPayload
      else Inr \<lparr>sh_ephemeral_public_key = subslice 0 32 buf,
                     sh_server_nonce = subslice 32 64 buf, sh_session_id = rd32 64 buf,
                     sh_protocol_version = buf ! 68, sh_codec_accepted = buf ! 69,
                     sh_sample_rate = rd32 70 buf, sh_channels = buf ! 74,
                     sh_frame_duration_ms = buf ! 75, sh_max_bitrate = rd32 76 buf,
                     sh_capability_flags = rd32 80 buf\<rparr>)"

definition ServerHello_wf :: "ServerHello \<Rightarrow> bool" where
  "ServerHello_wf m \<longleftrightarrow> length (sh_ephemeral_public_key m) = 32 \<and> length (sh_server_nonce m) = 32"

definition ServerHello_layout :: "ServerHello \<Rightarrow> bytes" where
  "ServerHello_layout m =
     sh_ephemeral_public_key m @ sh_server_nonce m @ be32 (sh_session_id m) @
     [sh_protocol_version m] @ [sh_codec_accepted m] @ be32 (sh_sample_rate m) @
     [sh_channels m] @ [sh_frame_duration_ms m] @ be32 (sh_max_bitrate m) @
     be32 (sh_capability_flags m)"

lemmas ServerHello_defs = ServerHello_SIZE_def ServerHello_encode_def ServerHello_decode_def
  ServerHello_wf_def ServerHello_layout_def

lemma ServerHello_decode_sound:
  "ServerHello_decode buf = Inr m \<Longrightarrow> ServerHello_wf m \<and> take ServerHello_SIZE buf = ServerHello_layout m"
  by (auto simp: ServerHello_defs nth_eq_subslice wire_sound
      simp del: append_Cons One_nat_def length_greater_0_conv split: if_splits)

interpretation server_hello: wire_codec ServerHello_SIZE MalformedPayload ServerHello_wf ServerHello_layout
  ServerHello_encode ServerHello_decode
  by unfold_locales
     (auto dest: ServerHello_decode_sound, simp_all add: ServerHello_defs wire del: append_Cons)

text \<open>Third handshake message: the client proves possession of its key.\<close>

record KeyExchangeMsg =
  ke_session_id :: u32
  ke_auth_tag :: bytes

definition KeyExchangeMsg_SIZE :: nat where
  "KeyExchangeMsg_SIZE = 20"

definition KeyExchangeMsg_encode :: "KeyExchangeMsg \<Rightarrow> bytes \<Rightarrow> Error + bytes" where
  "KeyExchangeMsg_encode m buf =
     (if length buf < KeyExchangeMsg_SIZE then Inl BufferTooSmall
      else Inr
        (let buf = write_at 0 (be32 (ke_session_id m)) buf;
             buf = write_at 4 (ke_auth_tag m) buf
         in buf))"

definition KeyExchangeMsg_decode :: "bytes \<Rightarrow> Error + KeyExchangeMsg" where
  "KeyExchangeMsg_decode buf =
     (if length buf < KeyExchangeMsg_SIZE then Inl MalformedPayload
      else Inr \<lparr>ke_session_id = rd32 0 buf, ke_auth_tag = subslice 4 20 buf\<rparr>)"

definition KeyExchangeMsg_wf :: "KeyExchangeMsg \<Rightarrow> bool" where
  "KeyExchangeMsg_wf m \<longleftrightarrow> length (ke_auth_tag m) = 16"

definition KeyExchangeMsg_layout :: "KeyExchangeMsg \<Rightarrow> bytes" where
  "KeyExchangeMsg_layout m = be32 (ke_session_id m) @ ke_auth_tag m"

lemmas KeyExchangeMsg_defs = KeyExchangeMsg_SIZE_def KeyExchangeMsg_encode_def KeyExchangeMsg_decode_def
  KeyExchangeMsg_wf_def KeyExchangeMsg_layout_def

lemma KeyExchangeMsg_decode_sound:
  "KeyExchangeMsg_decode buf = Inr m \<Longrightarrow> KeyExchangeMsg_wf m \<and> take KeyExchangeMsg_SIZE buf = KeyExchangeMsg_layout m"
  by (auto simp: KeyExchangeMsg_defs nth_eq_subslice wire_sound
      simp del: append_Cons One_nat_def length_greater_0_conv split: if_splits)

interpretation key_exchange: wire_codec KeyExchangeMsg_SIZE MalformedPayload KeyExchangeMsg_wf KeyExchangeMsg_layout
  KeyExchangeMsg_encode KeyExchangeMsg_decode
  by unfold_locales
     (auto dest: KeyExchangeMsg_decode_sound, simp_all add: KeyExchangeMsg_defs wire del: append_Cons)

text \<open>Fourth handshake message: the server confirms.\<close>

record SessionConfirm =
  sc_session_id :: u32
  sc_server_auth_tag :: bytes

definition SessionConfirm_SIZE :: nat where
  "SessionConfirm_SIZE = 20"

definition SessionConfirm_encode :: "SessionConfirm \<Rightarrow> bytes \<Rightarrow> Error + bytes" where
  "SessionConfirm_encode m buf =
     (if length buf < SessionConfirm_SIZE then Inl BufferTooSmall
      else Inr
        (let buf = write_at 0 (be32 (sc_session_id m)) buf;
             buf = write_at 4 (sc_server_auth_tag m) buf
         in buf))"

definition SessionConfirm_decode :: "bytes \<Rightarrow> Error + SessionConfirm" where
  "SessionConfirm_decode buf =
     (if length buf < SessionConfirm_SIZE then Inl MalformedPayload
      else Inr \<lparr>sc_session_id = rd32 0 buf, sc_server_auth_tag = subslice 4 20 buf\<rparr>)"

definition SessionConfirm_wf :: "SessionConfirm \<Rightarrow> bool" where
  "SessionConfirm_wf m \<longleftrightarrow> length (sc_server_auth_tag m) = 16"

definition SessionConfirm_layout :: "SessionConfirm \<Rightarrow> bytes" where
  "SessionConfirm_layout m = be32 (sc_session_id m) @ sc_server_auth_tag m"

lemmas SessionConfirm_defs = SessionConfirm_SIZE_def SessionConfirm_encode_def SessionConfirm_decode_def
  SessionConfirm_wf_def SessionConfirm_layout_def

lemma SessionConfirm_decode_sound:
  "SessionConfirm_decode buf = Inr m \<Longrightarrow> SessionConfirm_wf m \<and> take SessionConfirm_SIZE buf = SessionConfirm_layout m"
  by (auto simp: SessionConfirm_defs nth_eq_subslice wire_sound
      simp del: append_Cons One_nat_def length_greater_0_conv split: if_splits)

interpretation session_confirm: wire_codec SessionConfirm_SIZE MalformedPayload SessionConfirm_wf SessionConfirm_layout
  SessionConfirm_encode SessionConfirm_decode
  by unfold_locales
     (auto dest: SessionConfirm_decode_sound, simp_all add: SessionConfirm_defs wire del: append_Cons)

text \<open>Header of a parity packet; a group of zero frames is refused.\<close>

record FecHeader =
  fh_seq_base :: u32
  fh_window :: u8
  fh_data_len :: u32

definition FecHeader_SIZE :: nat where
  "FecHeader_SIZE = 9"

definition FecHeader_encode :: "FecHeader \<Rightarrow> bytes \<Rightarrow> Error + bytes" where
  "FecHeader_encode m buf =
     (if length buf < FecHeader_SIZE then Inl BufferTooSmall
      else Inr
        (let buf = write_at 0 (be32 (fh_seq_base m)) buf;
             buf = write_at 4 [fh_window m] buf;
             buf = write_at 5 (be32 (fh_data_len m)) buf
         in buf))"

definition FecHeader_decode :: "bytes \<Rightarrow> Error + FecHeader" where
  "FecHeader_decode buf =
     (if length buf < FecHeader_SIZE then Inl MalformedPayload
      else if buf ! 4 = 0 then Inl MalformedPayload
      else Inr \<lparr>fh_seq_base = rd32 0 buf, fh_window = buf ! 4,
                     fh_data_len = rd32 5 buf\<rparr>)"

definition FecHeader_wf :: "FecHeader \<Rightarrow> bool" where
  "FecHeader_wf m \<longleftrightarrow> fh_window m \<noteq> 0"

definition FecHeader_layout :: "FecHeader \<Rightarrow> bytes" where
  "FecHeader_layout m = be32 (fh_seq_base m) @ [fh_window m] @ be32 (fh_data_len m)"

lemmas FecHeader_defs = FecHeader_SIZE_def FecHeader_encode_def FecHeader_decode_def
  FecHeader_wf_def FecHeader_layout_def

lemma FecHeader_decode_sound:
  "FecHeader_decode buf = Inr m \<Longrightarrow> FecHeader_wf m \<and> take FecHeader_SIZE buf = FecHeader_layout m"
  by (auto simp: FecHeader_defs nth_eq_subslice wire_sound
      simp del: append_Cons One_nat_def length_greater_0_conv split: if_splits)

interpretation fec_header: wire_codec FecHeader_SIZE MalformedPayload FecHeader_wf FecHeader_layout
  FecHeader_encode FecHeader_decode
  by unfold_locales
     (auto dest: FecHeader_decode_sound, simp_all add: FecHeader_defs wire del: append_Cons)

text \<open>Bitrate request (receiver to sender).\<close>

record ControlBitrateMsg =
  cb_requested_bitrate :: u32

definition ControlBitrateMsg_SIZE :: nat where
  "ControlBitrateMsg_SIZE = 4"

definition ControlBitrateMsg_encode :: "ControlBitrateMsg \<Rightarrow> bytes \<Rightarrow> Error + bytes" where
  "ControlBitrateMsg_encode m buf =
     (if length buf < ControlBitrateMsg_SIZE then Inl BufferTooSmall
      else Inr
        (let buf = write_at 0 (be32 (cb_requested_bitrate m)) buf
         in buf))"

definition ControlBitrateMsg_decode :: "bytes \<Rightarrow> Error + ControlBitrateMsg" where
  "ControlBitrateMsg_decode buf =
     (if length buf < ControlBitrateMsg_SIZE then Inl MalformedPayload
      else Inr \<lparr>cb_requested_bitrate = rd32 0 buf\<rparr>)"

definition ControlBitrateMsg_wf :: "ControlBitrateMsg \<Rightarrow> bool" where
  "ControlBitrateMsg_wf m \<longleftrightarrow> True"

definition ControlBitrateMsg_layout :: "ControlBitrateMsg \<Rightarrow> bytes" where
  "ControlBitrateMsg_layout m = be32 (cb_requested_bitrate m)"

lemmas ControlBitrateMsg_defs = ControlBitrateMsg_SIZE_def ControlBitrateMsg_encode_def ControlBitrateMsg_decode_def
  ControlBitrateMsg_wf_def ControlBitrateMsg_layout_def

lemma ControlBitrateMsg_decode_sound:
  "ControlBitrateMsg_decode buf = Inr m \<Longrightarrow> ControlBitrateMsg_wf m \<and> take ControlBitrateMsg_SIZE buf = ControlBitrateMsg_layout m"
  by (auto simp: ControlBitrateMsg_defs nth_eq_subslice wire_sound
      simp del: append_Cons One_nat_def length_greater_0_conv split: if_splits)

interpretation control_bitrate: wire_codec ControlBitrateMsg_SIZE MalformedPayload ControlBitrateMsg_wf ControlBitrateMsg_layout
  ControlBitrateMsg_encode ControlBitrateMsg_decode
  by unfold_locales
     (auto dest: ControlBitrateMsg_decode_sound, simp_all add: ControlBitrateMsg_defs wire del: append_Cons)

text \<open>Authentication challenge.\<close>

record AuthChallengeMsg =
  ac_nonce :: bytes

definition AuthChallengeMsg_SIZE :: nat where
  "AuthChallengeMsg_SIZE = 32"

definition AuthChallengeMsg_encode :: "AuthChallengeMsg \<Rightarrow> bytes \<Rightarrow> Error + bytes" where
  "AuthChallengeMsg_encode m buf =
     (if length buf < AuthChallengeMsg_SIZE then Inl BufferTooSmall
      else Inr
        (let buf = write_at 0 (ac_nonce m) buf
         in buf))"

definition AuthChallengeMsg_decode :: "bytes \<Rightarrow> Error + AuthChallengeMsg" where
  "AuthChallengeMsg_decode buf =
     (if length buf < AuthChallengeMsg_SIZE then Inl MalformedPayload
      else Inr \<lparr>ac_nonce = subslice 0 32 buf\<rparr>)"

definition AuthChallengeMsg_wf :: "AuthChallengeMsg \<Rightarrow> bool" where
  "AuthChallengeMsg_wf m \<longleftrightarrow> length (ac_nonce m) = 32"

definition AuthChallengeMsg_layout :: "AuthChallengeMsg \<Rightarrow> bytes" where
  "AuthChallengeMsg_layout m = ac_nonce m"

lemmas AuthChallengeMsg_defs = AuthChallengeMsg_SIZE_def AuthChallengeMsg_encode_def AuthChallengeMsg_decode_def
  AuthChallengeMsg_wf_def AuthChallengeMsg_layout_def

lemma AuthChallengeMsg_decode_sound:
  "AuthChallengeMsg_decode buf = Inr m \<Longrightarrow> AuthChallengeMsg_wf m \<and> take AuthChallengeMsg_SIZE buf = AuthChallengeMsg_layout m"
  by (auto simp: AuthChallengeMsg_defs nth_eq_subslice wire_sound
      simp del: append_Cons One_nat_def length_greater_0_conv split: if_splits)

interpretation auth_challenge: wire_codec AuthChallengeMsg_SIZE MalformedPayload AuthChallengeMsg_wf AuthChallengeMsg_layout
  AuthChallengeMsg_encode AuthChallengeMsg_decode
  by unfold_locales
     (auto dest: AuthChallengeMsg_decode_sound, simp_all add: AuthChallengeMsg_defs wire del: append_Cons)

text \<open>Authentication response.\<close>

record AuthResponseMsg =
  ar_public_key :: bytes
  ar_signature :: bytes

definition AuthResponseMsg_SIZE :: nat where
  "AuthResponseMsg_SIZE = 96"

definition AuthResponseMsg_encode :: "AuthResponseMsg \<Rightarrow> bytes \<Rightarrow> Error + bytes" where
  "AuthResponseMsg_encode m buf =
     (if length buf < AuthResponseMsg_SIZE then Inl BufferTooSmall
      else Inr
        (let buf = write_at 0 (ar_public_key m) buf;
             buf = write_at 32 (ar_signature m) buf
         in buf))"

definition AuthResponseMsg_decode :: "bytes \<Rightarrow> Error + AuthResponseMsg" where
  "AuthResponseMsg_decode buf =
     (if length buf < AuthResponseMsg_SIZE then Inl MalformedPayload
      else Inr \<lparr>ar_public_key = subslice 0 32 buf,
                     ar_signature = subslice 32 96 buf\<rparr>)"

definition AuthResponseMsg_wf :: "AuthResponseMsg \<Rightarrow> bool" where
  "AuthResponseMsg_wf m \<longleftrightarrow> length (ar_public_key m) = 32 \<and> length (ar_signature m) = 64"

definition AuthResponseMsg_layout :: "AuthResponseMsg \<Rightarrow> bytes" where
  "AuthResponseMsg_layout m = ar_public_key m @ ar_signature m"

lemmas AuthResponseMsg_defs = AuthResponseMsg_SIZE_def AuthResponseMsg_encode_def AuthResponseMsg_decode_def
  AuthResponseMsg_wf_def AuthResponseMsg_layout_def

lemma AuthResponseMsg_decode_sound:
  "AuthResponseMsg_decode buf = Inr m \<Longrightarrow> AuthResponseMsg_wf m \<and> take AuthResponseMsg_SIZE buf = AuthResponseMsg_layout m"
  by (auto simp: AuthResponseMsg_defs nth_eq_subslice wire_sound
      simp del: append_Cons One_nat_def length_greater_0_conv split: if_splits)

interpretation auth_response: wire_codec AuthResponseMsg_SIZE MalformedPayload AuthResponseMsg_wf AuthResponseMsg_layout
  AuthResponseMsg_encode AuthResponseMsg_decode
  by unfold_locales
     (auto dest: AuthResponseMsg_decode_sound, simp_all add: AuthResponseMsg_defs wire del: append_Cons)

section \<open>Error codes\<close>

datatype ErrorCode =
    EC_UnknownMessageType
  | EC_InvalidChecksum
  | EC_InvalidState
  | EC_UnsupportedCodec
  | EC_ProtocolMismatch
  | EC_PeerTimeout
  | EC_ResourceExhausted
  | EC_AuthenticationFailed
  | EC_Internal

primrec ErrorCode_code :: "ErrorCode \<Rightarrow> u8" where
  "ErrorCode_code EC_UnknownMessageType = 0x01"
| "ErrorCode_code EC_InvalidChecksum = 0x02"
| "ErrorCode_code EC_InvalidState = 0x03"
| "ErrorCode_code EC_UnsupportedCodec = 0x04"
| "ErrorCode_code EC_ProtocolMismatch = 0x05"
| "ErrorCode_code EC_PeerTimeout = 0x06"
| "ErrorCode_code EC_ResourceExhausted = 0x07"
| "ErrorCode_code EC_AuthenticationFailed = 0x08"
| "ErrorCode_code EC_Internal = 0xFF"

definition ErrorCode_from_code :: "u8 \<Rightarrow> Error + ErrorCode" where
  "ErrorCode_from_code code =
     (if code = 0x01 then Inr EC_UnknownMessageType
      else if code = 0x02 then Inr EC_InvalidChecksum
      else if code = 0x03 then Inr EC_InvalidState
      else if code = 0x04 then Inr EC_UnsupportedCodec
      else if code = 0x05 then Inr EC_ProtocolMismatch
      else if code = 0x06 then Inr EC_PeerTimeout
      else if code = 0x07 then Inr EC_ResourceExhausted
      else if code = 0x08 then Inr EC_AuthenticationFailed
      else if code = 0xFF then Inr EC_Internal
      else Inl MalformedPayload)"

lemma ErrorCode_from_code_iff: "ErrorCode_from_code c = Inr e \<longleftrightarrow> c = ErrorCode_code e"
proof
  show "c = ErrorCode_code e \<Longrightarrow> ErrorCode_from_code c = Inr e"
    by (cases e) (simp_all add: ErrorCode_from_code_def)
qed (auto simp: ErrorCode_from_code_def split: if_split_asm)

section \<open>Properties\<close>

text \<open>The byte codes of message types and of error codes are unambiguous.  A byte decodes to a message
  type exactly when it is the code of that type (and, for extensions, lies in one of the two extension ranges,
  which the floor-control and authentication types are carved out of), and to an error code
  exactly when it is that code.\<close>

lemma message_codes_roundtrip:
  "(MessageType_from_code c = Inr m \<longleftrightarrow> c = MessageType_code m \<and> MessageType_wf m) \<and>
   (ErrorCode_from_code c = Inr e \<longleftrightarrow> c = ErrorCode_code e)"
  using MessageType_from_code_sound MessageType_from_code_code ErrorCode_from_code_iff by metis

text \<open>C23: the four handshake messages are decoded exactly.  A buffer decodes to a message precisely when its
  byte arrays have their fixed lengths, the buffer holds at least the message's size, and encoding the message
  into that buffer leaves every byte of it unchanged.\<close>

theorem handshake_codecs_exact:
  "(ClientHello_decode buf = Inr ch \<longleftrightarrow>
      ClientHello_wf ch \<and> 80 \<le> length buf \<and> ClientHello_encode ch buf = Inr buf) \<and>
   (ServerHello_decode buf = Inr sh \<longleftrightarrow>
      ServerHello_wf sh \<and> 84 \<le> length buf \<and> ServerHello_encode sh buf = Inr buf) \<and>
   (KeyExchangeMsg_decode buf = Inr ke \<longleftrightarrow>
      KeyExchangeMsg_wf ke \<and> 20 \<le> length buf \<and> KeyExchangeMsg_encode ke buf = Inr buf) \<and>
   (SessionConfirm_decode buf = Inr sc \<longleftrightarrow>
      SessionConfirm_wf sc \<and> 20 \<le> length buf \<and> SessionConfirm_encode sc buf = Inr buf)"
  using client_hello.decode_iff [of buf ch] server_hello.decode_iff [of buf sh]
    key_exchange.decode_iff [of buf ke] session_confirm.decode_iff [of buf sc]
  by (simp add: ClientHello_SIZE_def ServerHello_SIZE_def KeyExchangeMsg_SIZE_def SessionConfirm_SIZE_def)

text \<open>The same exactness for the parity header, the bitrate request and the two authentication messages; a
  parity header with window 0 is never accepted.\<close>

lemma control_codecs_exact:
  "(FecHeader_decode buf = Inr fh \<longleftrightarrow>
      fh_window fh \<noteq> 0 \<and> 9 \<le> length buf \<and> FecHeader_encode fh buf = Inr buf) \<and>
   (ControlBitrateMsg_decode buf = Inr cb \<longleftrightarrow>
      4 \<le> length buf \<and> ControlBitrateMsg_encode cb buf = Inr buf) \<and>
   (AuthChallengeMsg_decode buf = Inr ac \<longleftrightarrow>
      AuthChallengeMsg_wf ac \<and> 32 \<le> length buf \<and> AuthChallengeMsg_encode ac buf = Inr buf) \<and>
   (AuthResponseMsg_decode buf = Inr ar \<longleftrightarrow>
      AuthResponseMsg_wf ar \<and> 96 \<le> length buf \<and> AuthResponseMsg_encode ar buf = Inr buf)"
  using fec_header.decode_iff [of buf fh] control_bitrate.decode_iff [of buf cb]
    auth_challenge.decode_iff [of buf ac] auth_response.decode_iff [of buf ar]
  by (simp add: FecHeader_SIZE_def ControlBitrateMsg_SIZE_def AuthChallengeMsg_SIZE_def
      AuthResponseMsg_SIZE_def FecHeader_wf_def ControlBitrateMsg_wf_def)

end
