(* ===== verification/Crypto.thy ===== *)
theory Crypto
  imports Wire
begin

text \<open>
  \<open>gravital-talk-core/src/crypto.rs\<close>: nonce construction and in-place authenticated encryption.
  The cipher itself (ChaCha20-Poly1305, a third-party crate) is a parameter: a record of the two
  detached operations the code calls.  \<open>aead_ok\<close> states their documented behaviour.
\<close>

section \<open>The cipher as a parameter\<close>

text \<open>\<open>aead_encrypt key nonce aad plaintext\<close> gives ciphertext and tag, \<open>aead_decrypt key nonce aad
  ciphertext tag\<close> the plaintext; \<open>None\<close> is the crate's opaque error.\<close>

record aead =
  aead_encrypt :: "bytes \<Rightarrow> bytes \<Rightarrow> bytes \<Rightarrow> bytes \<Rightarrow> (bytes \<times> bytes) option"
  aead_decrypt :: "bytes \<Rightarrow> bytes \<Rightarrow> bytes \<Rightarrow> bytes \<Rightarrow> bytes \<Rightarrow> bytes option"

definition KEY_SIZE :: nat where
  "KEY_SIZE = 32"

definition TAG_SIZE :: nat where
  "TAG_SIZE = 16"

definition NONCE_SIZE :: nat where
  "NONCE_SIZE = 12"

text \<open>Encryption keeps the length and gives a 16-byte tag; decryption accepts exactly what encryption
  produced (the tag is recomputed and compared).\<close>

definition aead_ok :: "aead \<Rightarrow> bool" where
  "aead_ok A \<longleftrightarrow>
     (\<forall>k n a p c t. aead_encrypt A k n a p = Some (c, t) \<longrightarrow> length c = length p \<and> length t = 16) \<and>
     (\<forall>k n a p c t. length t = 16 \<longrightarrow>
        (aead_decrypt A k n a c t = Some p \<longleftrightarrow> aead_encrypt A k n a p = Some (c, t)))"

section \<open>Operations\<close>

definition make_nonce :: "u32 \<Rightarrow> u32 \<Rightarrow> bytes" where
  "make_nonce seq sid =
     (let n = replicate NONCE_SIZE 0;
          n = write_at 0 (be32 seq) n;
          n = write_at 4 (be32 sid) n
      in n)"

definition encrypt_in_place ::
  "aead \<Rightarrow> bytes \<Rightarrow> bytes \<Rightarrow> bytes \<Rightarrow> bytes \<Rightarrow> nat \<Rightarrow> Error + (bytes \<times> nat)" where
  "encrypt_in_place A key nonce aad buffer plaintext_len =
     (if length buffer < plaintext_len + TAG_SIZE then Inl BufferTooSmall
      else case aead_encrypt A key nonce aad (take plaintext_len buffer) of
        None \<Rightarrow> Inl DecryptionFailed
      | Some (ct, tag) \<Rightarrow>
          (let buffer = write_at 0 ct buffer;
               buffer = write_at plaintext_len tag buffer
           in Inr (buffer, plaintext_len + TAG_SIZE)))"

definition decrypt_in_place ::
  "aead \<Rightarrow> bytes \<Rightarrow> bytes \<Rightarrow> bytes \<Rightarrow> bytes \<Rightarrow> nat \<Rightarrow> Error + (bytes \<times> nat)" where
  "decrypt_in_place A key nonce aad buffer ciphertext_len =
     (if ciphertext_len < TAG_SIZE then Inl TooShort
      else if length buffer < ciphertext_len then Inl BufferTooSmall
      else let plaintext_len = ciphertext_len - TAG_SIZE;
               tag = subslice plaintext_len ciphertext_len buffer
           in case aead_decrypt A key nonce aad (take plaintext_len buffer) tag of
                None \<Rightarrow> Inl DecryptionFailed
              | Some pt \<Rightarrow> Inr (write_at 0 pt buffer, plaintext_len))"

section \<open>Lemmas\<close>

lemma make_nonce_eq: "make_nonce seq sid = be32 seq @ be32 sid @ [0, 0, 0, 0]"
  by (simp add: make_nonce_def NONCE_SIZE_def wire numeral_eq_Suc)

lemma length_make_nonce [simp]: "length (make_nonce seq sid) = 12"
  by (simp add: make_nonce_eq)

lemma make_nonce_inject: "make_nonce s i = make_nonce s' i' \<longleftrightarrow> s = s' \<and> i = i'"
  by (simp add: make_nonce_eq append_eq_append_conv)

lemma aead_encryptD:
  "aead_ok A \<Longrightarrow> aead_encrypt A k n a p = Some (c, t) \<Longrightarrow>
     length c = length p \<and> length t = 16 \<and> aead_decrypt A k n a c t = Some p"
  unfolding aead_ok_def by blast

lemma aead_decryptD:
  "aead_ok A \<Longrightarrow> length t = 16 \<Longrightarrow> aead_decrypt A k n a c t = Some p \<Longrightarrow>
     aead_encrypt A k n a p = Some (c, t) \<and> length p = length c"
  unfolding aead_ok_def by metis

lemma encrypt_in_place_eq:
  assumes "aead_ok A" and "length pt + 16 \<le> length (pt @ room)"
  shows "encrypt_in_place A k n a (pt @ room) (length pt) =
    (case aead_encrypt A k n a pt of
       None \<Rightarrow> Inl DecryptionFailed
     | Some (ct, tag) \<Rightarrow> Inr (ct @ tag @ drop 16 room, length pt + 16))"
  using assms by (auto simp: encrypt_in_place_def TAG_SIZE_def wire dest: aead_encryptD split: option.splits)

lemma decrypt_in_place_eq:
  assumes "aead_ok A" and "length tag = 16"
  shows "decrypt_in_place A k n a (ct @ tag @ rest) (length ct + 16) =
    (case aead_decrypt A k n a ct tag of
       None \<Rightarrow> Inl DecryptionFailed
     | Some pt \<Rightarrow> Inr (pt @ tag @ rest, length ct))"
  using assms
  by (auto simp: decrypt_in_place_def TAG_SIZE_def wire dest: aead_decryptD split: option.splits)

section \<open>A concrete cipher for examples\<close>

text \<open>It encrypts nothing and its tag is fixed; it satisfies the length and round-trip laws.\<close>

definition null_tag :: bytes where
  "null_tag = replicate 16 0"

definition null_aead :: aead where
  "null_aead = \<lparr>aead_encrypt = (\<lambda>k n a p. Some (p, null_tag)),
                aead_decrypt = (\<lambda>k n a c t. if t = null_tag then Some c else None)\<rparr>"

lemma null_aead_ok: "aead_ok null_aead"
  by (auto simp: aead_ok_def null_aead_def null_tag_def)

section \<open>Properties\<close>

text \<open>Encryption round trip in place.  For a buffer with room for the 16-byte tag, encryption either fails
  in the cipher or writes ciphertext and tag and reports their total length; decrypting that many bytes with the
  same key, nonce and associated data restores the plaintext, its length, and leaves what follows the tag alone.\<close>

lemma encrypt_decrypt_in_place:
  assumes "aead_ok A" and "length pt + 16 \<le> length (pt @ room)"
    and "encrypt_in_place A k n a (pt @ room) (length pt) = Inr (buf, len)"
  shows "len = length pt + 16 \<and> length buf = length (pt @ room) \<and>
    (\<exists>buf'. decrypt_in_place A k n a buf len = Inr (buf', length pt) \<and>
       take (length pt) buf' = pt \<and> drop len buf' = drop 16 room)"
proof -
  obtain ct tag where enc: "aead_encrypt A k n a pt = Some (ct, tag)"
    and buf: "buf = ct @ tag @ drop 16 room" and len: "len = length pt + 16"
    using assms by (auto simp: encrypt_in_place_eq split: option.splits)
  have dec: "length ct = length pt" "length tag = 16" "aead_decrypt A k n a ct tag = Some pt"
    using aead_encryptD [OF assms(1) enc] by simp_all
  then show ?thesis
    using decrypt_in_place_eq [OF assms(1) dec(2), of k n a ct "drop 16 room"] assms(2) buf len by simp
qed

lemma encrypt_decrypt_in_place_witness:
  "\<exists>buf len buf'. encrypt_in_place null_aead [] [] [] ([1, 2] @ replicate 20 9) 2 = Inr (buf, len) \<and>
     decrypt_in_place null_aead [] [] [] buf len = Inr (buf', 2) \<and> take 2 buf' = [1, 2]"
proof -
  let ?p = "[1, 2] :: bytes"
  have enc: "encrypt_in_place null_aead [] [] [] (?p @ replicate 20 9) (length ?p) =
      Inr (?p @ null_tag @ drop 16 (replicate 20 9), 18)"
    using encrypt_in_place_eq [OF null_aead_ok, of ?p "replicate 20 9"] by (simp add: null_aead_def)
  have "length ?p + 16 \<le> length (?p @ replicate 20 9)"
    by simp
  from encrypt_decrypt_in_place [OF null_aead_ok this enc]
  obtain buf' where "decrypt_in_place null_aead [] [] [] (?p @ null_tag @ drop 16 (replicate 20 9)) 18 =
      Inr (buf', length ?p)" "take (length ?p) buf' = ?p"
    by blast
  moreover have "length ?p = 2" by simp
  ultimately show ?thesis
    using enc by metis
qed

text \<open>Nonces never collide.  Two packets have the same nonce exactly when they have the same
  sequence number and the same session identifier.\<close>

lemma nonce_unique:
  "make_nonce s i = make_nonce s' i' \<longleftrightarrow> s = s' \<and> i = i'"
  by (rule make_nonce_inject)

end
