(* ===== verification/Metrics.thy ===== *)
theory Metrics
  imports Constants Complex_Main
begin

unbundle bit_operations_syntax

text \<open>
  The crate \<open>gravital-talk-metrics\<close>: packet counters, the round-trip and jitter estimators and the
  loss tracker.  Integer overflow is the build's choice in Rust: operations that can overflow take
  \<open>oc\<close> (the build has overflow checks) and return \<open>None\<close> for the panic of a checked build; a
  build without checks wraps.  The atomics have a single writer and are plain fields here.
\<close>

section \<open>Arithmetic that may overflow\<close>

definition i64_wrap :: "int \<Rightarrow> int" where
  "i64_wrap x = (x + 2 ^ 63) mod 2 ^ 64 - 2 ^ 63"

definition i64_MIN :: int where
  "i64_MIN = - (2 ^ 63)"

definition i64_sub :: "bool \<Rightarrow> int \<Rightarrow> int \<Rightarrow> int option" where
  "i64_sub oc a b =
     (if - (2 ^ 63) \<le> a - b \<and> a - b < 2 ^ 63 then Some (a - b)
      else if oc then None else Some (i64_wrap (a - b)))"

definition u64_shl :: "bool \<Rightarrow> u64 \<Rightarrow> nat \<Rightarrow> u64 option" where
  "u64_shl oc x n =
     (if n < 64 then Some (push_bit n x) else if oc then None else Some (push_bit (n mod 64) x))"

definition i32_neg :: "bool \<Rightarrow> u32 \<Rightarrow> u32 option" where
  "i32_neg oc x = (if x = 0x80000000 \<and> oc then None else Some (- x))"

definition u32_MAX :: u32 where
  "u32_MAX = 0xFFFFFFFF"

section \<open>Counters\<close>

record Counters =
  packets_sent :: u64
  packets_received :: u64
  bytes_sent :: u64
  bytes_received :: u64
  integrity_errors :: u64

definition Counters_new :: Counters where
  "Counters_new = \<lparr>packets_sent = 0, packets_received = 0, bytes_sent = 0, bytes_received = 0,
                   integrity_errors = 0\<rparr>"

definition record_sent :: "Counters \<Rightarrow> u64 \<Rightarrow> Counters" where
  "record_sent c n = c\<lparr>packets_sent := packets_sent c + 1, bytes_sent := bytes_sent c + n\<rparr>"

definition record_received :: "Counters \<Rightarrow> u64 \<Rightarrow> Counters" where
  "record_received c n =
     c\<lparr>packets_received := packets_received c + 1, bytes_received := bytes_received c + n\<rparr>"

definition record_integrity_error :: "Counters \<Rightarrow> Counters" where
  "record_integrity_error c = c\<lparr>integrity_errors := integrity_errors c + 1\<rparr>"

section \<open>Round-trip time\<close>

record RttEstimator =
  rtt_us :: u32

definition RttEstimator_new :: RttEstimator where
  "RttEstimator_new = \<lparr>rtt_us = u32_MAX\<rparr>"

definition ALPHA_NUM :: nat where
  "ALPHA_NUM = 1"

definition ALPHA_DEN :: nat where
  "ALPHA_DEN = 8"

definition RttEstimator_record :: "RttEstimator \<Rightarrow> u32 \<Rightarrow> RttEstimator" where
  "RttEstimator_record r sample_us =
     (let prev = rtt_us r;
          new = (if prev = u32_MAX then sample_us
                 else let prev64 = unat prev; sample64 = unat sample_us;
                          diff = (if sample64 > prev64
                                  then let d = sample64 - prev64
                                       in prev64 + d * ALPHA_NUM div ALPHA_DEN
                                  else let d = prev64 - sample64
                                       in prev64 - d * ALPHA_NUM div ALPHA_DEN)
                      in of_nat (min diff (unat u32_MAX)))
      in r\<lparr>rtt_us := new\<rparr>)"

definition rtt_current_us :: "RttEstimator \<Rightarrow> u32 option" where
  "rtt_current_us r = (let v = rtt_us r in if v = u32_MAX then None else Some v)"

section \<open>Jitter\<close>

record JitterEstimator =
  jitter_us_q4 :: u32
  prev_diff_us :: int

definition JitterEstimator_new :: JitterEstimator where
  "JitterEstimator_new = \<lparr>jitter_us_q4 = 0, prev_diff_us = i64_MIN\<rparr>"

definition JitterEstimator_record ::
  "bool \<Rightarrow> JitterEstimator \<Rightarrow> u64 \<Rightarrow> u64 \<Rightarrow> JitterEstimator option" where
  "JitterEstimator_record oc e send_ts_us recv_ts_us =
     (case i64_sub oc (i64_wrap (uint recv_ts_us)) (i64_wrap (uint send_ts_us)) of
        None \<Rightarrow> None
      | Some current_diff \<Rightarrow>
          (let prev = prev_diff_us e in
           if prev = i64_MIN then Some (e\<lparr>prev_diff_us := current_diff\<rparr>)
           else case i64_sub oc current_diff prev of
             None \<Rightarrow> None
           | Some delta \<Rightarrow>
               (let d = nat \<bar>delta\<bar>;
                    j = unat (jitter_us_q4 e);
                    new_j = (if d > j then j + (d - j) div 16 else j - (j - d) div 16);
                    clamped = of_nat (min new_j (unat u32_MAX))
                in Some (e\<lparr>jitter_us_q4 := clamped, prev_diff_us := current_diff\<rparr>))))"

primrec jitter_feed :: "bool \<Rightarrow> JitterEstimator \<Rightarrow> (u64 \<times> u64) list \<Rightarrow> JitterEstimator option" where
  "jitter_feed oc e [] = Some e"
| "jitter_feed oc e (x # xs) =
     (case JitterEstimator_record oc e (fst x) (snd x) of None \<Rightarrow> None | Some e' \<Rightarrow> jitter_feed oc e' xs)"

section \<open>Loss\<close>

record LossTracker =
  bitmap :: u64
  high_seq :: u32
  total_packets :: u32
  reorder_count :: u32
  initialised :: bool

definition LossTracker_new :: LossTracker where
  "LossTracker_new =
     \<lparr>bitmap = 0, high_seq = 0, total_packets = 0, reorder_count = 0, initialised = False\<rparr>"

definition LossTracker_record :: "bool \<Rightarrow> LossTracker \<Rightarrow> u32 \<Rightarrow> LossTracker option" where
  "LossTracker_record oc t seq =
     (if \<not> initialised t
      then Some (t\<lparr>high_seq := seq, bitmap := 1, total_packets := 1, initialised := True\<rparr>)
      else let high = high_seq t; diff = seq - high in
        case (if sint diff > 0 then
                (let shift = min (unat diff) (unat LOSS_WINDOW_SIZE) in
                 case u64_shl oc (bitmap t) shift of
                   None \<Rightarrow> None
                 | Some bm \<Rightarrow> Some (t\<lparr>bitmap := bm OR 1, high_seq := seq\<rparr>))
              else if sint diff < 0 then
                (case i32_neg oc diff of
                   None \<Rightarrow> None
                 | Some gap \<Rightarrow>
                     (let t = (if gap < LOSS_WINDOW_SIZE
                               then let b = push_bit (unat gap) 1
                                    in if bitmap t AND b = 0 then t\<lparr>bitmap := bitmap t OR b\<rparr> else t
                               else t)
                      in Some (t\<lparr>reorder_count := reorder_count t + 1\<rparr>)))
              else Some t) of
          None \<Rightarrow> None
        | Some t \<Rightarrow> Some (t\<lparr>total_packets := total_packets t + 1\<rparr>))"

definition count_ones :: "u64 \<Rightarrow> nat" where
  "count_ones w = length (filter (bit w) [0..<64])"

text \<open>The quotient and the product are exact in \<open>f32\<close> (a numerator of at most 64 over 64, times
  100), so the rational value is the value of the code.\<close>

definition loss_percent :: "LossTracker \<Rightarrow> rat" where
  "loss_percent t =
     (if \<not> initialised t then 0
      else let lost = unat LOSS_WINDOW_SIZE - count_ones (bitmap t)
           in (of_nat lost / of_nat (unat LOSS_WINDOW_SIZE)) * 100)"

primrec loss_feed :: "bool \<Rightarrow> LossTracker \<Rightarrow> u32 list \<Rightarrow> LossTracker option" where
  "loss_feed oc t [] = Some t"
| "loss_feed oc t (s # ss) =
     (case LossTracker_record oc t s of None \<Rightarrow> None | Some t' \<Rightarrow> loss_feed oc t' ss)"

section \<open>All metrics of a session\<close>

record Metrics =
  rtt :: RttEstimator
  jitter :: JitterEstimator
  loss :: LossTracker
  counters :: Counters

definition Metrics_new :: Metrics where
  "Metrics_new = \<lparr>rtt = RttEstimator_new, jitter = JitterEstimator_new, loss = LossTracker_new,
                  counters = Counters_new\<rparr>"

section \<open>The loss window refines the set of received packets\<close>

text \<open>
  Packets carry the low 32 bits of their (unbounded) number.  The tracker's bitmap is exactly the set
  of the packets received among the last 64, as long as no packet jumps 64 or more ahead of the
  newest one and none is \<open>2 ^ 31\<close> or more behind it.
\<close>

primrec gaps_ok :: "nat \<Rightarrow> nat list \<Rightarrow> bool" where
  "gaps_ok h [] \<longleftrightarrow> True"
| "gaps_ok h (n # ns) \<longleftrightarrow> n < h + 64 \<and> h < n + 2 ^ 31 \<and> gaps_ok (max h n) ns"

definition loss_inv :: "LossTracker \<Rightarrow> nat \<Rightarrow> nat set \<Rightarrow> bool" where
  "loss_inv t h R \<longleftrightarrow> initialised t \<and> high_seq t = of_nat h \<and> (\<forall>n \<in> R. n \<le> h) \<and>
     (\<forall>k < 64. bit (bitmap t) k \<longleftrightarrow> k \<le> h \<and> h - k \<in> R)"

lemma seq_diff:
  fixes n h :: nat
  assumes "n < h + 2 ^ 31" and "h < n + 2 ^ 31"
  shows "sint (of_nat n - of_nat h :: u32) = int n - int h"
proof -
  have "(of_nat n - of_nat h :: u32) = word_of_int (int n - int h)"
    by simp
  moreover have "signed_take_bit 31 (int n - int h) = int n - int h"
    using assms by (intro signed_take_bit_int_eq_self) auto
  ultimately show ?thesis
    by (simp only: signed_of_int) simp
qed

lemma record_newer:
  assumes inv: "loss_inv t h R" and d: "0 < d" "d < 64"
  shows "\<exists>t'. LossTracker_record oc t (of_nat (h + d)) = Some t' \<and> loss_inv t' (h + d) (insert (h + d) R)"
proof -
  let ?t = "t\<lparr>bitmap := push_bit d (bitmap t) OR 1, high_seq := of_nat (h + d),
    total_packets := total_packets t + 1\<rparr>"
  have diff: "(of_nat (h + d) - of_nat h :: u32) = of_nat d"
    by simp
  have "sint (of_nat d :: u32) = int d"
    using seq_diff [of "h + d" h] d by (simp add: diff del: of_nat_add)
  moreover have "unat (of_nat d :: u32) = d"
    using d by (simp add: unat_of_nat_small)
  ultimately have eq: "LossTracker_record oc t (of_nat (h + d)) = Some ?t"
    using inv d
    by (simp add: LossTracker_record_def loss_inv_def Let_def diff LOSS_WINDOW_SIZE_def u64_shl_def
        del: of_nat_add)
  have "bit (push_bit d (bitmap t) OR 1) k \<longleftrightarrow> k \<le> h + d \<and> h + d - k \<in> insert (h + d) R"
    if "k < 64" for k
    using inv d that
    by (auto simp: loss_inv_def bit_or_iff bit_push_bit_iff bit_1_iff)
  then have "loss_inv ?t (h + d) (insert (h + d) R)"
    using inv by (auto simp: loss_inv_def)
  with eq show ?thesis by blast
qed

lemma record_older:
  assumes inv: "loss_inv t h R" and g: "0 < g" "g \<le> h" "g < 2 ^ 31"
  shows "\<exists>t'. LossTracker_record oc t (of_nat (h - g)) = Some t' \<and> loss_inv t' h (insert (h - g) R)"
proof -
  let ?b = "push_bit g 1 :: u64"
  let ?t = "t\<lparr>bitmap := (if g < 64 then bitmap t OR ?b else bitmap t),
    reorder_count := reorder_count t + 1, total_packets := total_packets t + 1\<rparr>"
  have diff: "(of_nat (h - g) - of_nat h :: u32) = - of_nat g"
    using g by (simp add: of_nat_diff)
  have "sint (- of_nat g :: u32) = - int g"
    using seq_diff [of "h - g" h] g by (simp add: diff of_nat_diff)
  moreover have gap: "unat (of_nat g :: u32) = g"
    using g by (simp add: unat_of_nat_small)
  moreover have "(of_nat g :: u32) < 64 \<longleftrightarrow> g < 64"
    using gap by (simp add: word_less_nat_alt)
  moreover have "(- of_nat g :: u32) \<noteq> 0x80000000"
  proof
    assume "(- of_nat g :: u32) = 0x80000000"
    then have "sint (- of_nat g :: u32) = - (2 ^ 31)"
      by simp
    then show False
      using g \<open>sint (- of_nat g :: u32) = - int g\<close> by simp
  qed
  moreover have "bitmap t AND ?b \<noteq> 0 \<Longrightarrow> g < 64 \<Longrightarrow> bitmap t OR ?b = bitmap t"
    using and_exp_eq_0_iff_not_bit [of "bitmap t" g]
    by (intro bit_word_eqI) (auto simp: bit_or_iff push_bit_of_1 bit_exp_iff)
  ultimately have eq: "LossTracker_record oc t (of_nat (h - g)) = Some ?t"
    using inv g
    by (simp add: LossTracker_record_def loss_inv_def Let_def diff LOSS_WINDOW_SIZE_def i32_neg_def)
  have "bit (bitmap ?t) k \<longleftrightarrow> k \<le> h \<and> h - k \<in> insert (h - g) R" if "k < 64" for k
    using inv g that by (auto simp: loss_inv_def bit_or_iff push_bit_of_1 bit_exp_iff)
  then have "loss_inv ?t h (insert (h - g) R)"
    using inv g by (auto simp: loss_inv_def)
  with eq show ?thesis by blast
qed

lemma record_same:
  assumes "loss_inv t h R" and "h \<in> R"
  shows "\<exists>t'. LossTracker_record oc t (of_nat h) = Some t' \<and> loss_inv t' h (insert h R)"
  using assms by (auto simp: LossTracker_record_def loss_inv_def insert_absorb)

lemma record_inv:
  assumes "loss_inv t h R" and "h \<in> R" and "n < h + 64" and "h < n + 2 ^ 31"
  shows "\<exists>t'. LossTracker_record oc t (of_nat n) = Some t' \<and> loss_inv t' (max h n) (insert n R)"
proof -
  consider "n = h" | "h < n" | "n < h" by linarith
  then show ?thesis
  proof cases
    case 1
    then show ?thesis using record_same assms by simp
  next
    case 2
    then show ?thesis
      using record_newer [OF assms(1), of "n - h" oc] assms(3) by (simp add: max_def)
  next
    case 3
    then show ?thesis
      using record_older [OF assms(1), of "h - n" oc] assms(4) by (simp add: max_def)
  qed
qed

lemma loss_feed_inv:
  assumes "loss_inv t h R" and "h \<in> R" and "gaps_ok h ns"
  shows "\<exists>t'. loss_feed oc t (map of_nat ns) = Some t' \<and> loss_inv t' (fold max ns h) (R \<union> set ns)"
  using assms
proof (induction ns arbitrary: t h R)
  case (Cons n ns)
  obtain t1 where t1: "LossTracker_record oc t (of_nat n) = Some t1" "loss_inv t1 (max h n) (insert n R)"
    using record_inv [of t h R n oc] Cons.prems by auto
  moreover have "max h n \<in> insert n R"
    using Cons.prems by (simp add: max_def)
  ultimately show ?case
    using Cons.IH [of t1 "max h n" "insert n R"] Cons.prems by (simp add: max.commute)
qed simp

lemma first_inv: "\<exists>t. LossTracker_record oc LossTracker_new (of_nat n) = Some t \<and> loss_inv t n {n}"
  by (auto simp: LossTracker_record_def LossTracker_new_def loss_inv_def bit_1_iff)

lemma count_ones_card: "count_ones w = card {k. k < 64 \<and> bit w k}"
proof -
  have "count_ones w = card (set (filter (bit w) [0..<64]))"
    unfolding count_ones_def by (rule distinct_card [symmetric]) simp
  also have "set (filter (bit w) [0..<64]) = {k. k < 64 \<and> bit w k}"
    by auto
  finally show ?thesis .
qed

lemma fold_max_eq: "fold max ns (h::nat) = Max (insert h (set ns))"
proof (induction ns arbitrary: h)
  case (Cons n ns)
  then show ?case
    by (cases ns) (simp_all add: max.commute max.left_commute)
qed simp

lemma window_card:
  fixes h :: nat
  assumes "\<forall>n \<in> R. n \<le> h"
  shows "card {k. k < 64 \<and> k \<le> h \<and> h - k \<in> R} = card {n \<in> R. h < n + 64}"
proof (rule bij_betw_same_card)
  show "bij_betw (\<lambda>k. h - k) {k. k < 64 \<and> k \<le> h \<and> h - k \<in> R} {n \<in> R. h < n + 64}"
    using assms by (intro bij_betw_byWitness [where f' = "\<lambda>n. h - n"]) auto
qed

lemma loss_percent_inv:
  assumes "loss_inv t h R"
  shows "loss_percent t = of_nat (64 - card {n \<in> R. h < n + 64}) * 100 / 64"
proof -
  have "{k. k < 64 \<and> bit (bitmap t) k} = {k. k < 64 \<and> k \<le> h \<and> h - k \<in> R}"
    using assms by (auto simp: loss_inv_def)
  then have "count_ones (bitmap t) = card {n \<in> R. h < n + 64}"
    using assms window_card [of R h] by (simp add: count_ones_card loss_inv_def)
  then show ?thesis
    using assms by (simp add: loss_percent_def loss_inv_def LOSS_WINDOW_SIZE_def)
qed

section \<open>Estimator lemmas\<close>

lemma ewma_between:
  fixes a b :: nat
  shows "min a b \<le> (if b > a then a + (b - a) div 8 else a - (a - b) div 8) \<and>
    (if b > a then a + (b - a) div 8 else a - (a - b) div 8) \<le> max a b"
proof (cases "b > a")
  case True
  moreover have "(b - a) div 8 \<le> b - a"
    by (rule div_le_dividend)
  ultimately have "a + (b - a) div 8 \<le> b"
    by linarith
  with True show ?thesis by simp
next
  case False
  moreover have "(a - b) div 8 \<le> a - b"
    by (rule div_le_dividend)
  ultimately have "b \<le> a - (a - b) div 8"
    by linarith
  with False show ?thesis by simp
qed

lemma rtt_record_value:
  assumes "rtt_us r = p" and "p \<noteq> u32_MAX"
  shows "unat (rtt_us (RttEstimator_record r s)) =
    (if unat s > unat p then unat p + (unat s - unat p) div 8 else unat p - (unat p - unat s) div 8)"
proof -
  let ?v = "if unat s > unat p then unat p + (unat s - unat p) div 8 else unat p - (unat p - unat s) div 8"
  have lt: "unat p < 2 ^ 32" "unat s < 2 ^ 32"
    using unsigned_less [of p] unsigned_less [of s] by simp_all
  then have "?v \<le> 2 ^ 32 - 1"
    by (simp add: div_le_mono [of _ _ 8]) linarith
  then have "unat (of_nat (min ?v (unat u32_MAX)) :: u32) = ?v"
    by (simp add: u32_MAX_def unat_of_nat_small min_def)
  then show ?thesis
    using assms by (simp add: RttEstimator_record_def Let_def ALPHA_NUM_def ALPHA_DEN_def split: if_splits)
qed

lemma unat_u32_MAX: "w \<noteq> u32_MAX \<Longrightarrow> unat w \<noteq> 4294967295"
  by (auto simp: u32_MAX_def word_unat_eq_iff)

lemma i64_wrap_id: "- (2 ^ 63) \<le> x \<Longrightarrow> x < 2 ^ 63 \<Longrightarrow> i64_wrap x = x"
  unfolding i64_wrap_def by simp

lemma i64_wrap_uint: "x < 2 ^ 63 \<Longrightarrow> 0 \<le> x \<Longrightarrow> i64_wrap x = x"
  by (rule i64_wrap_id) linarith+

lemma i64_sub_exact: "- (2 ^ 63) \<le> a - b \<Longrightarrow> a - b < 2 ^ 63 \<Longrightarrow> i64_sub oc a b = Some (a - b)"
  unfolding i64_sub_def by simp

text \<open>Timestamps below \<open>2 ^ 62\<close> (more than 146000 years in microseconds) never overflow.\<close>

definition jitter_inv :: "JitterEstimator \<Rightarrow> bool" where
  "jitter_inv e \<longleftrightarrow> prev_diff_us e = i64_MIN \<or> \<bar>prev_diff_us e\<bar> < 2 ^ 62"

lemma jitter_record_ok:
  assumes "jitter_inv e" and "send < 2 ^ 62" and "recv < 2 ^ 62"
  shows "\<exists>e'. JitterEstimator_record oc e send recv = Some e' \<and> jitter_inv e' \<and>
           prev_diff_us e' = uint recv - uint send \<and>
           (prev_diff_us e = i64_MIN \<longrightarrow> jitter_us_q4 e' = jitter_us_q4 e) \<and>
           (prev_diff_us e = uint recv - uint send \<and> jitter_us_q4 e = 0 \<longrightarrow> jitter_us_q4 e' = 0)"
proof -
  have r: "0 \<le> uint send" "uint send < 2 ^ 62" "0 \<le> uint recv" "uint recv < 2 ^ 62"
    using assms(2,3) by (simp_all add: word_less_def)
  have P: "(2::int) ^ 63 = 2 * 2 ^ 62" "(0::int) < 2 ^ 62"
    by simp_all
  have "i64_wrap x = x" if "0 \<le> x" "x < 2 ^ 62" for x
    using that by (intro i64_wrap_uint) simp_all
  with r have w: "i64_wrap (uint send) = uint send" "i64_wrap (uint recv) = uint recv"
    by blast+
  have sub: "i64_sub oc (uint recv) (uint send) = Some (uint recv - uint send)"
    by (rule i64_sub_exact) (use r P in linarith)+
  have cur: "\<bar>uint recv - uint send\<bar> < 2 ^ 62"
    using r by linarith
  have sub2: "i64_sub oc (uint recv - uint send) p = Some (uint recv - uint send - p)"
    if "\<bar>p\<bar> < 2 ^ 62" for p
    by (rule i64_sub_exact) (use that cur P in linarith)+
  show ?thesis
  proof (cases "prev_diff_us e = i64_MIN")
    case True
    then show ?thesis
      using cur by (simp add: JitterEstimator_record_def w sub jitter_inv_def)
  next
    case False
    then have "\<bar>prev_diff_us e\<bar> < 2 ^ 62"
      using assms(1) by (simp add: jitter_inv_def)
    then show ?thesis
      using cur False by (simp add: JitterEstimator_record_def w sub sub2 jitter_inv_def Let_def)
  qed
qed

lemma stable_feed:
  assumes "jitter_inv e" and "jitter_us_q4 e = 0"
    and "prev_diff_us e = i64_MIN \<or> prev_diff_us e = c"
    and "\<forall>x \<in> set xs. fst x < 2 ^ 62 \<and> snd x < 2 ^ 62 \<and> uint (snd x) - uint (fst x) = c"
  shows "\<exists>e'. jitter_feed oc e xs = Some e' \<and> jitter_us_q4 e' = 0"
  using assms
proof (induction xs arbitrary: e)
  case (Cons x xs)
  obtain e1 where e1: "JitterEstimator_record oc e (fst x) (snd x) = Some e1" "jitter_inv e1"
    "prev_diff_us e1 = c" "jitter_us_q4 e1 = 0"
    using jitter_record_ok [OF Cons.prems(1), of "fst x" "snd x" oc] Cons.prems(2-4) by auto
  then show ?case
    using Cons.IH [of e1] Cons.prems(4) by simp
qed simp

section \<open>Properties\<close>

text \<open>C25: the loss bitmap is exactly the set of received packets among the last 64.  For any stream of packets
  (numbered without wrap-around; each carries the low 32 bits) in which no packet jumps 64 or more ahead of the
  newest one or falls \<open>2 ^ 31\<close> behind it, with any losses, duplicates and reordering, recording never
  panics, bit \<open>k\<close> is set exactly when packet \<open>newest - k\<close> was received, and the reported loss is the share of
  the 64 window positions without a received packet.\<close>

theorem loss_window_exact:
  assumes "gaps_ok n ns"
  shows "\<exists>t. loss_feed oc LossTracker_new (map of_nat (n # ns)) = Some t \<and>
    (\<forall>k < 64. bit (bitmap t) k \<longleftrightarrow> k \<le> Max (set (n # ns)) \<and> Max (set (n # ns)) - k \<in> set (n # ns)) \<and>
    loss_percent t =
      of_nat (64 - card {m \<in> set (n # ns). Max (set (n # ns)) < m + 64}) * 100 / 64"
proof -
  obtain t1 where t1: "LossTracker_record oc LossTracker_new (of_nat n) = Some t1" "loss_inv t1 n {n}"
    using first_inv by blast
  then obtain t where t: "loss_feed oc t1 (map of_nat ns) = Some t"
    and inv: "loss_inv t (Max (set (n # ns))) (set (n # ns))"
    using loss_feed_inv [OF t1(2) _ assms, of oc] by (auto simp: fold_max_eq)
  have "loss_feed oc LossTracker_new (map of_nat (n # ns)) = Some t"
    using t t1 by simp
  then show ?thesis
    using loss_percent_inv [OF inv] inv unfolding loss_inv_def by blast
qed

theorem loss_window_exact_witness:
  "\<exists>t. loss_feed True LossTracker_new (map of_nat [0, 1, 4, 2]) = Some t \<and> loss_percent t = 60 * 100 / 64"
proof -
  have "gaps_ok 0 [1, 4, 2]"
    by simp
  moreover have "{m \<in> set [0, 1, 4, 2::nat]. Max (set [0, 1, 4, 2]) < m + 64} = {0, 1, 4, 2}"
    by auto
  ultimately show ?thesis
    using loss_window_exact [of 0 "[1, 4, 2]" True] by auto
qed

text \<open>A gap of 64 or more breaks the tracker.  When a packet is 64 or more ahead of the newest one, the
  bitmap is shifted by 64: a build with overflow checks panics, and a build without them shifts by 0 and keeps the
  whole stale window, so a long outage is reported as no loss at all.\<close>

lemma loss_large_gap_bug:
  assumes "initialised t" and "64 \<le> d" and "d < 2 ^ 31"
  shows "LossTracker_record True t (high_seq t + of_nat d) = None \<and>
    LossTracker_record False t (high_seq t + of_nat d) =
      Some (t\<lparr>bitmap := bitmap t OR 1, high_seq := high_seq t + of_nat d,
              total_packets := total_packets t + 1\<rparr>)"
proof -
  have "sint (of_nat d :: u32) = int d" "unat (of_nat d :: u32) = d"
    using seq_diff [of d 0] assms by (simp_all add: unat_of_nat_small)
  then show ?thesis
    using assms by (simp add: LossTracker_record_def Let_def LOSS_WINDOW_SIZE_def u64_shl_def min_def)
qed

lemma loss_large_gap_bug_witness:
  "LossTracker_record True \<lparr>bitmap = 1, high_seq = 5, total_packets = 1, reorder_count = 0, initialised = True\<rparr>
     (5 + of_nat 100) = None"
  using loss_large_gap_bug [of "\<lparr>bitmap = 1, high_seq = 5, total_packets = 1, reorder_count = 0,
      initialised = True\<rparr>" 100] by simp

text \<open>The round-trip estimate.  The first sample is taken as it is; every further sample moves the estimate
  one eighth of the way towards it (rounded towards the old value), so the estimate stays between
  the old estimate and the sample, and once there is an estimate it never disappears.\<close>

lemma rtt_ewma:
  assumes "rtt_current_us r = Some p"
  shows "\<exists>v. rtt_current_us (RttEstimator_record r s) = Some v \<and>
    min p s \<le> v \<and> v \<le> max p s \<and>
    unat v = (if p < s then unat p + (unat s - unat p) div 8 else unat p - (unat p - unat s) div 8)"
proof -
  let ?v = "rtt_us (RttEstimator_record r s)"
  have p: "rtt_us r = p" "p \<noteq> u32_MAX"
    using assms by (auto simp: rtt_current_us_def Let_def split: if_splits)
  have v: "unat ?v = (if unat s > unat p then unat p + (unat s - unat p) div 8
      else unat p - (unat p - unat s) div 8)"
    using rtt_record_value [OF p] .
  have ps: "unat p < 2 ^ 32 - 1" "unat s < 2 ^ 32"
    using unat_u32_MAX [OF p(2)] unsigned_less [of p, where 'a = nat] unsigned_less [of s, where 'a = nat]
    by simp_all
  have "?v \<noteq> u32_MAX"
  proof
    assume "?v = u32_MAX"
    then have "unat ?v = 2 ^ 32 - 1"
      by (simp add: u32_MAX_def)
    then show False
      using v ps by (simp split: if_splits)
  qed
  moreover have "min p s \<le> ?v \<and> ?v \<le> max p s"
    using ewma_between [of "unat p" "unat s"] by (auto simp: min_def max_def word_le_nat_alt v)
  ultimately show ?thesis
    using v by (simp add: rtt_current_us_def Let_def word_less_nat_alt)
qed

lemma rtt_ewma_witness:
  "\<exists>v. rtt_current_us (RttEstimator_record \<lparr>rtt_us = 10000\<rparr> 20000) = Some v \<and> unat v = 11250"
proof -
  have "rtt_current_us \<lparr>rtt_us = 10000\<rparr> = Some 10000"
    by (simp add: rtt_current_us_def u32_MAX_def)
  from rtt_ewma [OF this, of 20000] show ?thesis
    by auto
qed

text \<open>A steady stream has no jitter.  When every packet takes the same time from the sender's timestamp to the
  receiver's clock (clocks may differ by any constant), the jitter estimate stays 0 however many packets arrive,
  in every build, for timestamps below \<open>2 ^ 62\<close> microseconds.\<close>

lemma steady_stream_no_jitter:
  assumes "\<forall>x \<in> set xs. fst x < 2 ^ 62 \<and> snd x < 2 ^ 62 \<and> uint (snd x) - uint (fst x) = c"
  shows "\<exists>e. jitter_feed oc JitterEstimator_new xs = Some e \<and> jitter_us_q4 e = 0"
  using stable_feed [of JitterEstimator_new c xs oc] assms
  by (simp add: JitterEstimator_new_def jitter_inv_def)

lemma steady_stream_no_jitter_witness:
  "\<exists>e. jitter_feed True JitterEstimator_new [(0, 1000), (20000, 21000), (40000, 41000)] = Some e \<and>
     jitter_us_q4 e = 0"
  by (rule steady_stream_no_jitter [where c = 1000]) simp

text \<open>The sender's timestamp comes from the network.  With overflow checks a single packet whose timestamp
  reads as \<open>i64::MIN\<close> makes the estimator panic; without them the subtraction wraps around.\<close>

lemma jitter_hostile_timestamp:
  assumes "recv < 2 ^ 63"
  shows "JitterEstimator_record True e 0x8000000000000000 recv = None"
proof -
  have r: "0 \<le> uint recv" "uint recv < 2 ^ 63"
    using assms by (simp_all add: word_less_def)
  then have "i64_wrap (uint recv) = uint recv"
    by (intro i64_wrap_uint)
  moreover have "i64_wrap (uint (0x8000000000000000 :: u64)) = - (2 ^ 63)"
    by (simp add: i64_wrap_def)
  ultimately show ?thesis
    using r by (simp add: JitterEstimator_record_def i64_sub_def)
qed

lemma jitter_hostile_timestamp_witness:
  "JitterEstimator_record True JitterEstimator_new 0x8000000000000000 1000000 = None"
  by (rule jitter_hostile_timestamp) simp

end
