(* ===== verification/JitterBuffer.thy ===== *)
theory JitterBuffer
  imports Prelude
begin

unbundle bit_operations_syntax

text \<open>
  \<open>gravital-talk-transport/src/jitter_buffer.rs\<close>: the ring of slots that reorders received frames.
  The buffer is refined to its abstract meaning, a partial map from sequence numbers to frames with
  a cursor; the abstract contract is the locale \<open>reorder_queue\<close>, in which in-order delivery is
  proved once.  The code's atomics are plain fields: the model is the sequential behaviour of the
  single producer and single consumer the code is written for.
\<close>

section \<open>Frames and slots\<close>

record Frame =
  fr_sequence :: u32
  fr_timestamp :: u64
  fr_payload :: bytes

record Slot =
  occupied :: bool
  slot_sequence :: u32
  slot_frame :: "Frame option"

definition Slot_empty :: Slot where
  "Slot_empty = \<lparr>occupied = False, slot_sequence = 0, slot_frame = None\<rparr>"

record JitterBuffer =
  slots :: "Slot list"
  capacity :: u32
  mask :: u32
  next_seq :: u32
  primed :: bool

text \<open>\<open>is_power_of_two\<close>: exactly one bit set.\<close>

definition is_power_of_two :: "u32 \<Rightarrow> bool" where
  "is_power_of_two w \<longleftrightarrow> w \<in> set (map (\<lambda>k. push_bit k 1) [0..<32])"

definition JitterBuffer_new :: "u32 \<Rightarrow> JitterBuffer option" where
  "JitterBuffer_new cap =
     (if \<not> is_power_of_two cap then None
      else if \<not> cap \<le> 2048 then None
      else Some \<lparr>slots = replicate (unat cap) Slot_empty, capacity = cap, mask = cap - 1,
                 next_seq = 0, primed = False\<rparr>)"

definition slot_index :: "JitterBuffer \<Rightarrow> u32 \<Rightarrow> nat" where
  "slot_index b s = unat (s AND mask b)"

definition fill_count :: "JitterBuffer \<Rightarrow> nat" where
  "fill_count b = length (filter occupied (slots b))"

section \<open>Operations\<close>

definition JitterBuffer_push :: "JitterBuffer \<Rightarrow> Frame \<Rightarrow> JitterBuffer \<times> bool" where
  "JitterBuffer_push b frame =
     (case (if \<not> primed b then Some (b\<lparr>next_seq := fr_sequence frame, primed := True\<rparr>)
            else let next = next_seq b in
              if fr_sequence frame - next > 0x80000000 then None
              else if fr_sequence frame - next \<ge> capacity b then None
              else Some b) of
        None \<Rightarrow> (b, False)
      | Some b \<Rightarrow>
          (let idx = slot_index b (fr_sequence frame); slot = slots b ! idx in
           if occupied slot \<and> slot_sequence slot \<noteq> fr_sequence frame then (b, False)
           else (b\<lparr>slots := (slots b)[idx := \<lparr>occupied = True, slot_sequence = fr_sequence frame,
                                             slot_frame = Some frame\<rparr>]\<rparr>, True)))"

definition JitterBuffer_pop :: "JitterBuffer \<Rightarrow> JitterBuffer \<times> Frame option" where
  "JitterBuffer_pop b =
     (if \<not> primed b then (b, None)
      else let next = next_seq b; idx = slot_index b next; slot = slots b ! idx in
        if \<not> occupied slot then (b, None)
        else if slot_sequence slot \<noteq> next then (b, None)
        else (b\<lparr>slots := (slots b)[idx := slot\<lparr>occupied := False, slot_frame := None\<rparr>],
               next_seq := next + 1\<rparr>, slot_frame slot))"

definition clear_slot :: "JitterBuffer \<Rightarrow> u32 \<Rightarrow> JitterBuffer" where
  "clear_slot b s =
     (let idx = slot_index b s
      in b\<lparr>slots := (slots b)[idx := (slots b ! idx)\<lparr>occupied := False, slot_frame := None\<rparr>]\<rparr>)"

definition JitterBuffer_skip :: "JitterBuffer \<Rightarrow> u32 \<Rightarrow> JitterBuffer" where
  "JitterBuffer_skip b count =
     (if \<not> primed b then b
      else let next = next_seq b;
               b = foldl (\<lambda>b i. clear_slot b (next + of_nat i)) b [0..<unat count]
           in b\<lparr>next_seq := next + count\<rparr>)"

definition pop_with_deadline :: "JitterBuffer \<Rightarrow> u64 \<Rightarrow> u64 \<Rightarrow> JitterBuffer \<times> Frame option" where
  "pop_with_deadline b now_us deadline_us =
     (case JitterBuffer_pop b of
        (b, Some frame) \<Rightarrow> (b, Some frame)
      | (b, None) \<Rightarrow> (if now_us \<ge> deadline_us then (JitterBuffer_skip b 1, None) else (b, None)))"

section \<open>The contract of a reordering queue\<close>

text \<open>
  \<open>inv\<close> is the representation invariant, \<open>contents\<close> the buffered frames by sequence number,
  \<open>cursor\<close> the next sequence number to deliver (\<open>None\<close> before the first frame).
\<close>

text \<open>Frames with consecutive numbers are told apart by them, so storing frames by number keeps each of them.\<close>

lemma numbered_inj:
  fixes n :: u32
  assumes "\<And>i. i < length fs \<Longrightarrow> fr_sequence (fs ! i) = n + of_nat i" and "length fs \<le> 2 ^ 32"
  shows "inj_on fr_sequence (set fs)"
proof (rule inj_onI)
  fix f g assume "f \<in> set fs" "g \<in> set fs" and eq: "fr_sequence f = fr_sequence g"
  then obtain i j where ij: "i < length fs" "f = fs ! i" "j < length fs" "g = fs ! j"
    by (metis in_set_conv_nth)
  then have "unat (of_nat i :: u32) = unat (of_nat j :: u32)"
    using eq assms(1) by simp
  then show "f = g"
    using ij assms(2) by (simp add: unat_of_nat_small)
qed

lemma fold_store:
  assumes "inj_on fr_sequence F"
  shows "f \<in> set xs \<or> m (fr_sequence f) = Some f \<Longrightarrow> set xs \<subseteq> F \<Longrightarrow> f \<in> F \<Longrightarrow>
    foldl (\<lambda>m f. m(fr_sequence f \<mapsto> f)) m xs (fr_sequence f) = Some f"
proof (induction xs arbitrary: m)
  case (Cons x xs)
  then show ?case
    using inj_onD [OF assms, of f x] by (cases "fr_sequence x = fr_sequence f") auto
qed simp

text \<open>A producer that pushes a list of frames (and whether all were accepted), and a consumer that pops
  \<open>k\<close> times.\<close>

primrec push_all :: "('b \<Rightarrow> Frame \<Rightarrow> 'b \<times> bool) \<Rightarrow> 'b \<Rightarrow> Frame list \<Rightarrow> 'b \<times> bool" where
  "push_all push b [] = (b, True)"
| "push_all push b (f # fs) =
     (case push b f of (b, ok) \<Rightarrow> (case push_all push b fs of (b', oks) \<Rightarrow> (b', ok \<and> oks)))"

primrec pop_n :: "('b \<Rightarrow> 'b \<times> Frame option) \<Rightarrow> 'b \<Rightarrow> nat \<Rightarrow> Frame option list" where
  "pop_n pop b 0 = []"
| "pop_n pop b (Suc k) = (case pop b of (b, f) \<Rightarrow> f # pop_n pop b k)"

locale reorder_queue =
  fixes inv :: "'b \<Rightarrow> bool"
    and contents :: "'b \<Rightarrow> u32 \<Rightarrow> Frame option"
    and cursor :: "'b \<Rightarrow> u32 option"
    and size :: "'b \<Rightarrow> nat"
    and push :: "'b \<Rightarrow> Frame \<Rightarrow> 'b \<times> bool"
    and pop :: "'b \<Rightarrow> 'b \<times> Frame option"
  assumes push_first: "inv b \<Longrightarrow> cursor b = None \<Longrightarrow>
      snd (push b f) \<and> inv (fst (push b f)) \<and> size (fst (push b f)) = size b \<and>
      cursor (fst (push b f)) = Some (fr_sequence f) \<and>
      contents (fst (push b f)) = (contents b)(fr_sequence f \<mapsto> f)"
    and push_inside: "inv b \<Longrightarrow> cursor b = Some n \<Longrightarrow> unat (fr_sequence f - n) < size b \<Longrightarrow>
      snd (push b f) \<and> inv (fst (push b f)) \<and> size (fst (push b f)) = size b \<and>
      cursor (fst (push b f)) = Some n \<and> contents (fst (push b f)) = (contents b)(fr_sequence f \<mapsto> f)"
    and push_outside: "inv b \<Longrightarrow> cursor b = Some n \<Longrightarrow> size b \<le> unat (fr_sequence f - n) \<Longrightarrow>
      push b f = (b, False)"
    and pop_hit: "inv b \<Longrightarrow> cursor b = Some n \<Longrightarrow> contents b n = Some f \<Longrightarrow>
      snd (pop b) = Some f \<and> inv (fst (pop b)) \<and> size (fst (pop b)) = size b \<and>
      cursor (fst (pop b)) = Some (n + 1) \<and> contents (fst (pop b)) = (contents b)(n := None)"
begin

lemma push_all_inside:
  assumes "inv b" and "cursor b = Some n" and "\<forall>f \<in> set fs. unat (fr_sequence f - n) < size b"
  shows "snd (push_all push b fs) \<and> inv (fst (push_all push b fs)) \<and> cursor (fst (push_all push b fs)) = Some n \<and>
         contents (fst (push_all push b fs)) = foldl (\<lambda>m f. m(fr_sequence f \<mapsto> f)) (contents b) fs"
  using assms
proof (induction fs arbitrary: b)
  case (Cons f fs)
  let ?b = "fst (push b f)"
  have p: "snd (push b f)" "inv ?b" "size ?b = size b" "cursor ?b = Some n"
    "contents ?b = (contents b)(fr_sequence f \<mapsto> f)"
    using push_inside [OF Cons.prems(1,2), of f] Cons.prems(3) by simp_all
  then show ?case
    using Cons.IH [OF p(2) p(4)] Cons.prems(3) by (simp add: split_beta)
qed simp

text \<open>Frames stored at consecutive sequence numbers from the cursor on are delivered in that order.\<close>

lemma pop_n_in_order:
  assumes "inv b" and "cursor b = Some n"
    and "\<And>i. i < length fs \<Longrightarrow> contents b (n + of_nat i) = Some (fs ! i)"
    and "length fs \<le> 2 ^ 32"
  shows "pop_n pop b (length fs) = map Some fs"
  using assms
proof (induction fs arbitrary: b n)
  case (Cons f fs)
  have hit: "contents b n = Some f"
    using Cons.prems(3) [of 0] by simp
  note p = pop_hit [OF Cons.prems(1,2) hit]
  have "contents (fst (pop b)) (n + 1 + of_nat i) = Some (fs ! i)" if "i < length fs" for i
  proof -
    have "n + 1 + of_nat i \<noteq> n"
    proof
      assume "n + 1 + of_nat i = n"
      then have "(of_nat (Suc i) :: u32) = 0"
        by (metis add.assoc add_cancel_right_right of_nat_Suc)
      then show False
        using that Cons.prems(4) of_nat_eq_word_iff [of "Suc i" "0::u32"] by simp
    qed
    then show ?thesis
      using p Cons.prems(3) [of "Suc i"] that by (simp add: add.assoc)
  qed
  then have "pop_n pop (fst (pop b)) (length fs) = map Some fs"
    using p Cons.prems(4) by (intro Cons.IH [of _ "n + 1"]) auto
  then show ?case
    using p by (simp add: split_beta)
qed simp

text \<open>Any arrival order: a first frame, then the others in any order within the window, are delivered in
  sequence order.\<close>

lemma reordering:
  assumes "inv b" and "cursor b = None" and "fs \<noteq> []" and "length fs \<le> size b" and "size b \<le> 2 ^ 32"
    and seqs: "\<And>i. i < length fs \<Longrightarrow> fr_sequence (fs ! i) = n + of_nat i"
    and arrivals: "set (hd fs # arr) = set fs"
  shows "snd (push_all push b (hd fs # arr)) \<and>
    pop_n pop (fst (push_all push b (hd fs # arr))) (length fs) = map Some fs"
proof -
  let ?b = "fst (push b (hd fs))" and ?fs = "hd fs # arr"
  have hd: "fr_sequence (hd fs) = n"
    using seqs [of 0] assms(3) by (simp add: hd_conv_nth)
  have b: "snd (push b (hd fs))" "inv ?b" "size ?b = size b" "cursor ?b = Some n"
    "contents ?b = (contents b)(n \<mapsto> hd fs)"
    using push_first [OF assms(1,2), of "hd fs"] hd by simp_all
  have off: "unat (of_nat i :: u32) = i" if "i < length fs" for i
    using that assms(4,5) by (simp add: unat_of_nat_small)
  have "\<forall>f \<in> set arr. unat (fr_sequence f - n) < size ?b"
  proof
    fix f assume "f \<in> set arr"
    then obtain i where "i < length fs" "f = fs ! i"
      using arrivals by (metis in_set_conv_nth list.set_intros(2))
    then show "unat (fr_sequence f - n) < size ?b"
      using seqs off assms(4) b(3) by simp
  qed
  note all = push_all_inside [OF b(2) b(4) this]
  have inj: "inj_on fr_sequence (set fs)"
    using seqs assms(4,5) by (intro numbered_inj [where n = n]) auto
  have "contents (fst (push_all push ?b arr)) (n + of_nat i) = Some (fs ! i)" if "i < length fs" for i
  proof -
    have sub: "set arr \<subseteq> set fs" and mem: "fs ! i \<in> set fs"
      using arrivals that by auto
    have "fs ! i \<in> set arr \<or> contents ?b (fr_sequence (fs ! i)) = Some (fs ! i)"
    proof (cases "fs ! i = hd fs")
      case True
      then show ?thesis by (simp add: b(5) hd)
    next
      case False
      then show ?thesis
        using mem arrivals by (metis set_ConsD)
    qed
    from fold_store [of "set fs" "fs ! i" arr "contents ?b", OF inj this sub mem] show ?thesis
      using all by (simp only: seqs [OF that])
  qed
  then have "pop_n pop (fst (push_all push ?b arr)) (length fs) = map Some fs"
    using all assms(4,5) by (intro pop_n_in_order) auto
  then show ?thesis
    using b(1) all by (simp add: split_beta)
qed

end

section \<open>The ring of slots implements the contract\<close>

definition jb_contents :: "JitterBuffer \<Rightarrow> u32 \<Rightarrow> Frame option" where
  "jb_contents b s =
     (let slot = slots b ! slot_index b s
      in if occupied slot \<and> slot_sequence slot = s then slot_frame slot else None)"

definition jb_cursor :: "JitterBuffer \<Rightarrow> u32 option" where
  "jb_cursor b = (if primed b then Some (next_seq b) else None)"

definition slot_ok :: "JitterBuffer \<Rightarrow> nat \<Rightarrow> bool" where
  "slot_ok b i \<longleftrightarrow> (let slot = slots b ! i in occupied slot \<longrightarrow>
     primed b \<and> slot_index b (slot_sequence slot) = i \<and>
     unat (slot_sequence slot - next_seq b) < unat (capacity b) \<and>
     (\<exists>f. slot_frame slot = Some f \<and> fr_sequence f = slot_sequence slot))"

definition jb_inv :: "JitterBuffer \<Rightarrow> bool" where
  "jb_inv b \<longleftrightarrow> (\<exists>k \<le> 11. capacity b = push_bit k 1) \<and> mask b = capacity b - 1 \<and>
     length (slots b) = unat (capacity b) \<and> (\<forall>i < length (slots b). slot_ok b i)"

lemma unat_exp: "k \<le> 11 \<Longrightarrow> unat (push_bit k 1 :: u32) = 2 ^ k"
proof -
  assume "k \<le> 11"
  then have "(2::nat) ^ k < 2 ^ 32"
    by (intro power_strict_increasing) simp_all
  then show ?thesis
    using unat_of_nat_small [of "2 ^ k", where 'a = 32] by (simp add: push_bit_of_1)
qed

lemma slot_index_mod:
  assumes "jb_inv b"
  shows "slot_index b s = unat s mod unat (capacity b)"
proof -
  obtain k where k: "k \<le> 11" "capacity b = push_bit k 1" "mask b = capacity b - 1"
    using assms by (auto simp: jb_inv_def)
  have "mask b = Bit_Operations.mask k"
    using k by (simp add: mask_eq_exp_minus_1 push_bit_of_1)
  then have "slot_index b s = unat (take_bit k s)"
    by (simp add: slot_index_def take_bit_eq_mask)
  moreover have "unat (capacity b) = 2 ^ k"
    using k unat_exp [of k] by simp
  ultimately show ?thesis
    by (simp only: unsigned_take_bit_eq) (simp add: take_bit_eq_mod)
qed

text \<open>Two sequence numbers inside one window that share a slot are equal.\<close>

lemma mod_window_inject:
  fixes a b n m :: nat
  assumes "(n + a) mod m = (n + b) mod m" and "a < m" and "b < m"
  shows "a = b"
proof -
  have "int m dvd int (n + a) - int (n + b)"
    using assms(1) by (metis mod_eq_dvd_iff of_nat_mod)
  then have "int m dvd int a - int b"
    by simp
  then show ?thesis
    using assms(2,3) zdvd_not_zless [of "int a - int b" "int m"] zdvd_not_zless [of "int b - int a" "int m"]
    by (cases a b rule: linorder_cases) (auto simp: dvd_diff_commute)
qed

lemma window_same_slot:
  assumes inv: "jb_inv b" and same: "slot_index b s = slot_index b s'"
    and w: "unat (s - n) < unat (capacity b)" "unat (s' - n) < unat (capacity b)"
  shows "s = s'"
proof -
  obtain k where k: "k \<le> 11" "unat (capacity b) = 2 ^ k"
    using inv unat_exp by (auto simp: jb_inv_def)
  have idx: "slot_index b s = (unat n + unat (s - n)) mod 2 ^ k" for s
  proof -
    have dvd: "(2::nat) ^ k dvd 2 ^ 32"
      using k(1) by (intro le_imp_power_dvd) simp
    have "unat s = (unat n + unat (s - n)) mod 2 ^ 32"
      using unat_word_ariths(1) [of n "s - n"] by simp
    then show ?thesis
      using slot_index_mod [OF inv, of s] k(2) mod_mod_cancel [OF dvd] by simp
  qed
  have "(unat n + unat (s - n)) mod 2 ^ k = (unat n + unat (s' - n)) mod 2 ^ k"
    using same by (simp only: idx)
  then have "unat (s - n) = unat (s' - n)"
    by (rule mod_window_inject) (use w in \<open>simp_all only: k(2)\<close>)
  then have "s - n = s' - n"
    by (simp only: word_unat_eq_iff)
  then show ?thesis
    by simp
qed

lemma slot_index_less: "jb_inv b \<Longrightarrow> slot_index b s < length (slots b)"
proof -
  assume inv: "jb_inv b"
  then have "0 < unat (capacity b)"
    using unat_exp by (auto simp: jb_inv_def)
  then show ?thesis
    using inv slot_index_mod [OF inv, of s] by (simp add: jb_inv_def)
qed

lemma no_collision:
  assumes "jb_inv b" and "unat (s - next_seq b) < unat (capacity b)"
    and "occupied (slots b ! slot_index b s)"
  shows "slot_sequence (slots b ! slot_index b s) = s"
proof -
  have "slot_ok b (slot_index b s)"
    using assms(1) slot_index_less [OF assms(1), of s] by (simp add: jb_inv_def)
  then show ?thesis
    using window_same_slot [OF assms(1) _ _ assms(2)] assms(3) by (auto simp: slot_ok_def Let_def)
qed

text \<open>Changing one slot and the cursor: what has to be checked for the invariant and the contents.\<close>

definition put_slot :: "JitterBuffer \<Rightarrow> u32 \<Rightarrow> Slot \<Rightarrow> JitterBuffer" where
  "put_slot b s slot = b\<lparr>slots := (slots b)[slot_index b s := slot]\<rparr>"

lemma put_slot_index [simp]: "slot_index (put_slot b s slot) t = slot_index b t"
  by (simp add: put_slot_def slot_index_def)

lemma put_slot_fields [simp]:
  "capacity (put_slot b s slot) = capacity b" "mask (put_slot b s slot) = mask b"
  "next_seq (put_slot b s slot) = next_seq b" "primed (put_slot b s slot) = primed b"
  "length (slots (put_slot b s slot)) = length (slots b)"
  by (simp_all add: put_slot_def)

lemma put_slot_nth:
  "jb_inv b \<Longrightarrow> i < length (slots b) \<Longrightarrow>
     slots (put_slot b s slot) ! i = (if i = slot_index b s then slot else slots b ! i)"
  by (auto simp: put_slot_def nth_list_update slot_index_less)

lemma jb_invI:
  "jb_inv b \<Longrightarrow> capacity b' = capacity b \<Longrightarrow> mask b' = mask b \<Longrightarrow> length (slots b') = length (slots b) \<Longrightarrow>
     (\<And>i. i < length (slots b) \<Longrightarrow> slot_ok b' i) \<Longrightarrow> jb_inv b'"
  by (simp add: jb_inv_def)

lemma jb_invD: "jb_inv b \<Longrightarrow> i < length (slots b) \<Longrightarrow> slot_ok b i"
  by (simp add: jb_inv_def)

lemma store_frame:
  assumes inv: "jb_inv b" and "primed b" and w: "unat (fr_sequence f - next_seq b) < unat (capacity b)"
  defines "b' \<equiv> put_slot b (fr_sequence f)
    \<lparr>occupied = True, slot_sequence = fr_sequence f, slot_frame = Some f\<rparr>"
  shows "jb_inv b' \<and> jb_contents b' = (jb_contents b)(fr_sequence f \<mapsto> f)"
proof
  show "jb_inv b'"
  proof (rule jb_invI [OF inv])
    fix i assume "i < length (slots b)"
    then show "slot_ok b' i"
      using jb_invD [OF inv] assms(2) w
      by (auto simp: slot_ok_def b'_def put_slot_nth [OF inv] Let_def)
  qed (simp_all add: b'_def)
  show "jb_contents b' = (jb_contents b)(fr_sequence f \<mapsto> f)"
  proof
    fix t
    show "jb_contents b' t = ((jb_contents b)(fr_sequence f \<mapsto> f)) t"
    proof (cases "t = fr_sequence f")
      case False
      have "slot_index b t = slot_index b (fr_sequence f) \<Longrightarrow> jb_contents b t = None"
        using no_collision [OF inv w] False by (auto simp: jb_contents_def Let_def)
      then show ?thesis
        using False
        by (cases "slot_index b t = slot_index b (fr_sequence f)")
           (simp_all add: jb_contents_def b'_def put_slot_nth [OF inv] slot_index_less [OF inv])
    qed (simp add: jb_contents_def b'_def put_slot_nth [OF inv] slot_index_less [OF inv])
  qed
qed

text \<open>Emptying the slot of \<open>s\<close> removes \<open>s\<close>, and only \<open>s\<close>, when \<open>s\<close> is inside the window.\<close>

lemma contents_window:
  assumes "jb_inv b" and "jb_contents b t = Some f"
  shows "unat (t - next_seq b) < unat (capacity b)" and "fr_sequence f = t" and "primed b"
proof -
  have "slot_ok b (slot_index b t)"
    using jb_invD [OF assms(1)] slot_index_less [OF assms(1)] by simp
  then show "unat (t - next_seq b) < unat (capacity b)" "fr_sequence f = t" "primed b"
    using assms(2) by (auto simp: jb_contents_def slot_ok_def Let_def split: if_splits)
qed

lemma clear_slot_fields [simp]:
  "capacity (clear_slot b s) = capacity b" "next_seq (clear_slot b s) = next_seq b"
  "primed (clear_slot b s) = primed b" "slot_index (clear_slot b s) = slot_index b"
  by (simp_all add: clear_slot_def slot_index_def fun_eq_iff Let_def)

lemma clear_slot_inv: "jb_inv b \<Longrightarrow> jb_inv (clear_slot b s)"
  and clear_slot_contents: "jb_inv b \<Longrightarrow>
    jb_contents (clear_slot b s) t = (if slot_index b t = slot_index b s then None else jb_contents b t)"
proof -
  assume inv: "jb_inv b"
  let ?slot = "(slots b ! slot_index b s)\<lparr>occupied := False, slot_frame := None\<rparr>"
  have b': "clear_slot b s = put_slot b s ?slot"
    by (simp add: clear_slot_def put_slot_def Let_def)
  show "jb_inv (clear_slot b s)"
  proof (rule jb_invI [OF inv])
    fix i assume "i < length (slots b)"
    then show "slot_ok (clear_slot b s) i"
      using jb_invD [OF inv] unfolding b' by (auto simp: slot_ok_def put_slot_nth [OF inv] Let_def)
  qed (simp_all add: b')
  show "jb_contents (clear_slot b s) t = (if slot_index b t = slot_index b s then None else jb_contents b t)"
    by (simp add: jb_contents_def b' put_slot_nth [OF inv] slot_index_less [OF inv])
qed

lemma clear_frame:
  assumes inv: "jb_inv b" and w: "unat (s - next_seq b) < unat (capacity b)"
  shows "jb_inv (clear_slot b s) \<and> jb_contents (clear_slot b s) = (jb_contents b)(s := None)"
proof -
  have "jb_contents b t = None" if "slot_index b t = slot_index b s" "t \<noteq> s" for t
    using no_collision [OF inv w] that by (auto simp: jb_contents_def Let_def)
  then show ?thesis
    using clear_slot_inv [OF inv] clear_slot_contents [OF inv] by (auto simp: fun_eq_iff)
qed

text \<open>Moving the cursor over \<open>c\<close> positions whose slots are empty keeps the invariant.\<close>

lemma advance_cursor:
  assumes inv: "jb_inv b" and gone: "\<And>t. jb_contents b t \<noteq> None \<Longrightarrow> c \<le> t - next_seq b"
  shows "jb_inv (b\<lparr>next_seq := next_seq b + c\<rparr>) \<and>
         jb_contents (b\<lparr>next_seq := next_seq b + c\<rparr>) = jb_contents b"
proof
  let ?b = "b\<lparr>next_seq := next_seq b + c\<rparr>"
  have idx: "slot_index ?b = slot_index b"
    by (simp add: fun_eq_iff slot_index_def)
  show "jb_inv ?b"
  proof (rule jb_invI [OF inv])
    fix i assume i: "i < length (slots b)"
    let ?s = "slot_sequence (slots b ! i)"
    have "unat (?s - (next_seq b + c)) < unat (capacity b)" if occ: "occupied (slots b ! i)"
    proof -
      have ok: "slot_index b ?s = i" "unat (?s - next_seq b) < unat (capacity b)"
        "slot_frame (slots b ! i) \<noteq> None"
        using jb_invD [OF inv i] occ by (auto simp: slot_ok_def Let_def)
      then have "c \<le> ?s - next_seq b"
        using occ by (intro gone) (simp add: jb_contents_def Let_def)
      then have "?s - (next_seq b + c) \<le> ?s - next_seq b"
        using word_sub_le [of c "?s - next_seq b"] by (simp add: diff_diff_eq)
      then show ?thesis
        using ok(2) by (simp add: word_le_nat_alt)
    qed
    then show "slot_ok ?b i"
      using jb_invD [OF inv i] by (auto simp: slot_ok_def Let_def idx)
  qed simp_all
  show "jb_contents ?b = jb_contents b"
    by (simp add: fun_eq_iff jb_contents_def idx)
qed

lemma push_primed:
  assumes inv: "jb_inv b" and "primed b" and "unat (fr_sequence f - next_seq b) < unat (capacity b)"
  shows "JitterBuffer_push b f =
    (put_slot b (fr_sequence f) \<lparr>occupied = True, slot_sequence = fr_sequence f, slot_frame = Some f\<rparr>, True)"
proof -
  have "unat (capacity b) \<le> 2048"
  proof -
    obtain k where "k \<le> 11" "unat (capacity b) = 2 ^ k"
      using inv unat_exp by (auto simp: jb_inv_def)
    then show ?thesis
      using power_increasing [of k 11 "2::nat"] by simp
  qed
  then have "\<not> fr_sequence f - next_seq b > 0x80000000" "\<not> fr_sequence f - next_seq b \<ge> capacity b"
    using assms(3) by (simp_all add: word_less_nat_alt word_le_nat_alt)
  then show ?thesis
    using no_collision [OF inv assms(3)] assms(2)
    by (auto simp: JitterBuffer_push_def put_slot_def Let_def)
qed

lemma jb_push_outside:
  assumes "primed b" and "unat (capacity b) \<le> unat (fr_sequence f - next_seq b)"
  shows "JitterBuffer_push b f = (b, False)"
  using assms by (auto simp: JitterBuffer_push_def Let_def word_le_nat_alt)

lemma jb_push_first:
  assumes inv: "jb_inv b" and "\<not> primed b"
  shows "JitterBuffer_push b f = JitterBuffer_push (b\<lparr>next_seq := fr_sequence f, primed := True\<rparr>) f"
    and "jb_inv (b\<lparr>next_seq := fr_sequence f, primed := True\<rparr>)"
    and "jb_contents b = Map.empty" and "jb_contents (b\<lparr>next_seq := fr_sequence f, primed := True\<rparr>) = Map.empty"
proof -
  let ?b = "b\<lparr>next_seq := fr_sequence f, primed := True\<rparr>"
  have free: "\<not> occupied (slots b ! i)" if "i < length (slots b)" for i
    using jb_invD [OF inv that] assms(2) by (auto simp: slot_ok_def Let_def)
  then show inv': "jb_inv ?b"
    by (intro jb_invI [OF inv]) (simp_all add: slot_ok_def Let_def)
  show "jb_contents b = Map.empty"
    using free slot_index_less [OF inv] by (simp add: fun_eq_iff jb_contents_def Let_def)
  show "jb_contents ?b = Map.empty"
    using free slot_index_less [OF inv'] by (simp add: fun_eq_iff jb_contents_def Let_def)
  have "0 < unat (capacity b)"
    using inv unat_exp by (auto simp: jb_inv_def)
  moreover have "JitterBuffer_push ?b f =
      (put_slot ?b (fr_sequence f) \<lparr>occupied = True, slot_sequence = fr_sequence f, slot_frame = Some f\<rparr>, True)"
    using calculation by (intro push_primed [OF inv']) simp_all
  ultimately show "JitterBuffer_push b f = JitterBuffer_push ?b f"
    using assms(2) free slot_index_less [OF inv']
    by (simp add: JitterBuffer_push_def [of b] put_slot_def Let_def)
qed

lemma pop_as_clear:
  assumes inv: "jb_inv b" and hit: "jb_contents b (next_seq b) = Some f"
  shows "JitterBuffer_pop b =
    ((clear_slot b (next_seq b))\<lparr>next_seq := next_seq b + 1\<rparr>, Some f)"
  using hit contents_window(3) [OF inv hit]
  by (auto simp: JitterBuffer_pop_def jb_contents_def clear_slot_def Let_def split: if_splits)

lemma pop_miss:
  assumes "jb_contents b (next_seq b) = None" and "jb_inv b"
  shows "JitterBuffer_pop b = (b, None)"
proof (cases "primed b")
  case True
  have "slot_ok b (slot_index b (next_seq b))"
    using jb_invD slot_index_less assms(2) by simp
  then show ?thesis
    using assms(1) by (auto simp: JitterBuffer_pop_def jb_contents_def slot_ok_def Let_def split: if_splits)
qed (simp add: JitterBuffer_pop_def)

lemma jb_pop_hit:
  assumes inv: "jb_inv b" and hit: "jb_contents b (next_seq b) = Some f"
  shows "snd (JitterBuffer_pop b) = Some f \<and> jb_inv (fst (JitterBuffer_pop b)) \<and>
    jb_contents (fst (JitterBuffer_pop b)) = (jb_contents b)(next_seq b := None)"
proof -
  let ?c = "clear_slot b (next_seq b)"
  have w: "unat (next_seq b - next_seq b) < unat (capacity b)"
    using contents_window(1) [OF inv hit] .
  have c: "jb_inv ?c" "jb_contents ?c = (jb_contents b)(next_seq b := None)"
    using clear_frame [OF inv w] by simp_all
  have same: "next_seq ?c = next_seq b"
    by (simp add: clear_slot_def Let_def)
  have "1 \<le> t - next_seq b" if "jb_contents ?c t \<noteq> None" for t
    using that c(2) by (auto simp: word_le_nat_alt Suc_le_eq unat_gt_0 split: if_splits)
  then show ?thesis
    using pop_as_clear [OF inv hit] advance_cursor [OF c(1), of 1] c(2) same by simp
qed

interpretation jb: reorder_queue jb_inv jb_contents jb_cursor "\<lambda>b. unat (capacity b)"
  JitterBuffer_push JitterBuffer_pop
proof
  fix b :: JitterBuffer and f :: Frame
  assume inv: "jb_inv b" and "jb_cursor b = None"
  then have np: "\<not> primed b"
    by (simp add: jb_cursor_def split: if_splits)
  let ?b = "b\<lparr>next_seq := fr_sequence f, primed := True\<rparr>"
  note first = jb_push_first(1,2,4) [OF inv np, of f] jb_push_first(3) [OF inv np]
  have w: "unat (fr_sequence f - next_seq ?b) < unat (capacity ?b)"
    using inv unat_exp by (auto simp: jb_inv_def)
  show "snd (JitterBuffer_push b f) \<and> jb_inv (fst (JitterBuffer_push b f)) \<and>
      unat (capacity (fst (JitterBuffer_push b f))) = unat (capacity b) \<and>
      jb_cursor (fst (JitterBuffer_push b f)) = Some (fr_sequence f) \<and>
      jb_contents (fst (JitterBuffer_push b f)) = (jb_contents b)(fr_sequence f \<mapsto> f)"
    using push_primed [OF first(2) _ w] store_frame [OF first(2) _ w] first
    by (simp add: jb_cursor_def)
next
  fix b :: JitterBuffer and n :: u32 and f :: Frame
  assume inv: "jb_inv b" and "jb_cursor b = Some n" and w: "unat (fr_sequence f - n) < unat (capacity b)"
  then have "primed b" "n = next_seq b"
    by (auto simp: jb_cursor_def split: if_splits)
  then show "snd (JitterBuffer_push b f) \<and> jb_inv (fst (JitterBuffer_push b f)) \<and>
      unat (capacity (fst (JitterBuffer_push b f))) = unat (capacity b) \<and>
      jb_cursor (fst (JitterBuffer_push b f)) = Some n \<and>
      jb_contents (fst (JitterBuffer_push b f)) = (jb_contents b)(fr_sequence f \<mapsto> f)"
    using push_primed [OF inv] store_frame [OF inv] w by (simp add: jb_cursor_def)
next
  fix b :: JitterBuffer and n :: u32 and f :: Frame
  assume "jb_cursor b = Some n" and "unat (capacity b) \<le> unat (fr_sequence f - n)"
  then show "JitterBuffer_push b f = (b, False)"
    by (intro jb_push_outside) (auto simp: jb_cursor_def split: if_splits)
next
  fix b :: JitterBuffer and n :: u32 and f :: Frame
  assume inv: "jb_inv b" and cur: "jb_cursor b = Some n" and hit: "jb_contents b n = Some f"
  then have n: "n = next_seq b" "primed b"
    by (auto simp: jb_cursor_def split: if_splits)
  then show "snd (JitterBuffer_pop b) = Some f \<and> jb_inv (fst (JitterBuffer_pop b)) \<and>
      unat (capacity (fst (JitterBuffer_pop b))) = unat (capacity b) \<and>
      jb_cursor (fst (JitterBuffer_pop b)) = Some (n + 1) \<and>
      jb_contents (fst (JitterBuffer_pop b)) = (jb_contents b)(n := None)"
    using jb_pop_hit [OF inv] pop_as_clear [OF inv] hit
    by (simp add: jb_cursor_def clear_slot_def Let_def)
qed

section \<open>Skipping over losses\<close>

definition clear_range :: "JitterBuffer \<Rightarrow> u32 \<Rightarrow> nat \<Rightarrow> JitterBuffer" where
  "clear_range b n c = foldl (\<lambda>b i. clear_slot b (n + of_nat i)) b [0..<c]"

lemma clear_range_Suc:
  "clear_range b n (Suc c) = clear_slot (clear_range b n c) (n + of_nat c)"
  by (simp add: clear_range_def)

lemma clear_range_inv:
  assumes "jb_inv b"
  shows "jb_inv (clear_range b n c) \<and> next_seq (clear_range b n c) = next_seq b \<and>
    primed (clear_range b n c) = primed b \<and> capacity (clear_range b n c) = capacity b \<and>
    slot_index (clear_range b n c) = slot_index b"
proof (induction c)
  case (Suc c)
  then show ?case
    by (simp add: clear_range_Suc clear_slot_inv)
qed (simp add: clear_range_def assms)

lemma clear_range_contents:
  assumes "jb_inv b"
  shows "jb_contents (clear_range b n c) t =
    (if \<exists>i < c. slot_index b t = slot_index b (n + of_nat i) then None else jb_contents b t)"
proof (induction c)
  case (Suc c)
  then show ?case
    using clear_range_inv [OF assms, of n c] by (auto simp: clear_range_Suc clear_slot_contents less_Suc_eq)
qed (simp add: clear_range_def)

text \<open>The positions cleared by a skip hit, inside the window, exactly the skipped sequence numbers.\<close>

lemma clear_range_window:
  assumes inv: "jb_inv b" and c: "c < 2 ^ 32"
  shows "jb_contents (clear_range b (next_seq b) c) t =
    (if unat (t - next_seq b) < c then None else jb_contents b t)"
proof (cases "jb_contents b t")
  case None
  then show ?thesis by (simp add: clear_range_contents [OF inv])
next
  case (Some f)
  note w = contents_window(1) [OF inv Some]
  let ?j = "unat (t - next_seq b)"
  have "(\<exists>i < c. slot_index b t = slot_index b (next_seq b + of_nat i)) \<longleftrightarrow> ?j < c"
  proof
    assume "\<exists>i < c. slot_index b t = slot_index b (next_seq b + of_nat i)"
    then obtain i where i: "i < c" "slot_index b t = slot_index b (next_seq b + of_nat i)" by blast
    show "?j < c"
    proof (cases "i < unat (capacity b)")
      case True
      then have "unat (next_seq b + of_nat i - next_seq b) < unat (capacity b)"
        using i(1) c by (simp add: unat_of_nat_small)
      then have "t = next_seq b + of_nat i"
        using window_same_slot [OF inv i(2) w] by simp
      then show ?thesis
        using i(1) c by (simp add: unat_of_nat_small)
    next
      case False
      then show ?thesis using w i(1) by simp
    qed
  next
    assume "?j < c"
    then show "\<exists>i < c. slot_index b t = slot_index b (next_seq b + of_nat i)"
      by (intro exI [of _ ?j]) simp
  qed
  then show ?thesis
    by (simp add: clear_range_contents [OF inv])
qed

lemma skip_spec:
  assumes inv: "jb_inv b" and "primed b"
  shows "jb_inv (JitterBuffer_skip b c) \<and> next_seq (JitterBuffer_skip b c) = next_seq b + c \<and>
    primed (JitterBuffer_skip b c) \<and>
    jb_contents (JitterBuffer_skip b c) =
      (\<lambda>t. if unat (t - next_seq b) < unat c then None else jb_contents b t)"
proof -
  let ?r = "clear_range b (next_seq b) (unat c)"
  have skip: "JitterBuffer_skip b c = ?r\<lparr>next_seq := next_seq ?r + c\<rparr>"
    using assms clear_range_inv [OF inv, of "next_seq b" "unat c"]
    by (simp add: JitterBuffer_skip_def clear_range_def Let_def)
  have "unat c < 2 ^ 32"
    using unsigned_less [of c, where 'a = nat] by simp
  note cont = clear_range_window [OF inv this]
  have "c \<le> t - next_seq ?r" if "jb_contents ?r t \<noteq> None" for t
    using that clear_range_inv [OF inv] by (simp add: cont word_le_nat_alt split: if_splits)
  then show ?thesis
    using advance_cursor [of ?r c] clear_range_inv [OF inv, of "next_seq b" "unat c"] assms(2)
    by (simp add: skip cont fun_eq_iff)
qed

lemma new_power:
  assumes "k \<le> 11"
  shows "\<exists>b. JitterBuffer_new (push_bit k 1) = Some b"
proof -
  have "(2::nat) ^ k \<le> 2 ^ 11"
    using assms by (intro power_increasing) simp_all
  then have "(push_bit k 1 :: u32) \<le> 2048"
    using unat_exp [OF assms] by (simp add: word_le_nat_alt)
  moreover have "is_power_of_two (push_bit k 1)"
    using assms by (simp add: is_power_of_two_def)
  ultimately show ?thesis
    by (simp add: JitterBuffer_new_def)
qed

lemma new_inv:
  assumes "JitterBuffer_new cap = Some b"
  shows "jb_inv b \<and> capacity b = cap \<and> \<not> primed b"
proof -
  obtain k where k: "k < 32" "cap = push_bit k 1" and "cap \<le> 2048"
    using assms by (auto simp: JitterBuffer_new_def is_power_of_two_def split: if_splits)
  have "k \<le> 11"
  proof (rule ccontr)
    assume "\<not> k \<le> 11"
    then have "(2::nat) ^ 12 \<le> 2 ^ k" "(2::nat) ^ k < 2 ^ 32"
      using k(1) power_increasing [of 12 k "2::nat"] power_strict_increasing [of k 32 "2::nat"] by simp_all
    then have "unat cap = 2 ^ k"
      using k(2) unat_of_nat_small [of "2 ^ k", where 'a = 32] by (simp add: push_bit_of_1)
    then show False
      using \<open>cap \<le> 2048\<close> \<open>2 ^ 12 \<le> 2 ^ k\<close> by (simp add: word_le_nat_alt)
  qed
  then show ?thesis
    using assms k(2)
    by (auto simp: JitterBuffer_new_def jb_inv_def slot_ok_def Slot_empty_def split: if_splits)
qed

lemma reorder_new:
  assumes "JitterBuffer_new cap = Some b" and "fs \<noteq> []" and "length fs \<le> unat cap"
    and "\<forall>i < length fs. fr_sequence (fs ! i) = n + of_nat i" and "set (hd fs # arr) = set fs"
  shows "snd (push_all JitterBuffer_push b (hd fs # arr)) \<and>
    pop_n JitterBuffer_pop (fst (push_all JitterBuffer_push b (hd fs # arr))) (length fs) = map Some fs"
proof (rule jb.reordering)
  show "jb_inv b" "jb_cursor b = None" "length fs \<le> unat (capacity b)"
    using new_inv [OF assms(1)] assms(3) by (simp_all add: jb_cursor_def)
  show "unat (capacity b) \<le> 2 ^ 32"
    using unsigned_less [of "capacity b", where 'a = nat] by simp
qed (use assms in auto)

section \<open>Properties\<close>

text \<open>C11: the jitter buffer restores the order.  Take frames with consecutive sequence numbers (wrapping around
  at \<open>2 ^ 32\<close>), no more than the capacity.  If the first of them arrives first and the others arrive in any order,
  with any duplicates, all are accepted, and popping delivers exactly these frames in sequence order.\<close>

theorem jitter_buffer_reorders:
  assumes "JitterBuffer_new cap = Some b" and "fs \<noteq> []" and "length fs \<le> unat cap"
    and "\<forall>i < length fs. fr_sequence (fs ! i) = n + of_nat i" and "set (hd fs # arr) = set fs"
  shows "snd (push_all JitterBuffer_push b (hd fs # arr)) \<and>
    pop_n JitterBuffer_pop (fst (push_all JitterBuffer_push b (hd fs # arr))) (length fs) = map Some fs"
  using assms by (rule reorder_new)

definition seq_frame :: "u32 \<Rightarrow> Frame" where
  "seq_frame s = \<lparr>fr_sequence = s, fr_timestamp = 0, fr_payload = []\<rparr>"

theorem jitter_buffer_reorders_witness:
  "\<exists>b. JitterBuffer_new 4 = Some b \<and>
     pop_n JitterBuffer_pop
       (fst (push_all JitterBuffer_push b (map seq_frame [0xFFFFFFFF, 1, 0, 1]))) 3 =
     map (Some \<circ> seq_frame) [0xFFFFFFFF, 0, 1]"
proof -
  let ?fs = "map seq_frame [0xFFFFFFFF, 0, 1]" and ?arr = "map seq_frame [1, 0, 1]"
  obtain b where b: "JitterBuffer_new 4 = Some b"
    using new_power [of 2] by auto
  have len: "length ?fs \<le> unat (4 :: u32)" "length ?fs = 3" and ne: "?fs \<noteq> []"
    by simp_all
  have seqs: "\<forall>i < length ?fs. fr_sequence (?fs ! i) = 0xFFFFFFFF + of_nat i"
    by (auto simp: seq_frame_def less_Suc_eq)
  have "set (hd ?fs # ?arr) = set ?fs"
    by auto
  from jitter_buffer_reorders [OF b ne len(1) seqs this]
  have "pop_n JitterBuffer_pop (fst (push_all JitterBuffer_push b (hd ?fs # ?arr))) 3 = map Some ?fs"
    unfolding len(2) by blast
  then show ?thesis
    using b by (simp only: list.map list.sel comp_apply) blast
qed

text \<open>What a push does.  A primed buffer accepts a frame exactly when its sequence number is less than the
  capacity ahead of the cursor; an accepted frame is stored under its number and no other frame is lost, a refused one
  changes nothing.  The test against occupied slots in the code never refuses a frame.\<close>

lemma jitter_push_window:
  assumes "jb_inv b" and "primed b"
  shows "snd (JitterBuffer_push b f) = (unat (fr_sequence f - next_seq b) < unat (capacity b)) \<and>
    jb_inv (fst (JitterBuffer_push b f)) \<and> next_seq (fst (JitterBuffer_push b f)) = next_seq b \<and>
    jb_contents (fst (JitterBuffer_push b f)) =
      (if unat (fr_sequence f - next_seq b) < unat (capacity b)
       then (jb_contents b)(fr_sequence f \<mapsto> f) else jb_contents b)"
  using push_primed [OF assms, of f] store_frame [OF assms, of f] jb_push_outside [OF assms(2), of f] assms
  by (cases "unat (fr_sequence f - next_seq b) < unat (capacity b)") simp_all

lemma jitter_push_window_witness:
  "\<exists>b. jb_inv b \<and> primed b \<and> \<not> snd (JitterBuffer_push b (seq_frame 9)) \<and>
     snd (JitterBuffer_push b (seq_frame 1))"
proof -
  obtain b where b: "JitterBuffer_new 2 = Some b"
    using new_power [of 1] by auto
  let ?b = "b\<lparr>next_seq := fr_sequence (seq_frame 0), primed := True\<rparr>"
  have inv: "jb_inv ?b" "primed ?b" "capacity ?b = 2"
    using new_inv [OF b] jb_push_first(2) [of b "seq_frame 0"] by simp_all
  from jitter_push_window [OF inv(1,2), of "seq_frame 9"] jitter_push_window [OF inv(1,2), of "seq_frame 1"] inv
  show ?thesis
    by (intro exI [of _ ?b]) (simp add: seq_frame_def)
qed

lemma deadline_pop:
  assumes "jb_inv b" and "primed b" and "pop_with_deadline b now_us deadline_us = (b', r)"
  shows "r = jb_contents b (next_seq b) \<and> jb_inv b' \<and> primed b' \<and>
    jb_contents b' = (jb_contents b)(next_seq b := None) \<and>
    next_seq b' = (if r \<noteq> None \<or> now_us \<ge> deadline_us then next_seq b + 1 else next_seq b)"
proof (cases "jb_contents b (next_seq b)")
  case None
  have "jb_contents (JitterBuffer_skip b 1) = jb_contents b"
  proof
    fix t show "jb_contents (JitterBuffer_skip b 1) t = jb_contents b t"
      using skip_spec [OF assms(1,2), of 1] None by (cases "t = next_seq b") (auto simp: unat_eq_0)
  qed
  moreover have "(jb_contents b)(next_seq b := None) = jb_contents b"
    using None by (simp add: fun_eq_iff)
  ultimately show ?thesis
    using assms None pop_miss [OF None assms(1)] skip_spec [OF assms(1,2), of 1]
    by (auto simp: pop_with_deadline_def split: if_splits)
next
  case (Some f)
  then show ?thesis
    using assms jb_pop_hit [OF assms(1) Some] pop_as_clear [OF assms(1) Some]
    by (auto simp: pop_with_deadline_def)
qed

text \<open>Playback with a deadline.  A pop returns the frame at the cursor if it is there; the cursor moves on
  by one when a frame was returned or the deadline has passed and stays otherwise; no other frame is touched, and the
  representation invariant is kept.\<close>

lemma jitter_deadline_pop:
  assumes "jb_inv b" and "primed b" and "pop_with_deadline b now_us deadline_us = (b', r)"
  shows "r = jb_contents b (next_seq b) \<and> jb_inv b' \<and> primed b' \<and>
    jb_contents b' = (jb_contents b)(next_seq b := None) \<and>
    next_seq b' = (if r \<noteq> None \<or> now_us \<ge> deadline_us then next_seq b + 1 else next_seq b)"
  using assms by (rule deadline_pop)

lemma jitter_deadline_pop_witness:
  "\<exists>b b' r. jb_inv b \<and> primed b \<and> pop_with_deadline b 10 5 = (b', r) \<and> next_seq b' = next_seq b + 1"
proof -
  obtain b where b: "JitterBuffer_new 2 = Some b"
    using new_power [of 1] by auto
  let ?b = "b\<lparr>next_seq := fr_sequence (seq_frame 0), primed := True\<rparr>"
  have inv: "jb_inv ?b" "primed ?b"
    using new_inv [OF b] jb_push_first(2) [of b "seq_frame 0"] by simp_all
  obtain b' r where pop: "pop_with_deadline ?b 10 5 = (b', r)"
    by force
  from jitter_deadline_pop [OF inv pop] inv pop show ?thesis
    by (intro exI [of _ ?b] exI [of _ b'] exI [of _ r]) auto
qed

end
