(* ===== verification/Fec.thy ===== *)
theory Fec
  imports Constants
begin

unbundle bit_operations_syntax

text \<open>
  \<open>gravital-talk-transport/src/fec.rs\<close>: parity packets over groups of frames.  A frame is read as an
  infinite byte stream padded with zeros (\<open>byte_at\<close>), which turns the length bookkeeping of the
  code into pointwise equations.  Proved: any single lost frame of an aligned group is
  recovered, padded to the longest frame of the group, and groups that are not aligned to the
  window are never recovered.
\<close>

section \<open>Encoder and decoder\<close>

fun xor_into :: "bytes \<Rightarrow> bytes \<Rightarrow> bytes" where
  "xor_into [] data = []"
| "xor_into acc [] = acc"
| "xor_into (a # acc) (d # data) = (a XOR d) # xor_into acc data"

record FecParity =
  par_seq_base :: u32
  par_window :: u8
  par_payload :: bytes

record FecEncoder =
  enc_window :: u8
  parity_buf :: bytes
  enc_count :: u8
  enc_seq_base :: u32

definition FecEncoder_new :: "u8 \<Rightarrow> FecEncoder" where
  "FecEncoder_new window =
     \<lparr>enc_window = max window 2, parity_buf = [], enc_count = 0, enc_seq_base = 0\<rparr>"

definition resize_zero :: "nat \<Rightarrow> bytes \<Rightarrow> bytes" where
  "resize_zero n xs = take n xs @ replicate (n - length xs) 0"

definition FecEncoder_push :: "FecEncoder \<Rightarrow> u32 \<Rightarrow> bytes \<Rightarrow> FecEncoder \<times> FecParity option" where
  "FecEncoder_push e seq pl =
     (let e = (if enc_count e = 0
               then e\<lparr>enc_seq_base := seq, parity_buf := replicate (length pl) 0\<rparr> else e);
          e = (if length pl > length (parity_buf e)
               then e\<lparr>parity_buf := resize_zero (length pl) (parity_buf e)\<rparr> else e);
          e = e\<lparr>parity_buf := xor_into (parity_buf e) pl\<rparr>;
          e = e\<lparr>enc_count := enc_count e + 1\<rparr>
      in if enc_count e \<ge> enc_window e
         then (e\<lparr>enc_count := 0, parity_buf := []\<rparr>,
               Some \<lparr>par_seq_base = enc_seq_base e, par_window = enc_window e,
                     par_payload = parity_buf e\<rparr>)
         else (e, None))"

record FecDecoder =
  dec_window :: u8
  dec_seq_base :: u32
  dec_received :: "bytes option list"
  dec_parity :: "bytes option"
  dec_active :: bool

definition FecDecoder_new :: "u8 \<Rightarrow> FecDecoder" where
  "FecDecoder_new window =
     \<lparr>dec_window = max window 2, dec_seq_base = 0, dec_received = [], dec_parity = None, dec_active = False\<rparr>"

definition start_group :: "FecDecoder \<Rightarrow> u32 \<Rightarrow> FecDecoder" where
  "start_group d base =
     d\<lparr>dec_seq_base := base, dec_received := replicate (unat (dec_window d)) None, dec_parity := None,
       dec_active := True\<rparr>"

definition FecDecoder_push_data :: "FecDecoder \<Rightarrow> u32 \<Rightarrow> bytes \<Rightarrow> FecDecoder \<times> bool" where
  "FecDecoder_push_data d seq pl =
     (let window = ucast (dec_window d) :: u32;
          group_base = seq - (seq mod window);
          d = (if \<not> dec_active d \<or> dec_seq_base d \<noteq> group_base then start_group d group_base else d);
          offset = unat (seq - dec_seq_base d)
      in if offset < unat (dec_window d)
         then (d\<lparr>dec_received := (dec_received d)[offset := Some pl]\<rparr>, True)
         else (d, False))"

definition missing :: "bytes option list \<Rightarrow> nat list" where
  "missing fs = map fst (filter (\<lambda>(i, f). f = None) (enumerate 0 fs))"

definition try_recover :: "FecDecoder \<Rightarrow> (u32 \<times> bytes) option" where
  "try_recover d =
     (case dec_parity d of
        None \<Rightarrow> None
      | Some parity \<Rightarrow>
          (let miss = missing (dec_received d) in
           if length miss \<noteq> 1 then None
           else let lost_idx = miss ! 0;
                    recovered =
                      foldl (\<lambda>acc (i, frame).
                               if i = lost_idx then acc
                               else case frame of None \<Rightarrow> acc | Some data \<Rightarrow> xor_into acc data)
                            parity (enumerate 0 (dec_received d))
                in Some (dec_seq_base d + of_nat lost_idx, recovered)))"

definition FecDecoder_push_parity :: "FecDecoder \<Rightarrow> FecParity \<Rightarrow> FecDecoder \<times> (u32 \<times> bytes) option" where
  "FecDecoder_push_parity d parity =
     (let d = (if \<not> dec_active d \<or> dec_seq_base d \<noteq> par_seq_base parity
               then start_group d (par_seq_base parity) else d);
          d = d\<lparr>dec_parity := Some (par_payload parity)\<rparr>
      in (d, try_recover d))"

definition FecDecoder_reset :: "FecDecoder \<Rightarrow> FecDecoder" where
  "FecDecoder_reset d = d\<lparr>dec_active := False, dec_received := [], dec_parity := None\<rparr>"

text \<open>A sender that pushes a list of frames and collects the parities; a receiver of a list of frames.\<close>

primrec encode_all :: "FecEncoder \<Rightarrow> (u32 \<times> bytes) list \<Rightarrow> FecEncoder \<times> FecParity list" where
  "encode_all e [] = (e, [])"
| "encode_all e (x # xs) =
     (case FecEncoder_push e (fst x) (snd x) of
        (e, p) \<Rightarrow> (case encode_all e xs of
                     (e, ps) \<Rightarrow> (e, (case p of None \<Rightarrow> ps | Some q \<Rightarrow> q # ps))))"

definition receive_all :: "FecDecoder \<Rightarrow> (u32 \<times> bytes) list \<Rightarrow> FecDecoder" where
  "receive_all = foldl (\<lambda>d x. fst (FecDecoder_push_data d (fst x) (snd x)))"

section \<open>Frames as zero-padded streams\<close>

definition byte_at :: "bytes \<Rightarrow> nat \<Rightarrow> u8" where
  "byte_at xs i = (if i < length xs then xs ! i else 0)"

lemma length_xor_into [simp]: "length (xor_into acc data) = length acc"
  by (induction acc data rule: xor_into.induct) simp_all

lemma byte_at_Cons: "byte_at (x # xs) i = (case i of 0 \<Rightarrow> x | Suc j \<Rightarrow> byte_at xs j)"
  by (simp add: byte_at_def split: nat.splits)

lemma byte_at_xor_into:
  "byte_at (xor_into acc data) i = (if i < length acc then byte_at acc i XOR byte_at data i else 0)"
proof (induction acc data arbitrary: i rule: xor_into.induct)
  case (3 a acc d data)
  then show ?case
    by (cases i) (simp_all add: byte_at_Cons)
qed (simp_all add: byte_at_def)

lemma byte_at_xor_into_fits:
  "length data \<le> length acc \<Longrightarrow> byte_at (xor_into acc data) i = byte_at acc i XOR byte_at data i"
  by (simp add: byte_at_xor_into) (simp add: byte_at_def)

lemma byte_at_resize [simp]: "length xs \<le> n \<Longrightarrow> byte_at (resize_zero n xs) i = byte_at xs i"
  by (simp add: byte_at_def resize_zero_def nth_append)

lemma length_resize [simp]: "length (resize_zero n xs) = n"
  by (simp add: resize_zero_def)

lemma byte_at_replicate [simp]: "byte_at (replicate n 0) i = 0"
  by (simp add: byte_at_def)

lemma bytes_eqI: "length xs = length ys \<Longrightarrow> (\<And>i. byte_at xs i = byte_at ys i) \<Longrightarrow> xs = ys"
  by (metis byte_at_def nth_equalityI)

definition stream_xor :: "bytes list \<Rightarrow> nat \<Rightarrow> u8" where
  "stream_xor fs i = foldr (\<lambda>f x. byte_at f i XOR x) fs 0"

lemma stream_xor_simps [simp]:
  "stream_xor [] i = 0" "stream_xor (f # fs) i = byte_at f i XOR stream_xor fs i"
  by (simp_all add: stream_xor_def)

lemma stream_xor_append [simp]: "stream_xor (fs @ gs) i = stream_xor fs i XOR stream_xor gs i"
  by (induction fs) (simp_all add: xor.assoc)

definition max_len :: "bytes list \<Rightarrow> nat" where
  "max_len fs = foldr (\<lambda>f n. max (length f) n) fs 0"

lemma max_len_simps [simp]: "max_len [] = 0" "max_len (f # fs) = max (length f) (max_len fs)"
  by (simp_all add: max_len_def)

lemma max_len_append [simp]: "max_len (fs @ gs) = max (max_len fs) (max_len gs)"
  by (induction fs) simp_all

lemma max_len_le: "f \<in> set fs \<Longrightarrow> length f \<le> max_len fs"
  by (induction fs) auto

section \<open>The parity of a group\<close>

definition enc_inv :: "FecEncoder \<Rightarrow> u8 \<Rightarrow> u32 \<Rightarrow> bytes list \<Rightarrow> bool" where
  "enc_inv e w base fs \<longleftrightarrow> enc_window e = w \<and> enc_count e = of_nat (length fs) \<and> length fs < unat w \<and>
     (fs \<noteq> [] \<longrightarrow> enc_seq_base e = base \<and> length (parity_buf e) = max_len fs \<and>
        (\<forall>i. byte_at (parity_buf e) i = stream_xor fs i))"

definition is_parity :: "FecParity \<Rightarrow> u8 \<Rightarrow> u32 \<Rightarrow> bytes list \<Rightarrow> bool" where
  "is_parity p w base fs \<longleftrightarrow> par_seq_base p = base \<and> par_window p = w \<and>
     length (par_payload p) = max_len fs \<and> (\<forall>i. byte_at (par_payload p) i = stream_xor fs i)"

lemma length_u8: "n < unat (w :: u8) \<Longrightarrow> unat (of_nat n :: u8) = n \<and> unat (of_nat n + 1 :: u8) = n + 1"
proof -
  assume n: "n < unat w"
  have "unat w < 256"
    using unsigned_less [of w, where 'a = nat] by simp
  then have "unat (of_nat n :: u8) = n" "unat (of_nat (n + 1) :: u8) = n + 1"
    using n by (intro unat_of_nat_small; simp)+
  then show ?thesis by (simp add: add.commute)
qed

lemma encoder_push:
  assumes inv: "enc_inv e w base fs" and seq: "fs = [] \<longrightarrow> seq = base"
  shows "(Suc (length fs) < unat w \<longrightarrow>
            (\<exists>e'. FecEncoder_push e seq pl = (e', None) \<and> enc_inv e' w base (fs @ [pl]))) \<and>
         (Suc (length fs) = unat w \<longrightarrow>
            (\<exists>e' p. FecEncoder_push e seq pl = (e', Some p) \<and> enc_window e' = w \<and> enc_count e' = 0 \<and>
               is_parity p w base (fs @ [pl])))"
proof -
  let ?buf0 = "if fs = [] then replicate (length pl) 0 else parity_buf e"
  let ?buf = "xor_into (if length pl > length ?buf0 then resize_zero (length pl) ?buf0 else ?buf0) pl"
  have len: "length ?buf = max_len (fs @ [pl])"
    using inv by (auto simp: enc_inv_def)
  have bytes: "byte_at ?buf i = stream_xor (fs @ [pl]) i" for i
    using inv by (subst byte_at_xor_into_fits) (auto simp: enc_inv_def)
  have cnt: "enc_count e = 0 \<longleftrightarrow> fs = []" "(enc_count e + 1 \<ge> enc_window e) = (Suc (length fs) \<ge> unat w)"
    using inv length_u8 [of "length fs" w] by (auto simp: enc_inv_def word_le_nat_alt unat_eq_0 [symmetric])
  let ?e = "e\<lparr>enc_seq_base := (if fs = [] then base else enc_seq_base e), parity_buf := ?buf,
    enc_count := enc_count e + 1\<rparr>"
  have push: "FecEncoder_push e seq pl =
     (if Suc (length fs) \<ge> unat w
      then (?e\<lparr>enc_count := 0, parity_buf := []\<rparr>,
            Some \<lparr>par_seq_base = base, par_window = w, par_payload = ?buf\<rparr>)
      else (?e, None))"
    using inv seq cnt by (auto simp: FecEncoder_push_def enc_inv_def Let_def)
  show ?thesis
    using inv len bytes unfolding push
    by (auto simp: enc_inv_def is_parity_def add.commute)
qed

lemma encode_group:
  assumes "enc_inv e w base fs" and "length fs + length xs = unat w" and "xs \<noteq> []"
    and "fs = [] \<longrightarrow> fst (hd xs) = base"
  shows "\<exists>e' p. encode_all e xs = (e', [p]) \<and> enc_window e' = w \<and> enc_count e' = 0 \<and>
           is_parity p w base (fs @ map snd xs)"
  using assms
proof (induction xs arbitrary: e fs)
  case (Cons x xs)
  have seq: "fs = [] \<longrightarrow> fst x = base"
    using Cons.prems(4) by simp
  note push = encoder_push [OF Cons.prems(1) seq, of "snd x"]
  show ?case
  proof (cases xs)
    case Nil
    then show ?thesis
      using push Cons.prems(2) by auto
  next
    case (Cons y ys)
    then obtain e1 where e1: "FecEncoder_push e (fst x) (snd x) = (e1, None)" "enc_inv e1 w base (fs @ [snd x])"
      using push Cons.prems(2) by auto
    then show ?thesis
      using Cons.IH [OF e1(2)] Cons.prems(2) Cons by auto
  qed
qed simp

section \<open>Recovering a lost frame\<close>

abbreviation recover_step :: "nat \<Rightarrow> bytes \<Rightarrow> nat \<times> bytes option \<Rightarrow> bytes" where
  "recover_step lost acc x \<equiv> (case x of (i, frame) \<Rightarrow>
     if i = lost then acc else case frame of None \<Rightarrow> acc | Some data \<Rightarrow> xor_into acc data)"

lemma recover_fold_length [simp]: "length (foldl (recover_step j) acc xs) = length acc"
  by (induction xs arbitrary: acc) (auto split: option.splits)

lemma recover_fold:
  assumes "\<forall>f \<in> set fs. length f \<le> length acc" and "j < n \<or> n + length fs \<le> j"
  shows "byte_at (foldl (recover_step j) acc (enumerate n (map Some fs))) i =
    byte_at acc i XOR stream_xor fs i"
  using assms
  by (induction fs arbitrary: acc n) (auto simp: byte_at_xor_into_fits xor.assoc)

lemma enumerate_missing:
  "filter (\<lambda>(i, f). f = None) (enumerate n (map Some fs)) = []"
  by (induction fs arbitrary: n) simp_all

lemma missing_one: "missing (map Some xs @ None # map Some ys) = [length xs]"
  by (simp add: missing_def enumerate_append_eq enumerate_missing)

lemma try_recover_one:
  assumes rec: "dec_received d = map Some xs @ None # map Some ys"
    and par: "dec_parity d = Some pl" and len: "length pl = max_len (xs @ f # ys)"
    and bytes: "\<And>i. byte_at pl i = stream_xor (xs @ f # ys) i"
  shows "try_recover d = Some (dec_seq_base d + of_nat (length xs), resize_zero (max_len (xs @ f # ys)) f)"
proof -
  let ?j = "length xs"
  let ?acc = "foldl (recover_step ?j) pl (enumerate 0 (map Some xs))"
  let ?r = "foldl (recover_step ?j) pl (enumerate 0 (map Some xs @ None # map Some ys))"
  have split: "?r = foldl (recover_step ?j) ?acc (enumerate (Suc ?j) (map Some ys))"
    by (simp add: enumerate_append_eq)
  have fits: "\<forall>g \<in> set xs. length g \<le> length pl" "\<forall>g \<in> set ys. length g \<le> length ?acc"
    using len max_len_le by fastforce+
  have "byte_at ?r i = byte_at f i" for i
  proof -
    have "byte_at ?r i = (byte_at pl i XOR stream_xor xs i) XOR stream_xor ys i"
      unfolding split using recover_fold [OF fits(2)] recover_fold [OF fits(1)] by simp
    also have "\<dots> = byte_at f i"
      unfolding bytes by (simp add: xor.assoc xor.left_commute xor.commute)
    finally show ?thesis .
  qed
  moreover have "length f \<le> max_len (xs @ f # ys)"
    by simp
  ultimately have "?r = resize_zero (max_len (xs @ f # ys)) f"
    using len by (intro bytes_eqI) (simp_all del: max_len_append)
  then show ?thesis
    by (simp add: try_recover_def par rec missing_one)
qed

section \<open>The decoder collects a group\<close>

definition dec_inv :: "FecDecoder \<Rightarrow> u8 \<Rightarrow> u32 \<Rightarrow> (nat \<rightharpoonup> bytes) \<Rightarrow> bool" where
  "dec_inv d w base m \<longleftrightarrow> dec_window d = w \<and> dec_active d \<and> dec_seq_base d = base \<and>
     dec_received d = map m [0..<unat w]"

definition aligned :: "u8 \<Rightarrow> u32 \<Rightarrow> bool" where
  "aligned w base \<longleftrightarrow> unat base mod unat w = 0 \<and> unat base + unat w \<le> 2 ^ 32"

lemma group_base:
  assumes "aligned w base" and "i < unat w"
  shows "(base + of_nat i) - (base + of_nat i) mod (ucast w :: u32) = base"
    and "unat (base + of_nat i - base) = i"
proof -
  have "unat w < 2 ^ 8"
    using unsigned_less [of w, where 'a = nat] by simp
  then have i: "unat (of_nat i :: u32) = i"
    using assms(2) by (intro unat_of_nat_small) simp
  then show "unat (base + of_nat i - base) = i"
    by simp
  have "unat (base + of_nat i) = unat base + i"
    using assms i by (subst unat_add_lem [THEN iffD1]) (auto simp: aligned_def)
  then have "unat ((base + of_nat i) mod (ucast w :: u32)) = (unat base + i) mod unat w"
    using \<open>unat w < 2 ^ 8\<close> by (simp add: unat_mod_distrib unsigned_ucast_eq take_bit_nat_eq_self)
  also have "\<dots> = i"
    using assms by (simp add: aligned_def mod_add_left_eq [symmetric])
  finally have "(base + of_nat i) mod (ucast w :: u32) = of_nat i"
    using i by (metis word_unat_eq_iff)
  then show "(base + of_nat i) - (base + of_nat i) mod (ucast w :: u32) = base"
    by simp
qed

lemma push_data_group:
  assumes al: "aligned w base" and i: "i < unat w" and w: "dec_window d = w"
    and d: "dec_inv d w base m \<or> (m = Map.empty \<and> (\<not> dec_active d \<or> dec_seq_base d \<noteq> base))"
  shows "dec_inv (fst (FecDecoder_push_data d (base + of_nat i) pl)) w base (m(i \<mapsto> pl))"
proof -
  let ?d = "if \<not> dec_active d \<or> dec_seq_base d \<noteq> base then start_group d base else d"
  have inv: "dec_inv ?d w base m"
    using d w by (auto simp: dec_inv_def start_group_def map_replicate_const)
  then have "FecDecoder_push_data d (base + of_nat i) pl =
      (?d\<lparr>dec_received := (dec_received ?d)[i := Some pl]\<rparr>, True)"
    using group_base [OF al i] i w by (auto simp: FecDecoder_push_data_def Let_def dec_inv_def)
  moreover have "(map m [0..<unat w])[i := Some pl] = map (m(i \<mapsto> pl)) [0..<unat w]"
    using i by (intro nth_equalityI) (auto simp: nth_list_update)
  ultimately show ?thesis
    using inv by (simp add: dec_inv_def)
qed

lemma receive_group:
  assumes "aligned w base" and "dec_inv d w base m" and "\<forall>i \<in> set arr. i < unat w"
  shows "dec_inv (receive_all d (map (\<lambda>i. (base + of_nat i, fs ! i)) arr)) w base
           (\<lambda>i. if i \<in> set arr then Some (fs ! i) else m i)"
  using assms(2,3)
proof (induction arr arbitrary: d m)
  case (Cons i arr)
  have "dec_inv (fst (FecDecoder_push_data d (base + of_nat i) (fs ! i))) w base (m(i \<mapsto> fs ! i))"
    using Cons.prems assms(1) by (intro push_data_group) (auto simp: dec_inv_def)
  moreover have "(\<lambda>k. if k \<in> set (i # arr) then Some (fs ! k) else m k) =
      (\<lambda>k. if k \<in> set arr then Some (fs ! k) else (m(i \<mapsto> fs ! i)) k)"
    by (auto simp: fun_eq_iff)
  ultimately show ?case
    using Cons.IH Cons.prems(2) by (simp add: receive_all_def)
qed (simp add: receive_all_def)

lemma receive_new_group:
  assumes "aligned w base" and "dec_window d = w" and "\<not> dec_active d \<or> dec_seq_base d \<noteq> base"
    and "arr \<noteq> []" and "\<forall>i \<in> set arr. i < unat w"
  shows "dec_inv (receive_all d (map (\<lambda>i. (base + of_nat i, fs ! i)) arr)) w base
           (\<lambda>i. if i \<in> set arr then Some (fs ! i) else None)"
proof (cases arr)
  case (Cons i arr')
  have "dec_inv (fst (FecDecoder_push_data d (base + of_nat i) (fs ! i))) w base [i \<mapsto> fs ! i]"
    using assms Cons by (intro push_data_group) auto
  moreover have "(\<lambda>k. if k \<in> set arr then Some (fs ! k) else None) =
      (\<lambda>k. if k \<in> set arr' then Some (fs ! k) else [i \<mapsto> fs ! i] k)"
    using Cons by (auto simp: fun_eq_iff)
  ultimately show ?thesis
    using receive_group [OF assms(1), of _ "[i \<mapsto> fs ! i]" arr' fs] assms(5) Cons
    by (simp add: receive_all_def)
qed (use assms in simp)

lemma group_split:
  assumes "j < length fs"
  shows "map (\<lambda>i. if i \<noteq> j then Some (fs ! i) else None) [0..<length fs] =
    map Some (take j fs) @ None # map Some (drop (Suc j) fs)"
proof (rule nth_equalityI)
  fix i assume "i < length (map (\<lambda>i. if i \<noteq> j then Some (fs ! i) else None) [0..<length fs])"
  then show "map (\<lambda>i. if i \<noteq> j then Some (fs ! i) else None) [0..<length fs] ! i =
      (map Some (take j fs) @ None # map Some (drop (Suc j) fs)) ! i"
    using assms by (auto simp: nth_append nth_Cons' min_def)
qed (use assms in simp)

lemma push_parity_recovers:
  assumes inv: "dec_inv d w base (\<lambda>i. if i \<noteq> j then Some (fs ! i) else None)"
    and par: "is_parity p w base fs" and len: "length fs = unat w" and j: "j < length fs"
  shows "snd (FecDecoder_push_parity d p) = Some (base + of_nat j, resize_zero (max_len fs) (fs ! j))"
proof -
  let ?d = "d\<lparr>dec_parity := Some (par_payload p)\<rparr>"
  have fs: "fs = take j fs @ fs ! j # drop (Suc j) fs"
    using j by (rule id_take_nth_drop)
  have "snd (FecDecoder_push_parity d p) = try_recover ?d"
    using inv par by (simp add: FecDecoder_push_parity_def dec_inv_def is_parity_def Let_def)
  also have "\<dots> = Some (dec_seq_base ?d + of_nat (length (take j fs)),
      resize_zero (max_len (take j fs @ fs ! j # drop (Suc j) fs)) (fs ! j))"
  proof (rule try_recover_one)
    show "dec_received ?d = map Some (take j fs) @ None # map Some (drop (Suc j) fs)"
      using inv len group_split [OF j] by (simp add: dec_inv_def)
    show "length (par_payload p) = max_len (take j fs @ fs ! j # drop (Suc j) fs)"
      "byte_at (par_payload p) i = stream_xor (take j fs @ fs ! j # drop (Suc j) fs) i" for i
      using par fs by (simp_all only: is_parity_def)
  qed simp
  finally show ?thesis
    using inv j fs by (simp add: dec_inv_def)
qed

section \<open>Groups that are not aligned\<close>

primrec receive_events :: "FecDecoder \<Rightarrow> ((u32 \<times> bytes) + FecParity) list \<Rightarrow> FecDecoder" where
  "receive_events d [] = d"
| "receive_events d (x # xs) =
     receive_events (case x of Inl (seq, pl) \<Rightarrow> fst (FecDecoder_push_data d seq pl)
                             | Inr p \<Rightarrow> fst (FecDecoder_push_parity d p)) xs"

definition align_inv :: "u8 \<Rightarrow> FecDecoder \<Rightarrow> bool" where
  "align_inv w d \<longleftrightarrow> dec_window d = w \<and>
     (dec_active d \<longrightarrow> unat (dec_seq_base d) mod unat w = 0 \<or> dec_received d = replicate (unat w) None)"

lemma group_base_aligned: "unat (seq - seq mod ucast w :: u32) mod unat w = 0" for w :: u8
proof -
  have "unat w < 2 ^ 8"
    using unsigned_less [of w, where 'a = nat] by simp
  then have m: "unat (seq mod ucast w :: u32) = unat seq mod unat w"
    by (simp add: unat_mod_distrib unsigned_ucast_eq take_bit_nat_eq_self)
  then have "seq mod ucast w \<le> seq"
    by (simp add: word_le_nat_alt)
  then have "unat (seq - seq mod ucast w :: u32) = unat seq - unat seq mod unat w"
    by (simp add: unat_sub m)
  then show ?thesis
    by (metis dvd_imp_mod_0 dvd_minus_mod)
qed

lemma missing_replicate: "missing (replicate n None) = [0..<n]"
proof -
  have "filter (\<lambda>(i, f). f = None) (enumerate k (replicate n (None :: bytes option))) =
      enumerate k (replicate n None)" for k
    by (induction n arbitrary: k) simp_all
  then show ?thesis
    by (simp add: missing_def)
qed

lemma align_data: "align_inv w d \<Longrightarrow> align_inv w (fst (FecDecoder_push_data d seq pl))"
  using group_base_aligned [of seq w]
  by (auto simp: align_inv_def FecDecoder_push_data_def start_group_def Let_def)

lemma align_parity: "align_inv w d \<Longrightarrow> align_inv w (fst (FecDecoder_push_parity d p))"
  by (auto simp: align_inv_def FecDecoder_push_parity_def start_group_def Let_def)

lemma align_events: "align_inv w d \<Longrightarrow> align_inv w (receive_events d xs)"
  by (induction xs arbitrary: d) (auto simp: align_data align_parity split: sum.splits prod.splits)

section \<open>Properties\<close>

text \<open>C12: a single lost frame is recovered.  The encoder emits one parity packet for every \<open>w\<close> frames.  If the
  group starts at a multiple of \<open>w\<close> and a decoder that is not already in that group receives all of its frames but
  frame \<open>j\<close>, in any order and with duplicates, and then the parity, it returns the sequence number of the lost frame
  and its bytes, padded with zeros to the longest frame of the group (exactly its bytes when
  the frames have equal lengths).\<close>

theorem fec_recovers_lost_frame:
  assumes "2 \<le> w" and "aligned w base" and "length fs = unat w" and "j < unat w"
    and "set arr = {0..<unat w} - {j}"
    and "dec_window d = w" and "\<not> dec_active d \<or> dec_seq_base d \<noteq> base"
    and "encode_all (FecEncoder_new w) (map (\<lambda>i. (base + of_nat i, fs ! i)) [0..<unat w]) = (e, ps)"
  shows "\<exists>p. ps = [p] \<and>
    snd (FecDecoder_push_parity (receive_all d (map (\<lambda>i. (base + of_nat i, fs ! i)) arr)) p) =
      Some (base + of_nat j, fs ! j @ replicate (max_len fs - length (fs ! j)) 0)"
proof -
  let ?xs = "map (\<lambda>i. (base + of_nat i, fs ! i)) [0..<unat w]"
  have w: "2 \<le> unat w"
    using assms(1) by (simp add: word_le_nat_alt)
  have "enc_inv (FecEncoder_new w) w base []"
    using w assms(1) by (simp add: enc_inv_def FecEncoder_new_def max_def)
  moreover have "fst (hd ?xs) = base"
    using w by (simp add: hd_map)
  ultimately obtain p where p: "ps = [p]" "is_parity p w base (map snd ?xs)"
    using encode_group [of "FecEncoder_new w" w base "[]" ?xs] assms(8) w by auto
  have "map snd ?xs = fs"
    using assms(3) by (simp add: map_nth comp_def flip: assms(3))
  with p have par: "is_parity p w base fs"
    by simp
  have "arr \<noteq> []"
  proof
    assume "arr = []"
    then have "{0..<unat w} \<subseteq> {j}"
      using assms(5) by auto
    moreover have "0 \<in> {0..<unat w}" "1 \<in> {0..<unat w}"
      using w by simp_all
    ultimately have "0 = j" "1 = j" by blast+
    then show False by simp
  qed
  then have "dec_inv (receive_all d (map (\<lambda>i. (base + of_nat i, fs ! i)) arr)) w base
      (\<lambda>i. if i \<in> set arr then Some (fs ! i) else None)"
    using assms by (intro receive_new_group) auto
  then have "dec_inv (receive_all d (map (\<lambda>i. (base + of_nat i, fs ! i)) arr)) w base
      (\<lambda>i. if i \<noteq> j then Some (fs ! i) else None)"
    using assms(4,5) by (auto simp: dec_inv_def)
  from push_parity_recovers [OF this par assms(3)] show ?thesis
    using assms(3,4) p(1) max_len_le [of "fs ! j" fs] by (simp add: resize_zero_def)
qed

theorem fec_recovers_lost_frame_witness:
  "\<exists>e p. encode_all (FecEncoder_new 2) [(4, [1, 2, 3]), (5, [7])] = (e, [p]) \<and>
     snd (FecDecoder_push_parity (receive_all (FecDecoder_new 2) [(4, [1, 2, 3])]) p) = Some (5, [7, 0, 0])"
proof -
  let ?fs = "[[1, 2, 3], [7]] :: bytes list"
  let ?xs = "map (\<lambda>i. (4 + of_nat i :: u32, ?fs ! i)) [0..<unat (2 :: u8)]"
  obtain e ps where enc: "encode_all (FecEncoder_new 2) ?xs = (e, ps)"
    by force
  have "{0} = {0..<unat (2 :: u8)} - {1}"
    by auto
  then obtain p where p: "ps = [p]" and rec: "snd (FecDecoder_push_parity
      (receive_all (FecDecoder_new 2) (map (\<lambda>i. (4 + of_nat i, ?fs ! i)) [0])) p) =
      Some (4 + of_nat 1, ?fs ! 1 @ replicate (max_len ?fs - length (?fs ! 1)) 0)"
    using fec_recovers_lost_frame [of 2 4 ?fs 1 "[0]" "FecDecoder_new 2", OF _ _ _ _ _ _ _ enc]
    by (auto simp: aligned_def FecDecoder_new_def)
  have xs: "?xs = [(4, [1, 2, 3]), (5, [7])]"
    by (simp add: upt_rec)
  have "snd (FecDecoder_push_parity (receive_all (FecDecoder_new 2) [(4, [1, 2, 3])]) p) = Some (5, [7, 0, 0])"
    using rec by (simp add: numeral_eq_Suc)
  with enc p show ?thesis
    unfolding xs by blast
qed

text \<open>Misaligned groups are never recovered.  The decoder derives the group of a frame from its sequence number
  rounded down to a multiple of the window, the encoder from whichever frame it counted first.  Once the two disagree
  (one audio sequence number taken by a frame that never reached the encoder is enough), no parity packet
  recovers anything, whatever data and parity packets the decoder has received before.\<close>

lemma fec_misaligned_never_recovers:
  assumes "2 \<le> w" and "unat (par_seq_base p) mod unat w \<noteq> 0"
  shows "snd (FecDecoder_push_parity (receive_events (FecDecoder_new w) xs) p) = None"
proof -
  let ?d = "receive_events (FecDecoder_new w) xs"
  have w: "2 \<le> unat w"
    using assms(1) by (simp add: word_le_nat_alt)
  have "align_inv w (FecDecoder_new w)"
    using assms(1) by (simp add: align_inv_def FecDecoder_new_def max_def)
  then have "align_inv w ?d"
    by (rule align_events)
  then have "dec_received (fst (FecDecoder_push_parity ?d p)) = replicate (unat w) None"
    using assms(2) by (auto simp: align_inv_def FecDecoder_push_parity_def start_group_def Let_def)
  then have "try_recover (fst (FecDecoder_push_parity ?d p)) = None"
    using w by (simp add: try_recover_def missing_replicate split: option.splits)
  then show ?thesis
    by (simp add: FecDecoder_push_parity_def Let_def)
qed

lemma fec_misaligned_never_recovers_witness:
  "snd (FecDecoder_push_parity
     (receive_events (FecDecoder_new 4) [Inl (1, [1]), Inl (2, [2]), Inl (3, [3])])
     \<lparr>par_seq_base = 1, par_window = 4, par_payload = [4]\<rparr>) = None"
  by (rule fec_misaligned_never_recovers) simp_all

end
