(* ===== verification/Congestion.thy ===== *)
theory Congestion
  imports Constants Complex_Main "HOL-Library.Log_Nat"
begin

text \<open>
  \<open>gravital-talk-transport/src/congestion.rs\<close>: the additive-increase, multiplicative-decrease
  bitrate controller.  The double-precision products \<open>current * 0.85\<close> and \<open>current * 0.95\<close> are
  modelled exactly, as IEEE round-to-nearest-even on 53 bits; proved: their truncation to \<open>u32\<close> is
  the exact integer quotient for every bitrate, and the bitrate never leaves its bounds.
  \<open>clamp\<close> panics when its bounds are inverted; that is the value \<open>None\<close>.
\<close>

section \<open>Double-precision product with a constant below 1\<close>

text \<open>\<open>round_even x d\<close> is \<open>x / d\<close> rounded to the nearest integer, ties to even.\<close>

definition round_even :: "nat \<Rightarrow> nat \<Rightarrow> nat" where
  "round_even x d =
     (let q = x div d; r = x mod d
      in if 2 * r < d then q else if 2 * r > d then q + 1 else q + q mod 2)"

text \<open>A natural number rounded to 53 significant bits.\<close>

definition round53 :: "nat \<Rightarrow> nat" where
  "round53 x = (let d = 2 ^ (floorlog 2 x - 53) in round_even x d * d)"

text \<open>A \<open>f64\<close> constant in \<open>[1/2, 1)\<close> is \<open>m / 2 ^ 53\<close>; an integer below \<open>2 ^ 32\<close> is exact, so the
  product is \<open>c * m / 2 ^ 53\<close> rounded to 53 bits, and \<open>as u32\<close> truncates it.\<close>

definition f64_mul_trunc :: "nat \<Rightarrow> nat \<Rightarrow> nat" where
  "f64_mul_trunc c m = round53 (c * m) div 2 ^ 53"

text \<open>The mantissas of the nearest doubles to 0.85 and 0.95, and the nearest \<open>f32\<close> to 0.05.\<close>

definition F085 :: nat where
  "F085 = 7656119366529843"

definition F095 :: nat where
  "F095 = 8556839292003942"

definition LOSS_THRESHOLD :: rat where
  "LOSS_THRESHOLD = 13421773 / 268435456"

definition RTT_THRESHOLD_US :: u64 where
  "RTT_THRESHOLD_US = 150000"

section \<open>Controller\<close>

record CongestionController =
  current_bitrate :: u32
  min_bitrate :: u32
  max_bitrate :: u32

definition u32_clamp :: "u32 \<Rightarrow> u32 \<Rightarrow> u32 \<Rightarrow> u32 option" where
  "u32_clamp x lo hi = (if \<not> lo \<le> hi then None else Some (if x < lo then lo else if x > hi then hi else x))"

definition u32_saturating_add :: "u32 \<Rightarrow> u32 \<Rightarrow> u32" where
  "u32_saturating_add a b = (if unat a + unat b < 2 ^ 32 then a + b else 0xFFFFFFFF)"

definition CongestionController_new :: "u32 \<Rightarrow> u32 \<Rightarrow> u32 \<Rightarrow> CongestionController option" where
  "CongestionController_new initial minb maxb =
     (let minb = max minb CONGESTION_MIN_BITRATE in
      case u32_clamp initial minb maxb of
        None \<Rightarrow> None
      | Some clamped \<Rightarrow>
          Some \<lparr>current_bitrate = clamped, min_bitrate = minb, max_bitrate = maxb\<rparr>)"

definition CongestionController_update ::
  "CongestionController \<Rightarrow> rat \<Rightarrow> u64 \<Rightarrow> u64 \<Rightarrow> CongestionController option" where
  "CongestionController_update cc loss_rate rtt_us jitter_us =
     (let current = current_bitrate cc;
          new_bitrate =
            (if loss_rate > LOSS_THRESHOLD then of_nat (f64_mul_trunc (unat current) F085)
             else if rtt_us > RTT_THRESHOLD_US then of_nat (f64_mul_trunc (unat current) F095)
             else u32_saturating_add current CONGESTION_AIMD_INCREMENT)
      in case u32_clamp new_bitrate (min_bitrate cc) (max_bitrate cc) of
           None \<Rightarrow> None
         | Some clamped \<Rightarrow> Some (cc\<lparr>current_bitrate := clamped\<rparr>))"

definition set_bitrate :: "CongestionController \<Rightarrow> u32 \<Rightarrow> CongestionController option" where
  "set_bitrate cc bitrate =
     (case u32_clamp bitrate (min_bitrate cc) (max_bitrate cc) of
        None \<Rightarrow> None
      | Some clamped \<Rightarrow> Some (cc\<lparr>current_bitrate := clamped\<rparr>))"

definition cc_inv :: "CongestionController \<Rightarrow> bool" where
  "cc_inv cc \<longleftrightarrow> CONGESTION_MIN_BITRATE \<le> min_bitrate cc \<and>
     min_bitrate cc \<le> current_bitrate cc \<and> current_bitrate cc \<le> max_bitrate cc"

section \<open>The rounded product is the exact quotient\<close>

lemma round_even_near:
  assumes "0 < d" and "x \<le> y * d" and "2 * (y * d - x) < d"
  shows "round_even x d = y"
proof (cases "x = y * d")
  case False
  define t where "t = y * d - x"
  have t: "0 < t" "2 * t < d" "x + t = y * d"
    using assms(2,3) False by (simp_all add: t_def)
  then obtain z where y: "y = Suc z"
    by (cases y) auto
  define r where "r = d - t"
  have r: "r < d" "x = r + z * d"
    using t y by (simp_all add: r_def)
  then have "x div d = z" "x mod d = d - t"
    by (simp_all add: r_def [symmetric])
  then show ?thesis
    using t y by (simp add: round_even_def Let_def)
qed (use assms in \<open>simp add: round_even_def\<close>)

lemma round_even_error:
  assumes "0 < d"
  shows "2 * x \<le> 2 * (round_even x d * d) + d" and "2 * (round_even x d * d) \<le> 2 * x + d"
proof -
  define q r where "q = x div d" and "r = x mod d"
  have x: "x = q * d + r" and r: "r < d"
    using assms by (simp_all add: q_def r_def)
  have "round_even x d = q \<and> 2 * r \<le> d \<or> round_even x d = q + 1 \<and> d \<le> 2 * r"
    unfolding round_even_def q_def [symmetric] r_def [symmetric] by (auto simp: Let_def mod2_eq_if)
  then have "round_even x d * d = q * d \<and> 2 * r \<le> d \<or> round_even x d * d = q * d + d \<and> d \<le> 2 * r"
    by auto
  then show "2 * x \<le> 2 * (round_even x d * d) + d" "2 * (round_even x d * d) \<le> 2 * x + d"
    using x r by linarith+
qed

lemma div_between: "N * B \<le> x \<Longrightarrow> x < (N + 1) * B \<Longrightarrow> x div B = N" for N B x :: nat
  by (rule div_nat_eqI) (simp_all add: mult.commute)

text \<open>\<open>n / 20\<close> in double precision: mantissa \<open>m\<close>, with \<open>20 * m\<close> short of \<open>n * 2 ^ 53\<close> by \<open>\<delta>\<close>.\<close>

lemma scaled_mantissa:
  fixes m :: nat
  assumes "20 * m + \<delta> = n * B"
  shows "20 * (c * m) + c * \<delta> = c * n * B"
proof -
  have "c * (20 * m + \<delta>) = c * (n * B)"
    by (simp only: assms)
  then show ?thesis
    by (simp only: distrib_left mult.assoc mult.left_commute)
qed

lemma deficit_bound:
  fixes x u v c D :: nat
  assumes "x < D * 2 ^ 53" and "2 * u + c \<le> v" and "u \<le> c * 10" and "20 * x + u = v * 2 ^ 53"
  shows "2 * u < 20 * D"
  using assms by simp

lemma mul_trunc_inexact:
  assumes m: "20 * m + \<delta> = n * 2 ^ 53" and "\<delta> \<le> 8" and c: "c < 2 ^ 32" and mB: "m < 2 ^ 53"
    and R: "c * n mod 20 \<noteq> 0"
  shows "f64_mul_trunc c m = c * n div 20"
proof -
  define N R X d where "N = c * n div 20" and "R = c * n mod 20" and "X = c * m"
    and "d = (2::nat) ^ (floorlog 2 X - 53)"
  have "X < 2 ^ 85"
    using mult_strict_mono [OF c mB] by (simp add: X_def)
  then have "floorlog 2 X - 53 \<le> 32"
    using floorlog_leI [of X 2 85] by simp
  then have d: "d \<le> 2 ^ 32" "0 < d"
    using power_increasing [of "floorlog 2 X - 53" 32 "2::nat"] by (simp_all add: d_def)
  have cn: "c * n = 20 * N + R" "1 \<le> R" "R \<le> 19"
    using R by (simp_all add: N_def R_def)
  have X: "20 * X + c * \<delta> = c * n * 2 ^ 53"
    using scaled_mantissa [OF m] by (simp add: X_def)
  have c\<delta>: "c * \<delta> \<le> 2 ^ 35"
    using mult_le_mono [of c "2 ^ 32" \<delta> 8] c assms(2) by simp
  have "round53 X div 2 ^ 53 = N"
    using round_even_error [OF d(2), of X] d X c\<delta> cn
    by (intro div_between) (simp_all add: round53_def Let_def d_def [symmetric])
  then show ?thesis
    by (simp add: f64_mul_trunc_def X_def N_def)
qed

lemma mul_trunc_exact:
  assumes m: "20 * m + \<delta> = n * 2 ^ 53" and n: "2 * \<delta> < n" "n < 20" and c: "c < 2 ^ 32"
    and mB: "2 ^ 52 \<le> m" "m < 2 ^ 53" and R: "c * n mod 20 = 0"
  shows "f64_mul_trunc c m = c * n div 20"
proof (cases "c = 0")
  case False
  define N X e where "N = c * n div 20" and "X = c * m" and "e = floorlog 2 X - 53"
  have cn: "c * n = 20 * N"
    using R by (auto simp: N_def)
  have X: "20 * X + c * \<delta> = 20 * (N * 2 ^ 53)"
    using scaled_mantissa [OF m, of c] cn by (simp add: X_def)
  have "X < 2 ^ 85"
    using mult_strict_mono [OF c mB(2)] by (simp add: X_def)
  then have e: "e \<le> 32"
    using floorlog_leI [of X 2 85] by (simp add: e_def)
  have "2 \<le> c"
  proof (rule ccontr)
    assume "\<not> 2 \<le> c"
    with False have "c = 1" by simp
    then show False using cn n by simp
  qed
  then have "2 ^ 53 \<le> X"
    using mult_le_mono [of 2 c "2 ^ 52" m] mB(1) by (simp add: X_def)
  then have "53 < floorlog 2 X"
    using floorlog_ge_SucI [of 2 53 X] by simp
  moreover have "X < 2 ^ floorlog 2 X"
    using floorlog_bounds [of X 2] \<open>2 ^ 53 \<le> X\<close> by simp
  ultimately have "X < 2 ^ (e + 53)"
    by (simp add: e_def)
  then have "X < 2 ^ e * 2 ^ 53"
    by (simp only: power_add)
  moreover have "2 * (c * \<delta>) + c \<le> c * n"
    using mult_le_mono2 [of "2 * \<delta> + 1" n c] n(1) by simp
  moreover have "c * \<delta> \<le> c * 10"
    using n by (intro mult_le_mono2) simp
  ultimately have "2 * (c * \<delta>) < 20 * 2 ^ e"
    using scaled_mantissa [OF m, of c] unfolding X_def by (rule deficit_bound)
  have Y: "N * 2 ^ (53 - e) * 2 ^ e = N * 2 ^ 53"
    using e by (simp flip: power_add)
  have "round_even X (2 ^ e) = N * 2 ^ (53 - e)"
  proof (rule round_even_near)
    show "X \<le> N * 2 ^ (53 - e) * 2 ^ e" "2 * (N * 2 ^ (53 - e) * 2 ^ e - X) < 2 ^ e"
      unfolding Y using X \<open>2 * (c * \<delta>) < 20 * 2 ^ e\<close> by linarith+
  qed simp
  then have "round53 X = N * 2 ^ 53"
    using Y by (simp add: round53_def e_def Let_def)
  then show ?thesis
    by (simp add: f64_mul_trunc_def X_def N_def)
qed (simp add: f64_mul_trunc_def round53_def round_even_def)

lemma mul_trunc:
  assumes "c < 2 ^ 32"
  shows "f64_mul_trunc c F085 = c * 17 div 20" and "f64_mul_trunc c F095 = c * 19 div 20"
proof -
  show "f64_mul_trunc c F085 = c * 17 div 20"
    using assms mul_trunc_exact [of F085 4 17 c] mul_trunc_inexact [of F085 4 17 c]
    by (cases "c * 17 mod 20 = 0") (simp_all add: F085_def)
  show "f64_mul_trunc c F095 = c * 19 div 20"
    using assms mul_trunc_exact [of F095 8 19 c] mul_trunc_inexact [of F095 8 19 c]
    by (cases "c * 19 mod 20 = 0") (simp_all add: F095_def)
qed

lemma u32_clamp_bounds: "u32_clamp x lo hi = Some y \<Longrightarrow> lo \<le> y \<and> y \<le> hi"
  by (auto simp: u32_clamp_def split: if_splits)

lemma u32_clamp_some: "lo \<le> hi \<Longrightarrow> \<exists>y. u32_clamp x lo hi = Some y"
  by (simp add: u32_clamp_def)

text \<open>A history of updates and bitrate requests.\<close>

datatype cc_op = CcUpdate rat u64 u64 | CcSet u32

primrec cc_apply :: "CongestionController \<Rightarrow> cc_op \<Rightarrow> CongestionController option" where
  "cc_apply cc (CcUpdate l r j) = CongestionController_update cc l r j"
| "cc_apply cc (CcSet b) = set_bitrate cc b"

primrec cc_run :: "CongestionController \<Rightarrow> cc_op list \<Rightarrow> CongestionController option" where
  "cc_run cc [] = Some cc"
| "cc_run cc (x # xs) = (case cc_apply cc x of None \<Rightarrow> None | Some cc' \<Rightarrow> cc_run cc' xs)"

lemma clamp_inv:
  assumes "cc_inv cc"
  shows "\<exists>y. u32_clamp x (min_bitrate cc) (max_bitrate cc) = Some y \<and> cc_inv (cc\<lparr>current_bitrate := y\<rparr>)"
proof -
  obtain y where "u32_clamp x (min_bitrate cc) (max_bitrate cc) = Some y"
    using assms u32_clamp_some by (metis cc_inv_def order.trans)
  then show ?thesis
    using assms u32_clamp_bounds by (fastforce simp: cc_inv_def)
qed

lemma cc_apply_inv:
  assumes "cc_inv cc"
  shows "\<exists>cc'. cc_apply cc x = Some cc' \<and> cc_inv cc' \<and> min_bitrate cc' = min_bitrate cc \<and>
    max_bitrate cc' = max_bitrate cc"
proof (cases x)
  case (CcUpdate l r j)
  define v where "v = (if l > LOSS_THRESHOLD then of_nat (f64_mul_trunc (unat (current_bitrate cc)) F085)
             else if r > RTT_THRESHOLD_US then of_nat (f64_mul_trunc (unat (current_bitrate cc)) F095)
             else u32_saturating_add (current_bitrate cc) CONGESTION_AIMD_INCREMENT :: u32)"
  obtain y where "u32_clamp v (min_bitrate cc) (max_bitrate cc) = Some y" "cc_inv (cc\<lparr>current_bitrate := y\<rparr>)"
    using clamp_inv [OF assms] by blast
  then show ?thesis
    by (simp add: CcUpdate CongestionController_update_def Let_def v_def)
next
  case (CcSet b)
  then show ?thesis
    using clamp_inv [OF assms, of b] by (fastforce simp: set_bitrate_def)
qed

lemma cc_run_inv:
  assumes "cc_inv cc"
  shows "\<exists>cc'. cc_run cc ops = Some cc' \<and> cc_inv cc' \<and> min_bitrate cc' = min_bitrate cc \<and>
    max_bitrate cc' = max_bitrate cc"
  using assms
proof (induction ops arbitrary: cc)
  case (Cons x xs)
  then obtain cc1 where "cc_apply cc x = Some cc1" "cc_inv cc1" "min_bitrate cc1 = min_bitrate cc"
    "max_bitrate cc1 = max_bitrate cc"
    using cc_apply_inv by blast
  then show ?case
    using Cons.IH [of cc1] by simp
qed simp

section \<open>Properties\<close>

text \<open>C35: the bitrate stays within its bounds.  A controller that was created (which panics when the maximum is
  below the floor of 8000 bit/s) keeps \<open>8000 \<le> min \<le> current \<le> max\<close> under every update and every bitrate request
  from the peer, and none of them panics.\<close>

theorem bitrate_bounds_kept:
  assumes "CongestionController_new initial minb maxb = Some cc"
  shows "\<exists>cc'. cc_run cc ops = Some cc' \<and> min_bitrate cc' = max minb 8000 \<and> max_bitrate cc' = maxb \<and>
    min_bitrate cc' \<le> current_bitrate cc' \<and> current_bitrate cc' \<le> max_bitrate cc'"
proof -
  have "cc_inv cc \<and> min_bitrate cc = max minb 8000 \<and> max_bitrate cc = maxb"
    using assms by (auto simp: CongestionController_new_def cc_inv_def CONGESTION_MIN_BITRATE_def Let_def
        dest: u32_clamp_bounds split: option.splits)
  then show ?thesis
    using cc_run_inv [of cc ops] by (auto simp: cc_inv_def)
qed

theorem bitrate_bounds_kept_witness:
  "\<exists>cc cc'. CongestionController_new 64000 8000 128000 = Some cc \<and>
     cc_run cc [CcUpdate (1 / 2) 0 0, CcSet 1000000] = Some cc' \<and> current_bitrate cc' \<le> max_bitrate cc'"
proof -
  have "CongestionController_new 64000 8000 128000 =
      Some \<lparr>current_bitrate = 64000, min_bitrate = 8000, max_bitrate = 128000\<rparr>"
    by (simp add: CongestionController_new_def u32_clamp_def CONGESTION_MIN_BITRATE_def Let_def)
  from bitrate_bounds_kept [OF this] this show ?thesis by blast
qed

text \<open>C36: additive increase, multiplicative decrease, exactly.  The double-precision arithmetic of the code computes
  the exact integer quotients: above the loss threshold the new bitrate is \<open>17/20\<close> of the current one rounded down,
  else above the round-trip threshold \<open>19/20\<close> of it rounded down, else it is 2000 more; each then
  clamped to the bounds (below \<open>2 ^ 32 - 2000\<close> the increase does not saturate).\<close>

theorem aimd_step_exact:
  assumes "cc_inv cc" and "unat (current_bitrate cc) + 2000 < 2 ^ 32"
  shows "\<exists>cc'. CongestionController_update cc loss_rate rtt_us jitter_us = Some cc' \<and>
    unat (current_bitrate cc') =
      min (unat (max_bitrate cc)) (max (unat (min_bitrate cc))
        (if loss_rate > LOSS_THRESHOLD then unat (current_bitrate cc) * 17 div 20
         else if rtt_us > RTT_THRESHOLD_US then unat (current_bitrate cc) * 19 div 20
         else unat (current_bitrate cc) + 2000))"
proof -
  let ?c = "current_bitrate cc"
  have c: "unat ?c < 2 ^ 32"
    using unsigned_less [of ?c, where 'a = nat] by simp
  define v where "v = (if loss_rate > LOSS_THRESHOLD then unat ?c * 17 div 20
         else if rtt_us > RTT_THRESHOLD_US then unat ?c * 19 div 20 else unat ?c + 2000)"
  define w where "w = (if loss_rate > LOSS_THRESHOLD then of_nat (f64_mul_trunc (unat ?c) F085)
             else if rtt_us > RTT_THRESHOLD_US then of_nat (f64_mul_trunc (unat ?c) F095)
             else u32_saturating_add ?c CONGESTION_AIMD_INCREMENT :: u32)"
  have "v < 2 ^ 32"
    using c assms(2) by (auto simp: v_def)
  moreover have "w = of_nat v"
    using assms(2) by (simp add: w_def v_def mul_trunc [OF c] u32_saturating_add_def CONGESTION_AIMD_INCREMENT_def)
  ultimately have w: "unat w = v"
    by (simp add: unat_of_nat_small)
  have "min_bitrate cc \<le> max_bitrate cc"
    using assms(1) by (auto simp: cc_inv_def)
  then have "CongestionController_update cc loss_rate rtt_us jitter_us =
      Some (cc\<lparr>current_bitrate := if w < min_bitrate cc then min_bitrate cc
                                   else if w > max_bitrate cc then max_bitrate cc else w\<rparr>)"
    by (simp add: CongestionController_update_def Let_def u32_clamp_def w_def [symmetric])
  then show ?thesis
    using w \<open>min_bitrate cc \<le> max_bitrate cc\<close>
    by (auto simp: v_def [symmetric] word_less_nat_alt word_le_nat_alt)
qed

theorem aimd_step_exact_witness:
  "\<exists>cc'. CongestionController_update
     \<lparr>current_bitrate = 64000, min_bitrate = 8000, max_bitrate = 128000\<rparr> (1 / 10) 0 0 = Some cc' \<and>
     unat (current_bitrate cc') = 54400"
  using aimd_step_exact [of "\<lparr>current_bitrate = 64000, min_bitrate = 8000, max_bitrate = 128000\<rparr>" "1 / 10" 0 0]
  by (simp add: cc_inv_def CONGESTION_MIN_BITRATE_def LOSS_THRESHOLD_def)

end
