(* ===== verification/SessionFsm.thy ===== *)
theory SessionFsm
  imports Constants
begin

text \<open>
  \<open>gravital-talk-core/src/session.rs\<close>: the session state machine.  The runs of accepted events are an
  inductive relation; proved: a session is operational only after a handshake that nothing but pauses and
  resumes has followed, it can always be closed, and a closed or failed session can reach a new
  handshake.
\<close>

section \<open>States and events\<close>

datatype SessionState =
    S_Idle
  | S_Handshaking
  | S_Active
  | S_Paused
  | S_Closing
  | S_Closed
  | S_Error
  | S_Reconnecting

primrec SessionState_code :: "SessionState \<Rightarrow> u8" where
  "SessionState_code S_Idle = 0"
| "SessionState_code S_Handshaking = 1"
| "SessionState_code S_Active = 2"
| "SessionState_code S_Paused = 3"
| "SessionState_code S_Closing = 4"
| "SessionState_code S_Closed = 5"
| "SessionState_code S_Error = 6"
| "SessionState_code S_Reconnecting = 7"

definition SessionState_from_code :: "u8 \<Rightarrow> Error + SessionState" where
  "SessionState_from_code code =
     (if code = 0 then Inr S_Idle
      else if code = 1 then Inr S_Handshaking
      else if code = 2 then Inr S_Active
      else if code = 3 then Inr S_Paused
      else if code = 4 then Inr S_Closing
      else if code = 5 then Inr S_Closed
      else if code = 6 then Inr S_Error
      else if code = 7 then Inr S_Reconnecting
      else Inl MalformedPayload)"

definition is_operational :: "SessionState \<Rightarrow> bool" where
  "is_operational s \<longleftrightarrow> s = S_Active \<or> s = S_Paused"

definition is_terminal :: "SessionState \<Rightarrow> bool" where
  "is_terminal s \<longleftrightarrow> s = S_Closed \<or> s = S_Error"

datatype SessionEvent =
    StartConnect
  | StartAccept
  | HandshakeOk
  | HandshakeTimeout
  | Pause
  | Resume
  | Close
  | PeerClosed
  | PeerTimeout
  | FatalError
  | Reconnect
  | ReconnectOk

record StateTransitionError =
  ste_from :: SessionState
  ste_event :: SessionEvent

record SessionStateMachine =
  sm_state :: SessionState

definition SessionStateMachine_new :: SessionStateMachine where
  "SessionStateMachine_new = \<lparr>sm_state = S_Idle\<rparr>"

section \<open>Transitions\<close>

definition transition_next :: "SessionState \<Rightarrow> SessionEvent \<Rightarrow> SessionState option" where
  "transition_next s ev = (case (s, ev) of
       (S_Idle, StartConnect) \<Rightarrow> Some S_Handshaking
     | (S_Idle, StartAccept) \<Rightarrow> Some S_Handshaking
     | (S_Handshaking, HandshakeOk) \<Rightarrow> Some S_Active
     | (S_Handshaking, HandshakeTimeout) \<Rightarrow> Some S_Closed
     | (S_Handshaking, Close) \<Rightarrow> Some S_Closed
     | (S_Handshaking, FatalError) \<Rightarrow> Some S_Error
     | (S_Active, Pause) \<Rightarrow> Some S_Paused
     | (S_Active, Close) \<Rightarrow> Some S_Closing
     | (S_Active, PeerClosed) \<Rightarrow> Some S_Closing
     | (S_Active, PeerTimeout) \<Rightarrow> Some S_Closing
     | (S_Active, FatalError) \<Rightarrow> Some S_Error
     | (S_Paused, Resume) \<Rightarrow> Some S_Active
     | (S_Paused, Close) \<Rightarrow> Some S_Closing
     | (S_Paused, PeerClosed) \<Rightarrow> Some S_Closing
     | (S_Paused, PeerTimeout) \<Rightarrow> Some S_Closing
     | (S_Paused, FatalError) \<Rightarrow> Some S_Error
     | (S_Closing, PeerClosed) \<Rightarrow> Some S_Closed
     | (S_Closing, Close) \<Rightarrow> Some S_Closed
     | (S_Error, Reconnect) \<Rightarrow> Some S_Reconnecting
     | (S_Closed, Reconnect) \<Rightarrow> Some S_Reconnecting
     | (S_Reconnecting, StartConnect) \<Rightarrow> Some S_Handshaking
     | (S_Reconnecting, StartAccept) \<Rightarrow> Some S_Handshaking
     | (S_Reconnecting, ReconnectOk) \<Rightarrow> Some S_Handshaking
     | (S_Reconnecting, HandshakeTimeout) \<Rightarrow> Some S_Error
     | (S_Reconnecting, FatalError) \<Rightarrow> Some S_Error
     | _ \<Rightarrow> None)"

definition SessionStateMachine_transition ::
  "SessionStateMachine \<Rightarrow> SessionEvent \<Rightarrow> (StateTransitionError + SessionState) \<times> SessionStateMachine" where
  "SessionStateMachine_transition sm ev =
     (case transition_next (sm_state sm) ev of
        None \<Rightarrow> (Inl \<lparr>ste_from = sm_state sm, ste_event = ev\<rparr>, sm)
      | Some next \<Rightarrow> (Inr next, sm\<lparr>sm_state := next\<rparr>))"

text \<open>A machine fed with events, the refused ones included.\<close>

definition session_run :: "SessionStateMachine \<Rightarrow> SessionEvent list \<Rightarrow> SessionStateMachine" where
  "session_run = foldl (\<lambda>sm ev. snd (SessionStateMachine_transition sm ev))"

text \<open>The accepted events that lead from the initial state to a state, latest first.\<close>

inductive session_trace :: "SessionState \<Rightarrow> SessionEvent list \<Rightarrow> bool" where
  start: "session_trace S_Idle []"
| step: "session_trace s es \<Longrightarrow> transition_next s ev = Some s' \<Longrightarrow> session_trace s' (ev # es)"

inductive_cases session_trace_ConsE: "session_trace s (ev # es)"

section \<open>Which transitions enter a state\<close>

lemma into_Active: "transition_next s ev = Some S_Active \<longleftrightarrow>
    s = S_Handshaking \<and> ev = HandshakeOk \<or> s = S_Paused \<and> ev = Resume"
  by (cases s; cases ev) (simp_all add: transition_next_def)

lemma into_Paused: "transition_next s ev = Some S_Paused \<longleftrightarrow> s = S_Active \<and> ev = Pause"
  by (cases s; cases ev) (simp_all add: transition_next_def)

lemma transition_step:
  "SessionStateMachine_transition sm ev =
     (case transition_next (sm_state sm) ev of
        None \<Rightarrow> (Inl \<lparr>ste_from = sm_state sm, ste_event = ev\<rparr>, sm)
      | Some next \<Rightarrow> (Inr next, \<lparr>sm_state = next\<rparr>))"
  by (simp add: SessionStateMachine_transition_def split: option.splits)

lemma run_reachable:
  assumes "session_trace (sm_state sm) es"
  shows "\<exists>es'. session_trace (sm_state (session_run sm evs)) es'"
  using assms
proof (induction evs arbitrary: sm es)
  case (Cons ev evs)
  have "\<exists>es'. session_trace (sm_state (snd (SessionStateMachine_transition sm ev))) es'"
    using Cons.prems session_trace.step [of "sm_state sm" es ev]
    by (auto simp: SessionStateMachine_transition_def split: option.splits)
  then show ?case
    using Cons.IH by (force simp: session_run_def)
qed (auto simp: session_run_def)

lemma operational_trace:
  "session_trace s es \<Longrightarrow> is_operational s \<Longrightarrow>
     \<exists>post pre. es = post @ HandshakeOk # pre \<and> set post \<subseteq> {Pause, Resume} \<and> session_trace S_Handshaking pre"
proof (induction rule: session_trace.induct)
  case (step s es ev s')
  then consider "s = S_Handshaking" "ev = HandshakeOk" | "is_operational s" "ev \<in> {Pause, Resume}"
    by (auto simp: is_operational_def into_Active into_Paused)
  then show ?case
  proof cases
    case 1
    then have "ev # es = [] @ HandshakeOk # es" "set [] \<subseteq> {Pause, Resume}" "session_trace S_Handshaking es"
      using step.hyps by simp_all
    then show ?thesis by blast
  next
    case 2
    then obtain post pre where "es = post @ HandshakeOk # pre" "set post \<subseteq> {Pause, Resume}"
      "session_trace S_Handshaking pre"
      using step.IH by blast
    then have "ev # es = (ev # post) @ HandshakeOk # pre" "set (ev # post) \<subseteq> {Pause, Resume}"
      "session_trace S_Handshaking pre"
      using 2 by simp_all
    then show ?thesis by blast
  qed
qed (simp add: is_operational_def)

section \<open>Properties\<close>

text \<open>C22: no audio without a handshake.  In every run of the session state machine that ends in an operational
  state (active or paused), the last accepted event that is not a pause or a resume is a successful handshake, taken
  in the handshaking state.\<close>

theorem operational_only_after_handshake:
  assumes "session_trace s es" and "is_operational s"
  shows "\<exists>post pre. es = post @ HandshakeOk # pre \<and> set post \<subseteq> {Pause, Resume} \<and>
           session_trace S_Handshaking pre"
  using assms by (rule operational_trace)

theorem operational_only_after_handshake_witness:
  "\<exists>post pre. [Pause, HandshakeOk, StartConnect] = post @ HandshakeOk # pre \<and>
     set post \<subseteq> {Pause, Resume} \<and> session_trace S_Handshaking pre"
proof -
  have "session_trace S_Handshaking [StartConnect]"
    by (rule session_trace.step [OF session_trace.start]) (simp add: transition_next_def)
  then have "session_trace S_Active [HandshakeOk, StartConnect]"
    by (rule session_trace.step) (simp add: transition_next_def)
  then have "session_trace S_Paused [Pause, HandshakeOk, StartConnect]"
    by (rule session_trace.step) (simp add: transition_next_def)
  then show ?thesis
    by (rule operational_only_after_handshake) (simp add: is_operational_def)
qed

text \<open>A session can always be closed and reconnected.  Whatever state a machine is in, the events reconnect,
  start-connect, close, close (those that do not apply are refused without effect) leave it closed, and a
  further reconnect, start-connect and successful handshake make it active again: no state is a trap.\<close>

lemma session_always_closable:
  "sm_state (session_run sm [Reconnect, StartConnect, Close, Close]) = S_Closed \<and>
   sm_state (session_run sm [Reconnect, StartConnect, Close, Close, Reconnect, StartConnect, HandshakeOk])
     = S_Active"
  by (cases "sm_state sm")
     (simp_all add: session_run_def SessionStateMachine_transition_def transition_next_def)

text \<open>State codes handed to the FFI are unambiguous.\<close>

lemma SessionState_from_code_iff: "SessionState_from_code c = Inr s \<longleftrightarrow> c = SessionState_code s"
proof
  show "c = SessionState_code s \<Longrightarrow> SessionState_from_code c = Inr s"
    by (cases s) (simp_all add: SessionState_from_code_def)
qed (auto simp: SessionState_from_code_def split: if_split_asm)

end
