(* ===== verification/Session.thy ===== *)
theory Session
  imports Packet Message Crypto Metrics JitterBuffer Fec Congestion SessionFsm
begin

unbundle bit_operations_syntax

text \<open>
  \<open>gravital-talk-transport/src/session.rs\<close>, all but the handshake (theory \<open>Handshake\<close>): the state of a
  session, sending audio, parity and control packets, dispatching received packets, the receive
  loop, push-to-talk, liveness and closing.  The network and the clock are an environment: a step
  sees one clock reading and the outcome of each send; the datagrams handed to the transport are
  appended to \<open>outbox\<close>.  A step is \<open>None\<close> when the code panics (only with overflow checks,
  see \<open>Metrics\<close>); otherwise it returns the code's \<open>Result\<close> and the new state.
\<close>

section \<open>Data\<close>

datatype TransportError =
    Io string
  | Timeout
  | TransportClosed
  | TransportBufferTooSmall nat nat
  | Protocol Error
  | HandshakeFailed string
  | InvalidState string
  | PeerClosedError string
  | AuthenticationFailed string

fun TransportError_code :: "TransportError \<Rightarrow> int" where
  "TransportError_code (Io _) = -1"
| "TransportError_code Timeout = -2"
| "TransportError_code TransportClosed = -3"
| "TransportError_code (TransportBufferTooSmall _ _) = -4"
| "TransportError_code (Protocol _) = -5"
| "TransportError_code (HandshakeFailed _) = -6"
| "TransportError_code (InvalidState _) = -7"
| "TransportError_code (PeerClosedError _) = -8"
| "TransportError_code (AuthenticationFailed _) = -9"

datatype SessionRole = Client | Server

record Config =
  cfg_sample_rate :: u32
  cfg_channels :: u8
  cfg_frame_duration_ms :: u8
  cfg_max_bitrate :: u32
  cfg_codec_preferred :: u8
  cfg_supported_codecs :: "u8 list"
  cfg_capability_flags :: u32
  cfg_jitter_buffer_ms :: u16
  cfg_mtu :: nat

definition Config_default :: Config where
  "Config_default =
     \<lparr>cfg_sample_rate = DEFAULT_SAMPLE_RATE, cfg_channels = 1,
      cfg_frame_duration_ms = DEFAULT_FRAME_DURATION_MS, cfg_max_bitrate = DEFAULT_MAX_BITRATE,
      cfg_codec_preferred = 0x01, cfg_supported_codecs = [0x01, 0x02], cfg_capability_flags = 0,
      cfg_jitter_buffer_ms = DEFAULT_JITTER_BUFFER_MS, cfg_mtu = DEFAULT_MTU\<rparr>"

record 'a Session =
  s_state :: SessionStateMachine
  s_metrics :: Metrics
  s_jitter :: JitterBuffer
  s_config :: Config
  s_peer :: "'a option"
  s_session_id :: u32
  tx_sequence :: u32
  audio_tx_seq :: u32
  last_rx :: u64
  negotiated_codec :: u8
  encrypt_key :: "bytes option"
  decrypt_key :: "bytes option"
  s_congestion :: CongestionController
  fec_enc :: FecEncoder
  fec_dec :: FecDecoder
  ptt_active :: bool
  peer_ptt_active :: bool
  local_ssrc :: u32
  s_closed :: bool
  outbox :: "('a \<times> bytes) list"

text \<open>What a step sees of the outside: the session clock in microseconds and what \<open>send_to\<close> answers.\<close>

record 'a Env =
  env_now :: u64
  env_send :: "bytes \<Rightarrow> 'a \<Rightarrow> TransportError + u64"

section \<open>Construction\<close>

definition next_power_of_two :: "nat \<Rightarrow> nat" where
  "next_power_of_two n = hd (filter (\<lambda>p. n \<le> p) (map (\<lambda>k. 2 ^ k) [0..<32]))"

definition jitter_slots :: "u16 \<Rightarrow> u8 \<Rightarrow> u32" where
  "jitter_slots buffer_ms frame_ms =
     (let frames = max (unat buffer_ms div max (unat frame_ms) 1) 1
      in of_nat (max (next_power_of_two frames) 16))"

definition Session_new :: "Config \<Rightarrow> 'a Session option" where
  "Session_new config =
     (let jitter_depth = jitter_slots (cfg_jitter_buffer_ms config) (cfg_frame_duration_ms config);
          max_br = cfg_max_bitrate config
      in case (JitterBuffer_new jitter_depth, CongestionController_new max_br CONGESTION_MIN_BITRATE max_br) of
           (Some jb, Some cc) \<Rightarrow>
             Some \<lparr>s_state = SessionStateMachine_new, s_metrics = Metrics_new, s_jitter = jb,
                   s_config = config, s_peer = None, s_session_id = 0, tx_sequence = 0,
                   audio_tx_seq = 0, last_rx = 0, negotiated_codec = 0, encrypt_key = None,
                   decrypt_key = None, s_congestion = cc, fec_enc = FecEncoder_new FEC_WINDOW,
                   fec_dec = FecDecoder_new FEC_WINDOW, ptt_active = False, peer_ptt_active = False,
                   local_ssrc = 0, s_closed = False, outbox = []\<rparr>
         | _ \<Rightarrow> None)"

section \<open>Sending\<close>

definition count_sent :: "u64 \<Rightarrow> 'a Session \<Rightarrow> 'a Session" where
  "count_sent n s = s\<lparr>s_metrics := (s_metrics s)\<lparr>counters := record_sent (counters (s_metrics s)) n\<rparr>\<rparr>"

definition count_received :: "u64 \<Rightarrow> 'a Session \<Rightarrow> 'a Session" where
  "count_received n s =
     s\<lparr>s_metrics := (s_metrics s)\<lparr>counters := record_received (counters (s_metrics s)) n\<rparr>\<rparr>"

definition count_integrity_error :: "'a Session \<Rightarrow> 'a Session" where
  "count_integrity_error s =
     s\<lparr>s_metrics := (s_metrics s)\<lparr>counters := record_integrity_error (counters (s_metrics s))\<rparr>\<rparr>"

text \<open>\<open>transport.send_to\<close> followed by \<open>record_sent\<close>.\<close>

definition transport_send :: "'a Env \<Rightarrow> 'a Session \<Rightarrow> bytes \<Rightarrow> 'a \<Rightarrow> (TransportError + unit) \<times> 'a Session" where
  "transport_send env s d peer =
     (let s = s\<lparr>outbox := outbox s @ [(peer, d)]\<rparr> in
      case env_send env d peer of
        Inl e \<Rightarrow> (Inl e, s)
      | Inr sent \<Rightarrow> (Inr (), count_sent sent s))"

text \<open>Encoding into a buffer of the configured MTU and sending what was written.\<close>

definition send_packet ::
  "'a Env \<Rightarrow> 'a Session \<Rightarrow> PacketHeader \<Rightarrow> bytes \<Rightarrow> 'a \<Rightarrow> (TransportError + unit) \<times> 'a Session" where
  "send_packet env s hdr pl peer =
     (case PacketBuilder_encode hdr pl (replicate (cfg_mtu (s_config s)) 0) of
        Inl e \<Rightarrow> (Inl (Protocol e), s)
      | Inr (buf, n) \<Rightarrow> transport_send env s (take n buf) peer)"

definition send_control ::
  "'a Env \<Rightarrow> 'a Session \<Rightarrow> MessageType \<Rightarrow> u32 \<Rightarrow> bytes \<Rightarrow> 'a \<Rightarrow> (TransportError + unit) \<times> 'a Session" where
  "send_control env s msg sid pl peer =
     (let seq = tx_sequence s;
          s = s\<lparr>tx_sequence := seq + 1\<rparr>;
          hdr = PacketHeader_new (MessageType_code msg) sid seq (env_now env)
      in send_packet env s hdr pl peer)"

definition header_bytes :: "PacketHeader \<Rightarrow> Error + bytes" where
  "header_bytes hdr = PacketHeader_encode hdr (replicate HEADER_SIZE 0)"

text \<open>The sealing shared by audio and parity packets: header as associated data, nonce from the packet's
  sequence number and the session, room for the tag appended.\<close>

definition seal_payload :: "aead \<Rightarrow> bytes \<Rightarrow> PacketHeader \<Rightarrow> bytes \<Rightarrow> Error + bytes" where
  "seal_payload A key hdr plain =
     (let nonce = make_nonce (sequence hdr) (session_id hdr) in
      case header_bytes hdr of
        Inl e \<Rightarrow> Inl e
      | Inr hdr_buf \<Rightarrow>
          (let plain_len = length plain; buf = plain @ replicate TAG_SIZE 0 in
           case encrypt_in_place A key nonce hdr_buf buf plain_len of
             Inl e \<Rightarrow> Inl e
           | Inr (buf, enc_len) \<Rightarrow> Inr (take enc_len buf)))"

definition sealed_header :: "'a Env \<Rightarrow> MessageType \<Rightarrow> u32 \<Rightarrow> u32 \<Rightarrow> PacketHeader" where
  "sealed_header env msg sid seq =
     \<lparr>version = 1, flags = ENCRYPTED, msg_type = MessageType_code msg, session_id = sid,
      sequence = seq, timestamp = env_now env\<rparr>"

definition send_fec_parity ::
  "aead \<Rightarrow> 'a Env \<Rightarrow> 'a Session \<Rightarrow> FecParity \<Rightarrow> 'a \<Rightarrow> u32 \<Rightarrow> (TransportError + unit) \<times> 'a Session" where
  "send_fec_parity A env s parity peer sid =
     (let fec_payload = be32 (par_seq_base parity) @ [par_window parity] @ par_payload parity;
          seq = tx_sequence s;
          s = s\<lparr>tx_sequence := seq + 1\<rparr>;
          hdr = sealed_header env AudioFec sid seq
      in case encrypt_key s of
           Some key \<Rightarrow>
             (case seal_payload A key hdr fec_payload of
                Inl e \<Rightarrow> (Inl (Protocol e), s)
              | Inr wire \<Rightarrow> send_packet env s hdr wire peer)
         | None \<Rightarrow> (Inr (), s))"

definition send_audio :: "aead \<Rightarrow> 'a Env \<Rightarrow> 'a Session \<Rightarrow> bytes \<Rightarrow> (TransportError + unit) \<times> 'a Session" where
  "send_audio A env s pl =
     (if sm_state (s_state s) \<noteq> S_Active then (Inl (InvalidState ''not active''), s)
      else case s_peer s of
        None \<Rightarrow> (Inl (InvalidState ''no peer''), s)
      | Some peer \<Rightarrow>
          (let audio_seq = audio_tx_seq s;
               seq = tx_sequence s;
               s = s\<lparr>audio_tx_seq := audio_seq + 1, tx_sequence := seq + 1\<rparr>;
               sid = s_session_id s;
               prefixed = be32 audio_seq @ pl;
               hdr = sealed_header env AudioFrame sid seq
           in case (case encrypt_key s of
                      Some key \<Rightarrow> (case seal_payload A key hdr prefixed of
                                     Inl e \<Rightarrow> Inl e | Inr wire \<Rightarrow> Inr (hdr, wire))
                    | None \<Rightarrow> Inr (hdr\<lparr>flags := Flags_empty\<rparr>, prefixed)) of
                Inl e \<Rightarrow> (Inl (Protocol e), s)
              | Inr (hdr, wire) \<Rightarrow>
                  (case send_packet env s hdr wire peer of
                     (Inl e, s) \<Rightarrow> (Inl e, s)
                   | (Inr _, s) \<Rightarrow>
                       (case FecEncoder_push (fec_enc s) audio_seq pl of
                          (enc, None) \<Rightarrow> (Inr (), s\<lparr>fec_enc := enc\<rparr>)
                        | (enc, Some parity) \<Rightarrow>
                            (Inr (), snd (send_fec_parity A env (s\<lparr>fec_enc := enc\<rparr>) parity peer sid))))))"

section \<open>Push-to-talk\<close>

definition ptt_press :: "'a Env \<Rightarrow> 'a Session \<Rightarrow> (TransportError + unit) \<times> 'a Session" where
  "ptt_press env s =
     (let s = s\<lparr>ptt_active := True\<rparr> in
      case s_peer s of
        None \<Rightarrow> (Inr (), s)
      | Some p \<Rightarrow>
          (let sid = s_session_id s in
           case send_control env s FloorRequest sid (be32 sid) p of
             (Inl e, s) \<Rightarrow> (Inl e, s)
           | (Inr _, s) \<Rightarrow> send_control env s ControlResume sid [] p))"

definition ptt_release :: "'a Env \<Rightarrow> 'a Session \<Rightarrow> (TransportError + unit) \<times> 'a Session" where
  "ptt_release env s =
     (let s = s\<lparr>ptt_active := False\<rparr> in
      case s_peer s of
        None \<Rightarrow> (Inr (), s)
      | Some p \<Rightarrow>
          (let sid = s_session_id s in
           case send_control env s FloorRelease sid (be32 sid) p of
             (Inl e, s) \<Rightarrow> (Inl e, s)
           | (Inr _, s) \<Rightarrow> send_control env s ControlPause sid [] p))"

section \<open>Receiving\<close>

text \<open>Opening a sealed payload with the session's own key and identifier; \<open>raw\<close> is the datagram.\<close>

definition open_payload :: "aead \<Rightarrow> 'a Session \<Rightarrow> bytes \<Rightarrow> PacketView \<Rightarrow> bytes \<Rightarrow> Error + bytes" where
  "open_payload A s key view raw =
     (let nonce = make_nonce (sequence (header view)) (s_session_id s);
          aad = take HEADER_SIZE raw
      in case decrypt_in_place A key nonce aad (payload view) (length (payload view)) of
           Inl e \<Rightarrow> Inl e
         | Inr (tmp, plain_len) \<Rightarrow> Inr (take plain_len tmp))"

text \<open>The plaintext of an audio packet; \<open>None\<close> when it is dropped as an integrity error.\<close>

definition audio_plaintext :: "aead \<Rightarrow> 'a Session \<Rightarrow> PacketView \<Rightarrow> bytes \<Rightarrow> bytes option" where
  "audio_plaintext A s view raw =
     (if Flags_contains (flags (header view)) ENCRYPTED
      then (case decrypt_key s of
              None \<Rightarrow> None
            | Some key \<Rightarrow> (case open_payload A s key view raw of Inl e \<Rightarrow> None | Inr pt \<Rightarrow> Some pt))
      else Some (payload view))"

text \<open>Recording a frame: loss, jitter, error-correction decoder and jitter buffer, in this order.\<close>

definition accept_audio :: "bool \<Rightarrow> 'a Env \<Rightarrow> 'a Session \<Rightarrow> u64 \<Rightarrow> u32 \<Rightarrow> bytes \<Rightarrow> 'a Session option" where
  "accept_audio oc env s ts audio_seq audio_payload =
     (case LossTracker_record oc (loss (s_metrics s)) audio_seq of
        None \<Rightarrow> None
      | Some l \<Rightarrow>
          (case JitterEstimator_record oc (jitter (s_metrics s)) ts (env_now env) of
             None \<Rightarrow> None
           | Some j \<Rightarrow>
               Some (s\<lparr>s_metrics := (s_metrics s)\<lparr>loss := l, jitter := j\<rparr>,
                       fec_dec := fst (FecDecoder_push_data (fec_dec s) audio_seq audio_payload),
                       s_jitter := fst (JitterBuffer_push (s_jitter s)
                         \<lparr>fr_sequence = audio_seq, fr_timestamp = ts, fr_payload = audio_payload\<rparr>)\<rparr>)))"

definition dispatch_audio ::
  "aead \<Rightarrow> bool \<Rightarrow> 'a Env \<Rightarrow> 'a Session \<Rightarrow> PacketView \<Rightarrow> bytes \<Rightarrow> 'a Session option" where
  "dispatch_audio A oc env s view raw =
     (case audio_plaintext A s view raw of
        None \<Rightarrow> Some (count_integrity_error s)
      | Some plaintext \<Rightarrow>
          (if length plaintext < 4 then Some (count_integrity_error s)
           else accept_audio oc env s (timestamp (header view)) (rd32 0 plaintext) (drop 4 plaintext)))"

definition dispatch_fec :: "aead \<Rightarrow> 'a Session \<Rightarrow> PacketView \<Rightarrow> bytes \<Rightarrow> 'a Session" where
  "dispatch_fec A s view raw =
     (if Flags_contains (flags (header view)) ENCRYPTED then
        (case decrypt_key s of
           None \<Rightarrow> s
         | Some key \<Rightarrow>
             (case open_payload A s key view raw of
                Inl e \<Rightarrow> count_integrity_error s
              | Inr fec_data \<Rightarrow>
                  (if length fec_data \<ge> 5 then
                     (let parity = \<lparr>par_seq_base = rd32 0 fec_data, par_window = fec_data ! 4,
                                    par_payload = drop 5 fec_data\<rparr>
                      in case FecDecoder_push_parity (fec_dec s) parity of
                           (dec, None) \<Rightarrow> s\<lparr>fec_dec := dec\<rparr>
                         | (dec, Some (rseq, rec_payload)) \<Rightarrow>
                             s\<lparr>fec_dec := dec,
                               s_jitter := fst (JitterBuffer_push (s_jitter s)
                                 \<lparr>fr_sequence = rseq, fr_timestamp = 0, fr_payload = rec_payload\<rparr>)\<rparr>)
                   else s)))
      else s)"

definition transition_state :: "SessionEvent \<Rightarrow> 'a Session \<Rightarrow> 'a Session" where
  "transition_state ev s = s\<lparr>s_state := snd (SessionStateMachine_transition (s_state s) ev)\<rparr>"

definition dispatch_packet ::
  "aead \<Rightarrow> bool \<Rightarrow> 'a Env \<Rightarrow> 'a Session \<Rightarrow> PacketView \<Rightarrow> bytes \<Rightarrow>
   ((TransportError + unit) \<times> 'a Session) option" where
  "dispatch_packet A oc env s view raw =
     (case MessageType_from_code (msg_type (header view)) of
        Inl _ \<Rightarrow> Some (Inr (), count_integrity_error s)
      | Inr AudioFrame \<Rightarrow>
          (case dispatch_audio A oc env s view raw of None \<Rightarrow> None | Some s \<Rightarrow> Some (Inr (), s))
      | Inr Heartbeat \<Rightarrow>
          (case s_peer s of
             None \<Rightarrow> Some (Inr (), s)
           | Some p \<Rightarrow> Some (send_control env s HeartbeatAck (s_session_id s) [] p))
      | Inr AudioFec \<Rightarrow> Some (Inr (), dispatch_fec A s view raw)
      | Inr ControlPause \<Rightarrow> Some (Inr (), s\<lparr>peer_ptt_active := False\<rparr>)
      | Inr ControlResume \<Rightarrow> Some (Inr (), s\<lparr>peer_ptt_active := True\<rparr>)
      | Inr FloorRequest \<Rightarrow>
          (if \<not> ptt_active s
           then (case s_peer s of
                   None \<Rightarrow> Some (Inr (), s)
                 | Some p \<Rightarrow> Some (Inr (), snd (send_control env s FloorGrant (s_session_id s)
                                                   (be32 (s_session_id s)) p)))
           else Some (Inr (), s))
      | Inr FloorDeny \<Rightarrow> Some (Inr (), s\<lparr>ptt_active := False\<rparr>)
      | Inr FloorRelease \<Rightarrow> Some (Inr (), s\<lparr>peer_ptt_active := False\<rparr>)
      | Inr ControlBitrate \<Rightarrow>
          (case ControlBitrateMsg_decode (payload view) of
             Inl _ \<Rightarrow> Some (Inr (), s)
           | Inr msg \<Rightarrow>
               (case set_bitrate (s_congestion s) (cb_requested_bitrate msg) of
                  None \<Rightarrow> None
                | Some cc \<Rightarrow> Some (Inr (), s\<lparr>s_congestion := cc\<rparr>)))
      | Inr CloseMsg \<Rightarrow> Some (Inl (PeerClosedError ''remote close''), transition_state PeerClosed s)
      | Inr _ \<Rightarrow> Some (Inr (), s))"

section \<open>Liveness, polling and the receive loop\<close>

definition send_heartbeat :: "'a Env \<Rightarrow> 'a Session \<Rightarrow> (TransportError + unit) \<times> 'a Session" where
  "send_heartbeat env s =
     (case s_peer s of
        None \<Rightarrow> (Inr (), s)
      | Some peer \<Rightarrow> send_control env s Heartbeat (s_session_id s) [] peer)"

text \<open>The jitter argument of the congestion update is unused by the code.\<close>

definition check_liveness :: "'a Env \<Rightarrow> 'a Session \<Rightarrow> ((TransportError + unit) \<times> 'a Session) option" where
  "check_liveness env s =
     (let now = env_now env; last = last_rx s in
      if last \<noteq> 0 \<and> now - min last now > HEARTBEAT_TIMEOUT_MS * 1000
      then Some (Inl (PeerClosedError ''heartbeat timeout''), transition_state PeerTimeout s)
      else let loss_rate = loss_percent (loss (s_metrics s)) / 100;
               rtt_us = (case rtt_current_us (rtt (s_metrics s)) of None \<Rightarrow> 0 | Some v \<Rightarrow> ucast v);
               jitter_us = ucast (jitter_us_q4 (jitter (s_metrics s))) div 16
           in case CongestionController_update (s_congestion s) loss_rate rtt_us jitter_us of
                None \<Rightarrow> None
              | Some cc \<Rightarrow> Some (Inr (), s\<lparr>s_congestion := cc\<rparr>))"

text \<open>What \<open>transport.recv\<close> under a timeout can answer; a datagram is already cut to the buffer.\<close>

datatype 'a recv_event = RecvTimeout | RecvError TransportError | RecvData bytes 'a

definition handle_datagram ::
  "aead \<Rightarrow> bool \<Rightarrow> 'a Env \<Rightarrow> 'a Session \<Rightarrow> bytes \<Rightarrow> ((TransportError + unit) \<times> 'a Session) option" where
  "handle_datagram A oc env s d =
     (let s = count_received (of_nat (length d)) s in
      case PacketView_decode d of
        Inl e \<Rightarrow> Some (Inr (), count_integrity_error s)
      | Inr view \<Rightarrow> dispatch_packet A oc env (s\<lparr>last_rx := env_now env\<rparr>) view d)"

definition poll_once ::
  "aead \<Rightarrow> bool \<Rightarrow> 'a Env \<Rightarrow> 'a Session \<Rightarrow> 'a recv_event \<Rightarrow> ((TransportError + unit) \<times> 'a Session) option" where
  "poll_once A oc env s ev =
     (case ev of
        RecvTimeout \<Rightarrow>
          (if sm_state (s_state s) = S_Active \<or> sm_state (s_state s) = S_Paused
           then (case send_heartbeat env s of
                   (Inl e, s) \<Rightarrow> Some (Inl e, s)
                 | (Inr _, s) \<Rightarrow> check_liveness env s)
           else Some (Inr (), s))
      | RecvError e \<Rightarrow> Some (Inl e, s)
      | RecvData d from \<Rightarrow> handle_datagram A oc env s d)"

text \<open>The loop of \<open>recv_audio\<close>: one environment per round, and the answers of \<open>recv\<close>, of which a
  round that skips a gap uses none.  The result is \<open>None\<close> while the caller still waits.\<close>

fun recv_audio_loop ::
  "aead \<Rightarrow> bool \<Rightarrow> u64 \<Rightarrow> u64 \<Rightarrow> 'a Session \<Rightarrow> 'a Env list \<Rightarrow> 'a recv_event list \<Rightarrow>
   ((TransportError + Frame) option \<times> 'a Session) option" where
  "recv_audio_loop A oc skip_us deadline_us s [] evs = Some (None, s)"
| "recv_audio_loop A oc skip_us deadline_us s (env # envs) evs =
     (case pop_with_deadline (s_jitter s) (env_now env) deadline_us of
        (jb, Some frame) \<Rightarrow> Some (Some (Inr frame), s\<lparr>s_jitter := jb\<rparr>)
      | (jb, None) \<Rightarrow>
          (let s = s\<lparr>s_jitter := jb\<rparr> in
           if env_now env \<ge> deadline_us
           then recv_audio_loop A oc skip_us (env_now env + skip_us) s envs evs
           else case evs of
             [] \<Rightarrow> recv_audio_loop A oc skip_us deadline_us s envs []
           | RecvTimeout # evs \<Rightarrow> recv_audio_loop A oc skip_us deadline_us s envs evs
           | RecvError e # evs \<Rightarrow> Some (Some (Inl e), s)
           | RecvData d from # evs \<Rightarrow>
               (case handle_datagram A oc env s d of
                  None \<Rightarrow> None
                | Some (Inl e, s) \<Rightarrow> Some (Some (Inl e), s)
                | Some (Inr _, s) \<Rightarrow> recv_audio_loop A oc skip_us deadline_us s envs evs)))"

definition recv_audio ::
  "aead \<Rightarrow> bool \<Rightarrow> u64 \<Rightarrow> 'a Session \<Rightarrow> 'a Env list \<Rightarrow> 'a recv_event list \<Rightarrow>
   ((TransportError + Frame) option \<times> 'a Session) option" where
  "recv_audio A oc now s envs evs =
     (let skip_us = ucast (cfg_jitter_buffer_ms (s_config s)) * 3 * 1000
      in recv_audio_loop A oc skip_us (now + skip_us) s envs evs)"

definition close_session :: "'a Env \<Rightarrow> 'a Session \<Rightarrow> (TransportError + unit) \<times> 'a Session" where
  "close_session env s =
     (let s = s\<lparr>s_closed := True, encrypt_key := None, decrypt_key := None\<rparr>;
          s = (case s_peer s of
                 None \<Rightarrow> s
               | Some p \<Rightarrow> snd (send_control env s CloseMsg (s_session_id s) [] p));
          s = transition_state Close s;
          s = transition_state Close s
      in (Inr (), s))"

text \<open>A frame that is ready in the jitter buffer is returned without waiting.\<close>

lemma recv_audio_ready:
  "JitterBuffer_pop (s_jitter s) = (jb, Some frame) \<Longrightarrow>
   recv_audio A oc now s (env # envs) evs = Some (Some (Inr frame), s\<lparr>s_jitter := jb\<rparr>)"
  by (simp add: recv_audio_def pop_with_deadline_def Let_def)

section \<open>What sending may change\<close>

text \<open>Sending changes the sequence counter, the counters of sent packets and the outbox, which only grows.\<close>

definition sends :: "'a Session \<Rightarrow> 'a Session \<Rightarrow> bool" where
  "sends s s' \<longleftrightarrow>
     s' = s\<lparr>s_metrics := s_metrics s', tx_sequence := tx_sequence s', outbox := outbox s'\<rparr> \<and>
     (\<exists>ds. outbox s' = outbox s @ ds)"

lemma sendsI:
  "sends s (s\<lparr>s_metrics := m, tx_sequence := n, outbox := outbox s @ ds\<rparr>)"
  by (simp add: sends_def)

lemma sends_refl [simp]: "sends s s"
  by (simp add: sends_def)

lemma sends_trans:
  assumes "sends s t" and "sends t u"
  shows "sends s u"
proof -
  obtain ds ds' where "outbox t = outbox s @ ds" "outbox u = outbox t @ ds'"
    using assms by (auto simp: sends_def)
  moreover have "u = s\<lparr>s_metrics := s_metrics u, tx_sequence := tx_sequence u, outbox := outbox u\<rparr>"
    using assms unfolding sends_def by (cases s; cases t; cases u) simp
  ultimately show ?thesis
    unfolding sends_def by simp
qed

lemma sendsD:
  assumes "sends s s'"
  shows "s_state s' = s_state s" "s_jitter s' = s_jitter s" "s_config s' = s_config s" "s_peer s' = s_peer s"
    "s_session_id s' = s_session_id s" "audio_tx_seq s' = audio_tx_seq s" "last_rx s' = last_rx s"
    "encrypt_key s' = encrypt_key s" "decrypt_key s' = decrypt_key s" "fec_enc s' = fec_enc s"
    "fec_dec s' = fec_dec s" "ptt_active s' = ptt_active s" "peer_ptt_active s' = peer_ptt_active s"
    "s_congestion s' = s_congestion s" "s_closed s' = s_closed s" "negotiated_codec s' = negotiated_codec s"
    "local_ssrc s' = local_ssrc s"
  using assms unfolding sends_def by (cases s; cases s'; simp)+

lemma transport_send_sends: "sends s (snd (transport_send env s d p))"
  by (cases s) (simp add: transport_send_def count_sent_def Let_def sends_def split: sum.splits)

lemma send_packet_sends: "sends s (snd (send_packet env s hdr pl p))"
  using transport_send_sends by (auto simp: send_packet_def split: sum.splits)

lemma sends_bump: "sends s (s\<lparr>tx_sequence := n\<rparr>)"
  by (cases s) (simp add: sends_def)

lemma send_control_sends: "sends s (snd (send_control env s msg sid pl p))"
  unfolding send_control_def Let_def by (rule sends_trans [OF sends_bump send_packet_sends])

lemma send_fec_parity_sends: "sends s (snd (send_fec_parity A env s parity p sid))"
  using sends_trans [OF sends_bump send_packet_sends] sends_bump
  by (auto simp: send_fec_parity_def Let_def split: option.splits sum.splits)

text \<open>What goes to the transport is the layout of the packet, whenever it fits.\<close>

lemma send_packet_eq:
  "send_packet env s hdr pl p =
     (if length pl > 1176 then (Inl (Protocol PayloadTooLarge), s)
      else if cfg_mtu (s_config s) < length pl + 28 then (Inl (Protocol BufferTooSmall), s)
      else transport_send env s (packet_bytes hdr pl) p)"
  by (simp add: send_packet_def PacketBuilder_encode_eq)

lemma send_packet_outbox:
  assumes "send_packet env s hdr pl p = (Inr (), s')"
  shows "length pl \<le> 1176 \<and> outbox s' = outbox s @ [(p, packet_bytes hdr pl)]"
  using assms
  by (auto simp: send_packet_eq transport_send_def count_sent_def Let_def split: if_splits sum.splits)

section \<open>Sealing and opening\<close>

lemma header_bytes_eq: "header_bytes hdr = Inr (header_layout hdr)"
  by (simp add: header_bytes_def PacketHeader_encode_eq size_consts)

lemma take_packet_bytes: "take 24 (packet_bytes hdr pl) = header_layout hdr"
  by (simp add: packet_bytes_def packet_body_def)

lemma seal_payload_eq:
  assumes "aead_ok A"
  shows "seal_payload A key hdr plain =
    (case aead_encrypt A key (make_nonce (sequence hdr) (session_id hdr)) (header_layout hdr) plain of
       None \<Rightarrow> Inl DecryptionFailed
     | Some (ct, tag) \<Rightarrow> Inr (ct @ tag))"
  using encrypt_in_place_eq [OF assms, of plain "replicate 16 0"]
  by (auto simp: seal_payload_def Let_def header_bytes_eq TAG_SIZE_def dest: aead_encryptD [OF assms]
      split: option.splits)

lemma open_sealed:
  assumes "aead_ok A" and "seal_payload A key hdr plain = Inr wire" and "s_session_id r = session_id hdr"
  shows "open_payload A r key \<lparr>header = hdr, payload = wire\<rparr> (packet_bytes hdr wire) = Inr plain"
proof -
  obtain ct tag where enc: "aead_encrypt A key (make_nonce (sequence hdr) (session_id hdr)) (header_layout hdr) plain
      = Some (ct, tag)" and wire: "wire = ct @ tag"
    using assms(2) by (auto simp: seal_payload_eq [OF assms(1)] split: option.splits)
  note d = aead_encryptD [OF assms(1) enc]
  then show ?thesis
    using decrypt_in_place_eq [OF assms(1), of tag key _ _ ct "[]"] assms(3)
    by (simp add: open_payload_def Let_def wire take_packet_bytes size_consts)
qed

section \<open>The audio path end to end\<close>

text \<open>The frame a session extracts from a datagram: \<open>None\<close> when it is not an acceptable audio packet.\<close>

definition frame_of :: "aead \<Rightarrow> 'a Session \<Rightarrow> bytes \<Rightarrow> Frame option" where
  "frame_of A r d =
     (case PacketView_decode d of
        Inl _ \<Rightarrow> None
      | Inr view \<Rightarrow>
          (if msg_type (header view) \<noteq> MessageType_code AudioFrame then None
           else case audio_plaintext A r view d of
             None \<Rightarrow> None
           | Some pt \<Rightarrow> (if length pt < 4 then None
                        else Some \<lparr>fr_sequence = rd32 0 pt, fr_timestamp = timestamp (header view),
                                   fr_payload = drop 4 pt\<rparr>)))"

lemma unchecked_metrics_total:
  "\<exists>t'. LossTracker_record False t seq = Some t'" "\<exists>e'. JitterEstimator_record False e a b = Some e'"
  by (auto simp: LossTracker_record_def JitterEstimator_record_def i64_sub_def u64_shl_def i32_neg_def Let_def
      split: if_splits option.splits)

lemma audio_plaintext_cong:
  "decrypt_key r' = decrypt_key r \<Longrightarrow> s_session_id r' = s_session_id r \<Longrightarrow>
     audio_plaintext A r' view d = audio_plaintext A r view d"
  by (simp add: audio_plaintext_def open_payload_def split: option.splits)

lemma frame_of_cong:
  "decrypt_key r' = decrypt_key r \<Longrightarrow> s_session_id r' = s_session_id r \<Longrightarrow> frame_of A r' d = frame_of A r d"
  by (simp add: frame_of_def audio_plaintext_cong [of r' r] split: sum.splits)

text \<open>A received audio packet ends up in the jitter buffer; keys and session stay.\<close>

lemma handle_audio:
  assumes "frame_of A r d = Some f"
  shows "\<exists>r'. handle_datagram A False env r d = Some (Inr (), r') \<and>
    s_jitter r' = fst (JitterBuffer_push (s_jitter r) f) \<and> decrypt_key r' = decrypt_key r \<and>
    s_session_id r' = s_session_id r"
proof -
  obtain view pt where v: "PacketView_decode d = Inr view" "msg_type (header view) = MessageType_code AudioFrame"
    and pt: "audio_plaintext A r view d = Some pt" "\<not> length pt < 4"
    and f: "f = \<lparr>fr_sequence = rd32 0 pt, fr_timestamp = timestamp (header view), fr_payload = drop 4 pt\<rparr>"
    using assms by (auto simp: frame_of_def split: sum.splits if_splits option.splits)
  let ?r = "(count_received (of_nat (length d)) r)\<lparr>last_rx := env_now env\<rparr>"
  have same: "s_jitter ?r = s_jitter r" "decrypt_key ?r = decrypt_key r" "s_session_id ?r = s_session_id r"
    by (simp_all add: count_received_def)
  have "audio_plaintext A ?r view d = Some pt"
    using pt(1) audio_plaintext_cong [OF same(2,3)] by metis
  moreover obtain l where l: "LossTracker_record False (loss (s_metrics ?r)) (rd32 0 pt) = Some l"
    using unchecked_metrics_total(1) by blast
  moreover obtain j where j: "JitterEstimator_record False (jitter (s_metrics ?r)) (timestamp (header view))
      (env_now env) = Some j"
    using unchecked_metrics_total(2) by blast
  ultimately show ?thesis
    using v pt(2) f same MessageType_from_code_code [of AudioFrame]
    by (simp add: handle_datagram_def dispatch_packet_def dispatch_audio_def accept_audio_def Let_def)
qed

lemma ENCRYPTED_contains [simp]: "Flags_contains ENCRYPTED ENCRYPTED" "\<not> Flags_contains Flags_empty ENCRYPTED"
  by (simp_all add: Flags_contains_def ENCRYPTED_def Flags_empty_def)

lemma sealed_header_wf [simp]: "header_wf (sealed_header env msg sid seq)"
  by (simp add: sealed_header_def header_wf_def PROTOCOL_VERSION_def)

text \<open>Whatever \<open>send_audio\<close> does, the outbox only grows.\<close>

lemma send_audio_outbox: "\<exists>ds. outbox (snd (send_audio A env s pl)) = outbox s @ ds"
proof -
  have grows: "\<exists>ds. outbox t' = outbox t @ ds" if "sends t t'" for t t' :: "'a Session"
    using that by (simp add: sends_def)
  let ?s = "s\<lparr>audio_tx_seq := audio_tx_seq s + 1, tx_sequence := tx_sequence s + 1\<rparr>"
  have packet: "\<exists>ds. outbox s1 = outbox s @ ds" if "send_packet env ?s hdr wire p = (res, s1)" for hdr wire p res s1
    using grows [OF send_packet_sends [of ?s env hdr wire p]] that by simp
  have parity: "\<exists>ds. outbox (snd (send_fec_parity A env (t\<lparr>fec_enc := enc\<rparr>) par p sid)) = outbox t @ ds" for t enc par p sid
    using grows [OF send_fec_parity_sends [of "t\<lparr>fec_enc := enc\<rparr>" A env par p sid]] by simp
  have both: "\<exists>ds. outbox (snd (send_fec_parity A env (s1\<lparr>fec_enc := enc\<rparr>) par p sid)) = outbox s @ ds"
    if "send_packet env ?s hdr wire p = (res, s1)" for hdr wire p res s1 enc par sid
    using packet [OF that] parity [where t = s1 and enc = enc and par = par and p = p and sid = sid] by auto
  show ?thesis
    using packet both
    by (auto simp: send_audio_def Let_def split: option.splits sum.splits prod.splits)
qed

lemma send_audio_identity:
  "s_peer (snd (send_audio A env s pl)) = s_peer s" "s_config (snd (send_audio A env s pl)) = s_config s"
  "s_state (snd (send_audio A env s pl)) = s_state s" "ptt_active (snd (send_audio A env s pl)) = ptt_active s"
proof -
  let ?same = "\<lambda>s t. s_peer t = s_peer s \<and> s_config t = s_config s \<and> s_state t = s_state s \<and> ptt_active t = ptt_active s"
  let ?s = "s\<lparr>audio_tx_seq := audio_tx_seq s + 1, tx_sequence := tx_sequence s + 1\<rparr>"
  have packet: "?same s s1" if "send_packet env ?s hdr wire p = (res, s1)" for hdr wire p res s1
    using sendsD(1,3,4,12) [OF send_packet_sends [of ?s env hdr wire p]] that by simp
  have parity: "?same t (snd (send_fec_parity A env (t\<lparr>fec_enc := enc\<rparr>) par p sid))" for t enc par p sid
    using sendsD(1,3,4,12) [OF send_fec_parity_sends [of "t\<lparr>fec_enc := enc\<rparr>" A env par p sid]] by simp
  have "?same s (snd (send_audio A env s pl))"
    using packet parity by (auto simp: send_audio_def Let_def split: option.splits sum.splits prod.splits)
  then show "s_peer (snd (send_audio A env s pl)) = s_peer s" "s_config (snd (send_audio A env s pl)) = s_config s"
    "s_state (snd (send_audio A env s pl)) = s_state s" "ptt_active (snd (send_audio A env s pl)) = ptt_active s"
    by simp_all
qed

text \<open>A successful \<open>send_audio\<close> hands the transport a datagram from which a session with the matching key
  and identifier extracts the payload under the sender's audio number.\<close>

lemma send_audio_frame:
  assumes ok: "aead_ok A" and sent: "send_audio A env s pl = (Inr (), s')"
    and keys: "encrypt_key s = Some k" "decrypt_key r = Some k" "s_session_id r = s_session_id s"
  shows "\<exists>p d rest. outbox s' = outbox s @ (p, d) # rest \<and> s_peer s = Some p \<and>
    frame_of A r d = Some \<lparr>fr_sequence = audio_tx_seq s, fr_timestamp = env_now env, fr_payload = pl\<rparr> \<and>
    audio_tx_seq s' = audio_tx_seq s + 1 \<and> encrypt_key s' = encrypt_key s \<and> s_session_id s' = s_session_id s"
proof -
  let ?hdr = "sealed_header env AudioFrame (s_session_id s) (tx_sequence s)"
  let ?s = "s\<lparr>audio_tx_seq := audio_tx_seq s + 1, tx_sequence := tx_sequence s + 1\<rparr>"
  let ?plain = "be32 (audio_tx_seq s) @ pl"
  obtain p where p: "s_peer s = Some p" and active: "sm_state (s_state s) = S_Active"
    using sent by (auto simp: send_audio_def split: if_splits option.splits)
  obtain wire where wire: "seal_payload A k ?hdr ?plain = Inr wire"
    using sent p active keys(1)
    by (cases "seal_payload A k ?hdr ?plain") (auto simp: send_audio_def Let_def)
  obtain s1 where s1: "send_packet env ?s ?hdr wire p = (Inr (), s1)"
    using sent p active keys(1) wire
    by (cases "send_packet env ?s ?hdr wire p") (auto simp: send_audio_def Let_def split: sum.splits)
  have out1: "length wire \<le> 1176" "outbox s1 = outbox s @ [(p, packet_bytes ?hdr wire)]"
    using send_packet_outbox [OF s1] by simp_all
  have sends1: "sends ?s s1"
    using send_packet_sends [of ?s env ?hdr wire p] s1 by simp
  obtain enc par where "FecEncoder_push (fec_enc s1) (audio_tx_seq s) pl = (enc, par)"
    by force
  then have sends': "sends (s1\<lparr>fec_enc := enc\<rparr>) s'"
    using sent p active keys(1) wire s1 send_fec_parity_sends
    by (cases par) (auto simp: send_audio_def Let_def)
  then obtain rest where "outbox s' = outbox s1 @ rest"
    by (auto simp: sends_def)
  moreover have "PacketView_decode (packet_bytes ?hdr wire) = Inr \<lparr>header = ?hdr, payload = wire\<rparr>"
    using out1(1) by (simp add: PacketView_decode_packet_bytes)
  moreover have "open_payload A r k \<lparr>header = ?hdr, payload = wire\<rparr> (packet_bytes ?hdr wire) = Inr ?plain"
    using keys(3) by (intro open_sealed [OF ok wire]) (simp add: sealed_header_def)
  ultimately have "outbox s' = outbox s @ (p, packet_bytes ?hdr wire) # rest"
    and "frame_of A r (packet_bytes ?hdr wire) =
      Some \<lparr>fr_sequence = audio_tx_seq s, fr_timestamp = env_now env, fr_payload = pl\<rparr>"
    using out1(2) keys(2) by (simp_all add: frame_of_def audio_plaintext_def sealed_header_def rd_be)
  then show ?thesis
    using p sendsD [OF sends'] sendsD [OF sends1] by auto
qed

text \<open>A sender that sends frames one after the other (\<open>None\<close> when one fails) and the audio datagrams it
  hands to the transport; a receiver to which datagrams are delivered one after the other.\<close>

primrec send_stream :: "aead \<Rightarrow> 'a Session \<Rightarrow> ('a Env \<times> bytes) list \<Rightarrow> (bytes list \<times> 'a Session) option" where
  "send_stream A s [] = Some ([], s)"
| "send_stream A s (x # xs) =
     (case send_audio A (fst x) s (snd x) of
        (Inl _, _) \<Rightarrow> None
      | (Inr _, s') \<Rightarrow>
          (case send_stream A s' xs of
             None \<Rightarrow> None
           | Some (ds, s'') \<Rightarrow> Some (snd (outbox s' ! length (outbox s)) # ds, s'')))"

primrec deliver :: "aead \<Rightarrow> 'a Session \<Rightarrow> ('a Env \<times> bytes) list \<Rightarrow> 'a Session option" where
  "deliver A r [] = Some r"
| "deliver A r (x # xs) =
     (case handle_datagram A False (fst x) r (snd x) of
        Some (Inr _, r') \<Rightarrow> deliver A r' xs
      | _ \<Rightarrow> None)"

primrec stream_frames :: "u32 \<Rightarrow> ('a Env \<times> bytes) list \<Rightarrow> Frame list" where
  "stream_frames n [] = []"
| "stream_frames n (x # xs) =
     \<lparr>fr_sequence = n, fr_timestamp = env_now (fst x), fr_payload = snd x\<rparr> # stream_frames (n + 1) xs"

lemma stream_frames_simps [simp]:
  "length (stream_frames n xs) = length xs" "map (\<lambda>f. Some (fr_payload f)) (stream_frames n xs) = map (\<lambda>x. Some (snd x)) xs"
  by (induction xs arbitrary: n) simp_all

lemma stream_frames_seq: "i < length xs \<Longrightarrow> fr_sequence (stream_frames n xs ! i) = n + of_nat i"
  by (induction xs arbitrary: n i) (auto simp: nth_Cons split: nat.splits)

lemma send_stream_frames:
  assumes "aead_ok A"
  shows "send_stream A s xs = Some (ds, s') \<Longrightarrow> encrypt_key s = Some k \<Longrightarrow> decrypt_key r = Some k \<Longrightarrow>
    s_session_id r = s_session_id s \<Longrightarrow> map (frame_of A r) ds = map Some (stream_frames (audio_tx_seq s) xs)"
proof (induction xs arbitrary: s ds)
  case (Cons x xs)
  obtain s1 where s1: "send_audio A (fst x) s (snd x) = (Inr (), s1)"
    using Cons.prems(1) by (auto split: prod.splits sum.splits)
  obtain ds1 where ds1: "send_stream A s1 xs = Some (ds1, s')" "ds = snd (outbox s1 ! length (outbox s)) # ds1"
    using Cons.prems(1) s1 by (auto split: option.splits)
  from send_audio_frame [OF assms s1 Cons.prems(2-4)]
  obtain p d rest where d: "outbox s1 = outbox s @ (p, d) # rest"
    "frame_of A r d = Some \<lparr>fr_sequence = audio_tx_seq s, fr_timestamp = env_now (fst x), fr_payload = snd x\<rparr>"
    "audio_tx_seq s1 = audio_tx_seq s + 1" "encrypt_key s1 = encrypt_key s" "s_session_id s1 = s_session_id s"
    by blast
  show ?case
    using Cons.IH [OF ds1(1)] Cons.prems d ds1(2) by simp
qed simp

lemma deliver_frames:
  "\<forall>x \<in> set xs. frame_of A r (snd x) \<noteq> None \<Longrightarrow>
     \<exists>r'. deliver A r xs = Some r' \<and>
       s_jitter r' = fst (push_all JitterBuffer_push (s_jitter r) (map (the \<circ> frame_of A r \<circ> snd) xs))"
proof (induction xs arbitrary: r)
  case (Cons x xs)
  obtain f where f: "frame_of A r (snd x) = Some f"
    using Cons.prems by auto
  from handle_audio [OF f, of "fst x"]
  obtain r1 where r1: "handle_datagram A False (fst x) r (snd x) = Some (Inr (), r1)"
    "s_jitter r1 = fst (JitterBuffer_push (s_jitter r) f)" "decrypt_key r1 = decrypt_key r"
    "s_session_id r1 = s_session_id r"
    by blast
  have same: "frame_of A r1 = frame_of A r"
    using frame_of_cong [OF r1(3,4)] by blast
  obtain r' where r': "deliver A r1 xs = Some r'"
    "s_jitter r' = fst (push_all JitterBuffer_push (s_jitter r1) (map (the \<circ> frame_of A r \<circ> snd) xs))"
    using Cons.IH [of r1] Cons.prems unfolding same by (auto simp: comp_def)
  then show ?case
    using r1 f by (simp add: prod.case_eq_if comp_def)
qed simp

text \<open>A stream of sealed frames through any reordering and duplication that starts with the first one.\<close>

lemma stream_delivered:
  assumes "aead_ok A" and "encrypt_key s = Some k" and "decrypt_key r = Some k"
    and "s_session_id r = s_session_id s" and "JitterBuffer_new cap = Some (s_jitter r)"
    and "send_stream A s xs = Some (ds, s')" and "xs \<noteq> []" and "length xs \<le> unat cap"
    and "arr \<noteq> []" and "snd (hd arr) = hd ds" and "set (map snd arr) = set ds"
  shows "\<exists>r'. deliver A r arr = Some r' \<and>
    pop_n JitterBuffer_pop (s_jitter r') (length xs) = map Some (stream_frames (audio_tx_seq s) xs)"
proof -
  let ?F = "the \<circ> frame_of A r" and ?fs = "stream_frames (audio_tx_seq s) xs"
  have frames: "map (frame_of A r) ds = map Some ?fs"
    using send_stream_frames [OF assms(1,6,2-4)] .
  then have fs: "map ?F ds = ?fs"
    by (metis list.map_comp list.map_id0 id_apply comp_apply option.sel map_map map_idI)
  have some: "\<forall>d \<in> set ds. frame_of A r d \<noteq> None"
  proof
    fix d assume "d \<in> set ds"
    then have "frame_of A r d \<in> set (map Some ?fs)"
      unfolding frames [symmetric] by simp
    then show "frame_of A r d \<noteq> None" by auto
  qed
  have "\<forall>x \<in> set arr. frame_of A r (snd x) \<noteq> None"
    using some assms(11) by auto
  from deliver_frames [OF this] obtain r' where r': "deliver A r arr = Some r'"
    "s_jitter r' = fst (push_all JitterBuffer_push (s_jitter r) (map (?F \<circ> snd) arr))"
    by blast
  obtain x arr' where arr: "arr = x # arr'"
    using assms(9) by (cases arr) auto
  have ne: "?fs \<noteq> []" "ds \<noteq> []"
    using assms(7) fs by (auto dest: arg_cong [of _ _ length])
  have hd: "?F (snd x) = hd ?fs"
    using assms(10) arr ne(2) by (simp flip: fs add: hd_map)
  have set_eq: "set (hd ?fs # map (?F \<circ> snd) arr') = set ?fs"
  proof -
    have "set (map (?F \<circ> snd) arr) = ?F ` set ds"
      unfolding assms(11) [symmetric] by (simp add: image_image)
    then show ?thesis
      using hd by (simp add: arr fs [symmetric])
  qed
  have seqs: "\<forall>i < length ?fs. fr_sequence (?fs ! i) = audio_tx_seq s + of_nat i"
    by (simp add: stream_frames_seq)
  have "pop_n JitterBuffer_pop (s_jitter r') (length ?fs) = map Some ?fs"
    using reorder_new [OF assms(5) ne(1) _ seqs set_eq] assms(8) hd by (simp add: r'(2) arr)
  then show ?thesis
    using r'(1) by simp
qed

section \<open>Properties\<close>

text \<open>Audio end to end.  A sender sends payloads one after the other, and every send succeeds.  A receiver
  that shares the key and the session identifier gets the resulting datagrams, the first one first and the others in
  any order with any duplicates.  If there are no more payloads than jitter-buffer slots, every datagram is accepted
  without error and playing the buffer back delivers exactly the payloads, in the order they were sent.\<close>

lemma audio_stream_end_to_end:
  assumes "aead_ok A" and "encrypt_key s = Some k" and "decrypt_key r = Some k"
    and "s_session_id r = s_session_id s" and "JitterBuffer_new cap = Some (s_jitter r)"
    and "send_stream A s xs = Some (ds, s')" and "xs \<noteq> []" and "length xs \<le> unat cap"
    and "arr \<noteq> []" and "snd (hd arr) = hd ds" and "set (map snd arr) = set ds"
  shows "\<exists>r'. deliver A r arr = Some r' \<and>
    map (map_option fr_payload) (pop_n JitterBuffer_pop (s_jitter r') (length xs)) = map (Some \<circ> snd) xs"
  using stream_delivered [OF assms] by (auto simp: comp_def)

text \<open>Sending succeeds on an active session with a peer when the frame fits, the cipher works and the transport
  takes the datagram.\<close>

lemma send_audio_succeeds:
  assumes "aead_ok A" and "sm_state (s_state s) = S_Active" and "s_peer s = Some p" and "encrypt_key s = Some k"
    and "\<forall>n a m. aead_encrypt A k n a m \<noteq> None" and "\<forall>d. \<exists>n. env_send env d p = Inr n"
    and "length pl \<le> 1156" and "length pl + 48 \<le> cfg_mtu (s_config s)"
  shows "\<exists>s'. send_audio A env s pl = (Inr (), s') \<and> sm_state (s_state s') = S_Active \<and> s_peer s' = Some p \<and>
    encrypt_key s' = Some k \<and> s_config s' = s_config s"
proof -
  let ?hdr = "sealed_header env AudioFrame (s_session_id s) (tx_sequence s)"
  let ?s = "s\<lparr>audio_tx_seq := audio_tx_seq s + 1, tx_sequence := tx_sequence s + 1\<rparr>"
  let ?plain = "be32 (audio_tx_seq s) @ pl"
  obtain ct tag where enc: "aead_encrypt A k (make_nonce (sequence ?hdr) (session_id ?hdr)) (header_layout ?hdr) ?plain
      = Some (ct, tag)"
    using assms(5) by (metis option.exhaust surj_pair)
  then have seal: "seal_payload A k ?hdr ?plain = Inr (ct @ tag)"
    by (simp add: seal_payload_eq [OF assms(1)])
  have len: "length (ct @ tag) = length pl + 20"
    using aead_encryptD [OF assms(1) enc] by simp
  obtain n where "env_send env (packet_bytes ?hdr (ct @ tag)) p = Inr n"
    using assms(6) by blast
  then have "\<exists>s1. send_packet env ?s ?hdr (ct @ tag) p = (Inr (), s1)"
    using len assms(7,8) by (simp add: send_packet_eq transport_send_def)
  then obtain s1 where s1: "send_packet env ?s ?hdr (ct @ tag) p = (Inr (), s1)" ..
  then have sends1: "sends ?s s1"
    using send_packet_sends [of ?s env ?hdr "ct @ tag" p] by simp
  obtain enc par where push: "FecEncoder_push (fec_enc s1) (audio_tx_seq s) pl = (enc, par)"
    by force
  define s' where "s' = snd (send_audio A env s pl)"
  have "send_audio A env s pl = (Inr (), s') \<and> sends (s1\<lparr>fec_enc := enc\<rparr>) s'"
    unfolding s'_def using assms(2-4) seal s1 push send_fec_parity_sends
    by (cases par) (auto simp: send_audio_def Let_def)
  then show ?thesis
    using sendsD [OF sends1] sendsD [of "s1\<lparr>fec_enc := enc\<rparr>" s'] assms by auto
qed

text \<open>A pair of sessions with default configuration, the keys in place.\<close>

definition demo_session :: "JitterBuffer \<Rightarrow> CongestionController \<Rightarrow> nat Session" where
  "demo_session jb cc =
     \<lparr>s_state = \<lparr>sm_state = S_Active\<rparr>, s_metrics = Metrics_new, s_jitter = jb,
      s_config = Config_default, s_peer = Some 0, s_session_id = 7, tx_sequence = 0,
      audio_tx_seq = 0xFFFFFFFF, last_rx = 0, negotiated_codec = 1, encrypt_key = Some [1],
      decrypt_key = Some [1], s_congestion = cc, fec_enc = FecEncoder_new FEC_WINDOW,
      fec_dec = FecDecoder_new FEC_WINDOW, ptt_active = False, peer_ptt_active = False,
      local_ssrc = 0, s_closed = False, outbox = []\<rparr>"

definition demo_env :: "u64 \<Rightarrow> nat Env" where
  "demo_env now = \<lparr>env_now = now, env_send = (\<lambda>d p. Inr (of_nat (length d)))\<rparr>"

lemma demo_sends:
  assumes "sm_state (s_state s) = S_Active" and "s_peer s = Some p" and "encrypt_key s = Some [1]"
    and "s_config s = Config_default" and "length pl \<le> 1152"
  shows "\<exists>s'. send_audio null_aead (demo_env t) s pl = (Inr (), s') \<and> sm_state (s_state s') = S_Active \<and>
    s_peer s' = Some p \<and> encrypt_key s' = Some [1] \<and> s_config s' = Config_default"
  using send_audio_succeeds [OF null_aead_ok assms(1-3), of "demo_env t" pl] assms(4,5)
  by (auto simp: null_aead_def demo_env_def Config_default_def size_consts)

lemma audio_stream_end_to_end_witness:
  "\<exists>jb cc ds s' r'. JitterBuffer_new 16 = Some jb \<and>
     send_stream null_aead (demo_session jb cc) [(demo_env 5, [1, 2]), (demo_env 9, [3])] = Some (ds, s') \<and>
     deliver null_aead (demo_session jb cc) [(demo_env 20, ds ! 0), (demo_env 21, ds ! 1), (demo_env 22, ds ! 1)]
       = Some r' \<and>
     map (map_option fr_payload) (pop_n JitterBuffer_pop (s_jitter r') 2) = [Some [1, 2], Some [3]]"
proof -
  obtain jb where jb: "JitterBuffer_new 16 = Some jb"
    using new_power [of 4] by auto
  let ?xs = "[(demo_env 5, [1, 2]), (demo_env 9, [3])] :: (nat Env \<times> bytes) list"
  define s :: "nat Session" where "s = demo_session jb (the (CongestionController_new 64000 8000 64000))"
  have s: "sm_state (s_state s) = S_Active" "s_peer s = Some 0" "encrypt_key s = Some [1]"
    "s_config s = Config_default" "decrypt_key s = Some [1]" "s_jitter s = jb"
    by (simp_all add: s_def demo_session_def)
  obtain s1 where s1: "send_audio null_aead (demo_env 5) s [1, 2] = (Inr (), s1)"
    "sm_state (s_state s1) = S_Active" "s_peer s1 = Some 0" "encrypt_key s1 = Some [1]"
    "s_config s1 = Config_default"
    using demo_sends [OF s(1-4), of "[1, 2]" 5] by auto
  obtain s2 where s2: "send_audio null_aead (demo_env 9) s1 [3] = (Inr (), s2)"
    using demo_sends [OF s1(2-5), of "[3]" 9] by auto
  obtain d0 d1 where stream: "send_stream null_aead s ?xs = Some ([d0, d1], s2)"
    using s1(1) s2 by simp
  let ?arr = "[(demo_env 20, d0), (demo_env 21, d1), (demo_env 22, d1)] :: (nat Env \<times> bytes) list"
  have new: "JitterBuffer_new 16 = Some (s_jitter s)"
    using jb s(6) by simp
  have side: "?xs \<noteq> []" "length ?xs \<le> unat (16 :: u32)" "?arr \<noteq> []" "snd (hd ?arr) = hd [d0, d1]"
    "set (map snd ?arr) = set [d0, d1]"
    by auto
  from audio_stream_end_to_end [OF null_aead_ok s(3,5) refl new stream side]
  obtain r' where "deliver null_aead s ?arr = Some r'"
    "map (map_option fr_payload) (pop_n JitterBuffer_pop (s_jitter r') (length ?xs)) = map (Some \<circ> snd) ?xs"
    by blast
  moreover have "length ?xs = 2" "map (Some \<circ> snd) ?xs = [Some [1, 2], Some [3]]"
    "[d0, d1] ! 0 = d0" "[d0, d1] ! 1 = d1"
    by simp_all
  ultimately show ?thesis
    using jb stream unfolding s_def by metis
qed

text \<open>Audio in the clear is accepted.  Whatever keys a session holds, a datagram of type audio without the
  encryption flag, with any sequence number and payload of its sender's choice, is accepted as a frame and pushed into
  the jitter buffer: the receiver does not require encryption once keys are agreed.\<close>

lemma plaintext_audio_accepted:
  assumes "header_wf h" and "msg_type h = MessageType_code AudioFrame" and "\<not> Flags_contains (flags h) ENCRYPTED"
    and "length pl \<le> 1172"
  shows "\<exists>r'. handle_datagram A False env r (packet_bytes h (be32 n @ pl)) = Some (Inr (), r') \<and>
    s_jitter r' = fst (JitterBuffer_push (s_jitter r)
      \<lparr>fr_sequence = n, fr_timestamp = timestamp h, fr_payload = pl\<rparr>)"
proof -
  have "frame_of A r (packet_bytes h (be32 n @ pl)) =
      Some \<lparr>fr_sequence = n, fr_timestamp = timestamp h, fr_payload = pl\<rparr>"
    using assms by (simp add: frame_of_def PacketView_decode_packet_bytes audio_plaintext_def rd_be)
  from handle_audio [OF this, of env] show ?thesis
    by blast
qed

lemma plaintext_audio_accepted_witness:
  "\<forall>jb cc. \<exists>r'. handle_datagram null_aead False (demo_env 3) (demo_session jb cc)
      (packet_bytes (PacketHeader_new 0x10 99 0 0) (be32 5 @ [1, 2])) = Some (Inr (), r') \<and>
    s_jitter r' = fst (JitterBuffer_push jb \<lparr>fr_sequence = 5, fr_timestamp = 0, fr_payload = [1, 2]\<rparr>)"
  using plaintext_audio_accepted [of "PacketHeader_new 0x10 99 0 0" "[1, 2]" null_aead "demo_env 3" "demo_session _ _" 5]
  by (simp add: header_wf_def PacketHeader_new_def Flags_empty_def Flags_contains_def ENCRYPTED_def demo_session_def)

text \<open>Which fields no datagram can change.\<close>

definition same_identity :: "'a Session \<Rightarrow> 'a Session \<Rightarrow> bool" where
  "same_identity s s' \<longleftrightarrow> encrypt_key s' = encrypt_key s \<and> decrypt_key s' = decrypt_key s \<and>
     s_session_id s' = s_session_id s \<and> s_peer s' = s_peer s \<and> s_config s' = s_config s \<and>
     s_closed s' = s_closed s \<and> audio_tx_seq s' = audio_tx_seq s \<and> negotiated_codec s' = negotiated_codec s"

definition keeps :: "'a Session \<Rightarrow> 'a Session \<Rightarrow> bool" where
  "keeps s s' \<longleftrightarrow> same_identity s s' \<and> s_state s' = s_state s"

lemma keeps_sends: "sends s s' \<Longrightarrow> keeps s s'"
  by (simp add: keeps_def same_identity_def sendsD)

lemma keeps_updates [simp]:
  "keeps s s" "keeps s (s\<lparr>peer_ptt_active := b\<rparr>)" "keeps s (s\<lparr>ptt_active := b\<rparr>)" "keeps s (s\<lparr>s_congestion := cc\<rparr>)"
  "keeps s (count_integrity_error s)" "keeps s (snd (send_control env s m sid pl p))"
  by (simp_all add: keeps_sends send_control_sends) (simp_all add: keeps_def same_identity_def count_integrity_error_def)

lemma keeps_send_control: "send_control env s m sid pl p = (res, s') \<Longrightarrow> keeps s s'"
  using keeps_updates(6) [of s env m sid pl p] by simp

lemma keeps_dispatch_audio: "dispatch_audio A oc env s view d = Some s' \<Longrightarrow> keeps s s'"
  by (auto simp: dispatch_audio_def split: option.splits if_splits)
     (auto simp: accept_audio_def keeps_def same_identity_def split: option.splits)

lemma keeps_dispatch_fec: "keeps s (dispatch_fec A s view d)"
  by (simp add: dispatch_fec_def Let_def split: option.splits sum.splits prod.splits)
     (simp add: keeps_def same_identity_def)

lemma dispatch_packet_keeps:
  assumes "dispatch_packet A oc env s view d = Some (res, s')"
    and "MessageType_from_code (msg_type (header view)) \<noteq> Inr CloseMsg"
  shows "keeps s s'"
proof (cases "MessageType_from_code (msg_type (header view))")
  case (Inl e)
  then show ?thesis
    using assms by (auto simp: dispatch_packet_def)
next
  case (Inr m)
  with assms show ?thesis
    by (cases m)
       (auto simp: dispatch_packet_def keeps_dispatch_fec
         split: option.splits sum.splits if_splits dest: keeps_send_control keeps_dispatch_audio)
qed

lemma dispatch_packet_close:
  "MessageType_from_code (msg_type (header view)) = Inr CloseMsg \<Longrightarrow>
     dispatch_packet A oc env s view d = Some (Inl (PeerClosedError ''remote close''), transition_state PeerClosed s)"
  by (simp add: dispatch_packet_def)



text \<open>The rounding to a power of two used for the jitter buffer.\<close>

lemma next_power_of_two_least:
  assumes "n \<le> 2 ^ k" and "k < 32" and "\<forall>j < k. 2 ^ j < n"
  shows "next_power_of_two n = 2 ^ k"
proof -
  have "[0..<32] = [0..<k] @ k # [Suc k..<32]"
    using assms(2) upt_add_eq_append [of 0 k "32 - k"] upt_conv_Cons [OF assms(2)] by simp
  moreover have "filter (\<lambda>p. n \<le> p) (map (\<lambda>k. 2 ^ k) [0..<k]) = []"
    using assms(3) by (auto simp: filter_empty_conv not_le)
  ultimately show ?thesis
    using assms(1) by (simp add: next_power_of_two_def)
qed

lemma next_power_of_two_ex:
  assumes "1 \<le> n" and "n \<le> 2 ^ 16"
  obtains k where "k \<le> 16" "next_power_of_two n = 2 ^ k" "n \<le> 2 ^ k" "\<forall>j < k. 2 ^ j < n"
proof -
  define k where "k = (LEAST k. n \<le> 2 ^ k)"
  have "n \<le> 2 ^ k"
    unfolding k_def using assms(2) by (rule LeastI)
  moreover have "k \<le> 16"
    unfolding k_def using assms(2) by (rule Least_le)
  moreover have "\<forall>j < k. 2 ^ j < n"
    unfolding k_def using not_less_Least not_le by blast
  ultimately show thesis
    using that next_power_of_two_least [of n k] by simp
qed

lemma jitter_slots_power:
  assumes f: "f = max (unat bms div max (unat fms) 1) 1"
  shows "\<exists>k. 4 \<le> k \<and> k \<le> 16 \<and> jitter_slots bms fms = push_bit k 1 \<and> (k \<le> 11 \<longleftrightarrow> f \<le> 2048)"
proof -
  have "f \<le> 2 ^ 16" "1 \<le> f"
    using unsigned_less [of bms, where 'a = nat] order.trans [OF div_le_dividend [of "unat bms" "max (unat fms) 1"]]
    by (simp_all add: f)
  then obtain k where k: "k \<le> 16" "next_power_of_two f = 2 ^ k" "f \<le> 2 ^ k" "\<forall>j < k. 2 ^ j < f"
    using next_power_of_two_ex by blast
  have "max (2 ^ k) 16 = (2 ^ max k 4 :: nat)"
    using power_increasing [of k 4 "2::nat"] power_increasing [of 4 k "2::nat"]
    by (cases "k \<le> 4") (simp_all add: max_def)
  then have "jitter_slots bms fms = push_bit (max k 4) 1"
    unfolding jitter_slots_def Let_def f [symmetric] k(2) by (simp add: push_bit_of_1)
  moreover have "max k 4 \<le> 11 \<longleftrightarrow> f \<le> 2048"
  proof
    assume "max k 4 \<le> 11"
    then show "f \<le> 2048"
      using k(3) power_increasing [of k 11 "2::nat"] by simp
  next
    assume "f \<le> 2048"
    then show "max k 4 \<le> 11"
      using k(4) [rule_format, of 11] by (cases "11 < k") simp_all
  qed
  ultimately show ?thesis
    using k(1) by (intro exI [of _ "max k 4"]) simp
qed

lemma JitterBuffer_new_power: "k \<le> 16 \<Longrightarrow> JitterBuffer_new (push_bit k 1) = None \<longleftrightarrow> \<not> k \<le> 11"
proof -
  assume "k \<le> 16"
  have "JitterBuffer_new (push_bit k 1) = None" if "\<not> k \<le> 11"
  proof -
    have "(2::nat) ^ 12 \<le> 2 ^ k" "(2::nat) ^ k < 2 ^ 32"
      using that \<open>k \<le> 16\<close> power_increasing [of 12 k "2::nat"] power_strict_increasing [of k 32 "2::nat"] by simp_all
    then have "2048 < unat (push_bit k 1 :: u32)"
      using unat_of_nat_small [of "2 ^ k", where 'a = 32] by (simp add: push_bit_of_1)
    then show ?thesis
      by (simp add: JitterBuffer_new_def word_le_nat_alt)
  qed
  then show ?thesis
    using new_power [of k] by auto
qed

text \<open>Which configurations can build a session.  Creating a session panics exactly when the configured maximal
  bitrate is below 8000 bit/s or the jitter buffer would need more than 2048 frames; otherwise the session starts idle,
  without keys, with a jitter buffer in a valid state and a bitrate equal to the maximum.\<close>

lemma session_creation:
  "case Session_new config of
     None \<Rightarrow> cfg_max_bitrate config < 8000 \<or>
       2048 < unat (cfg_jitter_buffer_ms config) div max (unat (cfg_frame_duration_ms config)) 1
   | Some s \<Rightarrow> 8000 \<le> cfg_max_bitrate config \<and>
       unat (cfg_jitter_buffer_ms config) div max (unat (cfg_frame_duration_ms config)) 1 \<le> 2048 \<and>
       sm_state (s_state s) = S_Idle \<and> encrypt_key s = None \<and> decrypt_key s = None \<and> jb_inv (s_jitter s) \<and>
       cc_inv (s_congestion s) \<and> current_bitrate (s_congestion s) = cfg_max_bitrate config"
proof -
  let ?m = "cfg_max_bitrate config"
  let ?f = "max (unat (cfg_jitter_buffer_ms config) div max (unat (cfg_frame_duration_ms config)) 1) 1"
  let ?slots = "jitter_slots (cfg_jitter_buffer_ms config) (cfg_frame_duration_ms config)"
  obtain k where k: "k \<le> 16" "?slots = push_bit k 1" "k \<le> 11 \<longleftrightarrow> ?f \<le> 2048"
    using jitter_slots_power [OF refl] by metis
  have jb: "JitterBuffer_new ?slots = None \<longleftrightarrow>
      2048 < unat (cfg_jitter_buffer_ms config) div max (unat (cfg_frame_duration_ms config)) 1"
    using JitterBuffer_new_power [OF k(1)] k(2,3) by auto
  have cc: "CongestionController_new ?m CONGESTION_MIN_BITRATE ?m =
      (if ?m < 8000 then None else Some \<lparr>current_bitrate = ?m, min_bitrate = 8000, max_bitrate = ?m\<rparr>)"
    by (simp add: CongestionController_new_def u32_clamp_def CONGESTION_MIN_BITRATE_def not_le)
  have inv: "cc_inv \<lparr>current_bitrate = ?m, min_bitrate = 8000, max_bitrate = ?m\<rparr>" if "\<not> ?m < 8000"
    using that by (simp add: cc_inv_def CONGESTION_MIN_BITRATE_def)
  show ?thesis
  proof (cases "JitterBuffer_new ?slots")
    case None
    then show ?thesis
      using jb by (simp add: Session_new_def Let_def)
  next
    case (Some b)
    then show ?thesis
      using jb new_inv [OF Some] inv
      by (auto simp: Session_new_def Let_def cc SessionStateMachine_new_def)
  qed
qed

text \<open>Closing.  After \<open>close\<close> the cancellation flag is set, both keys are erased, no audio can be sent, and the
  session is closed if it was handshaking, active, paused or closing; the other states do not move.\<close>

lemma close_erases_keys:
  "case close_session env s of (res, s') \<Rightarrow>
     res = Inr () \<and> s_closed s' \<and> encrypt_key s' = None \<and> decrypt_key s' = None \<and>
     sm_state (s_state s') =
       (if sm_state (s_state s) \<in> {S_Handshaking, S_Active, S_Paused, S_Closing} then S_Closed
        else sm_state (s_state s)) \<and>
     send_audio A env' s' pl = (Inl (InvalidState ''not active''), s')"
proof -
  let ?s = "s\<lparr>s_closed := True, encrypt_key := None, decrypt_key := None\<rparr>"
  define s1 where "s1 = (case s_peer ?s of None \<Rightarrow> ?s
      | Some p \<Rightarrow> snd (send_control env ?s CloseMsg (s_session_id ?s) [] p))"
  have "sends ?s s1"
    unfolding s1_def by (simp add: send_control_sends split: option.splits)
  then have s1: "s_closed s1" "encrypt_key s1 = None" "decrypt_key s1 = None" "s_state s1 = s_state s"
    by (simp_all add: sendsD)
  have close: "close_session env s = (Inr (), transition_state Close (transition_state Close s1))"
    by (simp add: close_session_def Let_def s1_def split: option.splits)
  have "sm_state (s_state (transition_state Close (transition_state Close s1))) =
      (if sm_state (s_state s) \<in> {S_Handshaking, S_Active, S_Paused, S_Closing} then S_Closed
       else sm_state (s_state s))"
    using s1(4) by (cases "sm_state (s_state s)")
      (simp_all add: transition_state_def SessionStateMachine_transition_def transition_next_def)
  moreover from this have "sm_state (s_state (transition_state Close (transition_state Close s1))) \<noteq> S_Active"
    by auto
  ultimately show ?thesis
    using s1(1-3) by (simp add: close send_audio_def) (simp add: transition_state_def)
qed

text \<open>A gap in the stream is skipped.  If the next \<open>k\<close> frames are missing and the one after them is buffered,
  and in each round the clock has reached the current deadline, \<open>recv_audio\<close> skips one missing frame per round and then
  returns the buffered frame, without waiting for the network.\<close>

lemma recv_audio_skips_gap:
  assumes "jb_inv (s_jitter s)" and "primed (s_jitter s)"
    and "jb_contents (s_jitter s) (next_seq (s_jitter s) + of_nat k) = Some f"
    and "\<forall>i < k. jb_contents (s_jitter s) (next_seq (s_jitter s) + of_nat i) = None"
    and "length envs = Suc k" and "\<forall>i < k. env_now (envs ! i) \<ge> (if i = 0 then deadline
                                                   else env_now (envs ! (i - 1)) + skip_us)"
  shows "\<exists>s'. recv_audio_loop A oc skip_us deadline s envs evs = Some (Some (Inr f), s')"
  using assms
proof (induction k arbitrary: s envs deadline)
  case 0
  then obtain env where env: "envs = [env]"
    by (metis One_nat_def length_0_conv length_Suc_conv)
  let ?b = "s_jitter s"
  obtain b' r where pop: "pop_with_deadline ?b (env_now env) deadline = (b', r)"
    by force
  have "r = Some f"
    using deadline_pop [OF 0(1,2) pop] 0(3) by simp
  then show ?case
    using pop by (simp add: env)
next
  case (Suc k)
  let ?b = "s_jitter s"
  obtain env envs' where env: "envs = env # envs'" "length envs' = Suc k"
    using Suc.prems(5) by (cases envs) auto
  obtain b' r where pop: "pop_with_deadline ?b (env_now env) deadline = (b', r)"
    by force
  have late: "deadline \<le> env_now env"
    using Suc.prems(6) [rule_format, of 0] env by simp
  have none: "jb_contents ?b (next_seq ?b) = None"
    using Suc.prems(4) [rule_format, of 0] by simp
  have b': "r = None" "jb_inv b'" "primed b'" "jb_contents b' = jb_contents ?b" "next_seq b' = next_seq ?b + 1"
    using deadline_pop [OF Suc.prems(1,2) pop] late none by (auto simp: fun_eq_iff)
  have times: "\<forall>i < k. env_now (envs' ! i) \<ge> (if i = 0 then env_now env + skip_us
      else env_now (envs' ! (i - 1)) + skip_us)"
  proof (intro allI impI)
    fix i assume "i < k"
    then show "env_now (envs' ! i) \<ge> (if i = 0 then env_now env + skip_us
      else env_now (envs' ! (i - 1)) + skip_us)"
      using Suc.prems(6) [rule_format, of "Suc i"] env by (cases i) simp_all
  qed
  have "\<forall>i < k. jb_contents b' (next_seq b' + of_nat i) = None"
  proof (intro allI impI)
    fix i assume "i < k"
    then show "jb_contents b' (next_seq b' + of_nat i) = None"
      using Suc.prems(4) [rule_format, of "Suc i"] b' by (simp add: algebra_simps)
  qed
  moreover have "jb_contents b' (next_seq b' + of_nat k) = Some f"
    using Suc.prems(3) b' by (simp add: algebra_simps)
  ultimately have "\<exists>s'. recv_audio_loop A oc skip_us (env_now env + skip_us) (s\<lparr>s_jitter := b'\<rparr>) envs' evs =
      Some (Some (Inr f), s')"
    using Suc.IH [of "s\<lparr>s_jitter := b'\<rparr>" envs' "env_now env + skip_us"] b' env times by simp
  then show ?case
    using pop late b'(1) by (simp add: env(1))
qed

lemma recv_audio_skips_gap_witness:
  "\<forall>cc. \<exists>jb s'. recv_audio_loop null_aead True 100 50 (demo_session jb cc) [demo_env 60, demo_env 61] [] =
     Some (Some (Inr (seq_frame 4)), s')"
proof
  fix cc
  obtain b where b: "JitterBuffer_new 16 = Some b"
    using new_power [of 4] by auto
  let ?b = "b\<lparr>next_seq := fr_sequence (seq_frame 3), primed := True\<rparr>"
  have inv: "jb_inv ?b" "primed ?b" "capacity ?b = 16" "jb_contents ?b = Map.empty"
    using new_inv [OF b] jb_push_first(2,4) [of b "seq_frame 3"] by simp_all
  let ?jb = "put_slot ?b 4 \<lparr>occupied = True, slot_sequence = 4, slot_frame = Some (seq_frame 4)\<rparr>"
  have ahead: "unat (fr_sequence (seq_frame 4) - next_seq ?b) < unat (capacity ?b)"
    using inv(3) by (simp add: seq_frame_def)
  have jb: "jb_inv ?jb" "primed ?jb" "next_seq ?jb = 3" "jb_contents ?jb = [4 \<mapsto> seq_frame 4]"
    using store_frame [OF inv(1,2) ahead] inv(2,4) by (simp_all add: seq_frame_def)
  let ?s = "demo_session ?jb cc"
  have s: "s_jitter ?s = ?jb"
    by (simp add: demo_session_def)
  have "\<exists>s'. recv_audio_loop null_aead True 100 50 ?s [demo_env 60, demo_env 61] [] = Some (Some (Inr (seq_frame 4)), s')"
  proof (rule recv_audio_skips_gap [where k = 1])
    show "jb_inv (s_jitter ?s)" "primed (s_jitter ?s)"
      using jb by (simp_all only: s)
    show "jb_contents (s_jitter ?s) (next_seq (s_jitter ?s) + of_nat 1) = Some (seq_frame 4)"
      "\<forall>i < 1. jb_contents (s_jitter ?s) (next_seq (s_jitter ?s) + of_nat i) = None"
      unfolding s jb(3,4) by simp_all
  qed (simp_all add: demo_env_def)
  then show "\<exists>jb s'. recv_audio_loop null_aead True 100 50 (demo_session jb cc) [demo_env 60, demo_env 61] [] =
     Some (Some (Inr (seq_frame 4)), s')"
    by blast
qed

end
