(* ===== verification/Handshake.thy ===== *)
theory Handshake
  imports Session
begin

unbundle bit_operations_syntax

text \<open>
  The handshake of \<open>gravital-talk-transport/src/session.rs\<close>: client, server and open server, with
  the key derivation helpers.  X25519 and HKDF-SHA256 (third-party crates) are a parameter record \<open>kx\<close>;
  the random values the code draws are arguments.  What a wait on the network can see is an event:
  an answer of \<open>transport.recv\<close>, the caller's deadline, or another task running \<open>close\<close>
  meanwhile.  Each function consumes events and returns the ones it has not used; it is \<open>Pending\<close> when
  the events end first.
\<close>

section \<open>Parameters and events\<close>

record kx =
  kx_public :: "bytes \<Rightarrow> bytes"
  kx_dh :: "bytes \<Rightarrow> bytes \<Rightarrow> bytes"
  kx_hkdf :: "bytes option \<Rightarrow> bytes \<Rightarrow> bytes \<Rightarrow> nat \<Rightarrow> bytes"

text \<open>\<open>kx_hkdf salt ikm info n\<close> is extract and expand to \<open>n\<close> bytes.  The documented behaviour: both
  ends compute the same secret, and the lengths.\<close>

definition kx_ok :: "kx \<Rightarrow> bool" where
  "kx_ok K \<longleftrightarrow> (\<forall>a b. kx_dh K a (kx_public K b) = kx_dh K b (kx_public K a)) \<and>
     (\<forall>a. length (kx_public K a) = 32) \<and> (\<forall>s i f n. length (kx_hkdf K s i f n) = n)"

record ClientRandom =
  cr_secret :: bytes
  cr_nonce :: bytes

record ServerRandom =
  sr_secret :: bytes
  sr_nonce :: bytes
  sr_session_id :: u32

datatype 'a hs_event = HsRecv "'a recv_event" | HsDeadline | HsClose

type_synonym 'a hs_events = "('a Env \<times> 'a hs_event) list"

datatype 'x outcome = Done "TransportError + 'x" | DeadlineHit | Pending

section \<open>Key derivation\<close>

definition byte_string :: "string \<Rightarrow> bytes" where
  "byte_string cs = map of_char cs"

definition build_transcript :: "bytes \<Rightarrow> bytes \<Rightarrow> u32 \<Rightarrow> bytes" where
  "build_transcript client_nonce server_nonce sid =
     (let t = replicate 68 0;
          t = write_at 0 client_nonce t;
          t = write_at 32 server_nonce t;
          t = write_at 64 (be32 sid) t
      in t)"

definition derive_session_keys :: "kx \<Rightarrow> bytes \<Rightarrow> bytes \<Rightarrow> bytes \<times> bytes" where
  "derive_session_keys K shared_secret transcript =
     (kx_hkdf K (Some transcript) shared_secret (byte_string ''GS-encrypt-v1'') 32,
      kx_hkdf K (Some transcript) shared_secret (byte_string ''GS-decrypt-v1'') 32)"

definition derive_auth_tag :: "kx \<Rightarrow> bytes \<Rightarrow> bytes \<Rightarrow> bytes \<Rightarrow> bytes" where
  "derive_auth_tag K key label transcript = kx_hkdf K None key (label @ transcript) 16"

definition constant_time_eq :: "bytes \<Rightarrow> bytes \<Rightarrow> bool" where
  "constant_time_eq a b \<longleftrightarrow> foldl (\<lambda>diff i. diff OR (a ! i XOR b ! i)) 0 [0..<16] = 0"

definition client_label :: bytes where
  "client_label = byte_string ''GS-client-fin-v1''"

definition server_label :: bytes where
  "server_label = byte_string ''GS-server-fin-v1''"

section \<open>Client\<close>

definition client_hello_msg :: "kx \<Rightarrow> ClientRandom \<Rightarrow> Config \<Rightarrow> ClientHello" where
  "client_hello_msg K rnd config =
     \<lparr>ch_ephemeral_public_key = kx_public K (cr_secret rnd), ch_client_nonce = cr_nonce rnd,
      ch_protocol_version = PROTOCOL_VERSION_MAX, ch_codec_preferred = cfg_codec_preferred config,
      ch_sample_rate = cfg_sample_rate config, ch_channels = cfg_channels config,
      ch_frame_duration_ms = cfg_frame_duration_ms config, ch_max_bitrate = cfg_max_bitrate config,
      ch_capability_flags = cfg_capability_flags config\<rparr>"

text \<open>The payload of a packet of the expected type from the expected peer, if a datagram is one.\<close>

definition packet_from :: "'a \<Rightarrow> MessageType \<Rightarrow> bytes \<Rightarrow> 'a \<Rightarrow> bytes option" where
  "packet_from peer msg d from =
     (if from \<noteq> peer then None
      else case PacketView_decode d of
        Inl _ \<Rightarrow> None
      | Inr view \<Rightarrow> (if msg_type (header view) \<noteq> MessageType_code msg then None else Some (payload view)))"

text \<open>Waiting for the confirmation has no timeout of its own: a \<open>RecvTimeout\<close> does not end the wait.\<close>

fun recv_session_confirm ::
  "'a Session \<Rightarrow> 'a \<Rightarrow> u32 \<Rightarrow> 'a hs_events \<Rightarrow> SessionConfirm outcome \<times> 'a Session \<times> 'a hs_events" where
  "recv_session_confirm s peer expected_sid [] = (Pending, s, [])"
| "recv_session_confirm s peer expected_sid ((env, ev) # evs) =
     (case ev of
        HsDeadline \<Rightarrow> (DeadlineHit, s, evs)
      | HsClose \<Rightarrow> recv_session_confirm (snd (close_session env s)) peer expected_sid evs
      | HsRecv RecvTimeout \<Rightarrow> recv_session_confirm s peer expected_sid evs
      | HsRecv (RecvError e) \<Rightarrow> (Done (Inl e), s, evs)
      | HsRecv (RecvData d from) \<Rightarrow>
          (case packet_from peer HandshakeSessionConfirm d from of
             None \<Rightarrow> recv_session_confirm s peer expected_sid evs
           | Some pl \<Rightarrow>
               (case SessionConfirm_decode pl of
                  Inl e \<Rightarrow> (Done (Inl (Protocol e)), s, evs)
                | Inr confirm \<Rightarrow>
                    (if sc_session_id confirm \<noteq> expected_sid
                     then (Done (Inl (HandshakeFailed ''session_id mismatch in confirm'')), s, evs)
                     else (Done (Inr confirm), s, evs)))))"

definition store_keys :: "bytes \<Rightarrow> bytes \<Rightarrow> 'a Session \<Rightarrow> 'a Session" where
  "store_keys enc_key dec_key s = s\<lparr>encrypt_key := Some enc_key, decrypt_key := Some dec_key\<rparr>"

text \<open>The client after a \<open>ServerHello\<close>.\<close>

definition client_finish ::
  "kx \<Rightarrow> ClientRandom \<Rightarrow> 'a Env \<Rightarrow> 'a Session \<Rightarrow> 'a \<Rightarrow> ServerHello \<Rightarrow> 'a hs_events \<Rightarrow>
   unit outcome \<times> 'a Session \<times> 'a hs_events" where
  "client_finish K rnd env s peer server_hello evs =
     (let neg_ver = sh_protocol_version server_hello in
      if neg_ver < PROTOCOL_VERSION_MIN \<or> neg_ver > PROTOCOL_VERSION_MAX
      then (Done (Inl (HandshakeFailed ''version negotiation failed: out of range'')), s, evs)
      else if sh_codec_accepted server_hello \<notin> set (cfg_supported_codecs (s_config s))
      then (Done (Inl (HandshakeFailed ''server selected unsupported codec'')), s, evs)
      else
        let shared = kx_dh K (cr_secret rnd) (sh_ephemeral_public_key server_hello);
            sid = sh_session_id server_hello;
            transcript = build_transcript (cr_nonce rnd) (sh_server_nonce server_hello) sid;
            (enc_key, dec_key) = derive_session_keys K shared transcript;
            client_auth_tag = derive_auth_tag K enc_key client_label transcript;
            ke_msg = \<lparr>ke_session_id = sid, ke_auth_tag = client_auth_tag\<rparr>
        in case KeyExchangeMsg_encode ke_msg (replicate KeyExchangeMsg_SIZE 0) of
             Inl e \<Rightarrow> (Done (Inl (Protocol e)), s, evs)
           | Inr ke_payload \<Rightarrow>
               (case send_control env s HandshakeKeyExchange sid ke_payload peer of
                  (Inl e, s) \<Rightarrow> (Done (Inl e), s, evs)
                | (Inr _, s) \<Rightarrow>
                    (case recv_session_confirm s peer sid evs of
                       (Done (Inr confirm), s, evs) \<Rightarrow>
                         (let expected_server_tag = derive_auth_tag K dec_key server_label transcript in
                          if \<not> constant_time_eq (sc_server_auth_tag confirm) expected_server_tag
                          then (Done (Inl (AuthenticationFailed ''server auth tag mismatch'')), s, evs)
                          else
                            let ssrc = sid XOR rd32 0 enc_key;
                                s = s\<lparr>s_session_id := sid, local_ssrc := ssrc,
                                      negotiated_codec := sh_codec_accepted server_hello\<rparr>
                            in (Done (Inr ()), store_keys enc_key dec_key s, evs))
                     | (Done (Inl e), s, evs) \<Rightarrow> (Done (Inl e), s, evs)
                     | (DeadlineHit, s, evs) \<Rightarrow> (DeadlineHit, s, evs)
                     | (Pending, s, evs) \<Rightarrow> (Pending, s, evs))))"

definition next_attempt :: "u32 \<Rightarrow> u32" where
  "next_attempt attempt = u32_saturating_add attempt 1"

text \<open>The retry loop.  \<open>waiting\<close> tells that the hello of this round is already sent; a wait without answer
  (after \<open>HANDSHAKE_RETRY_BASE_MS << attempt.min(4)\<close> ms, or with an error) counts against the limit of
  attempts, an unexpected datagram only restarts the round.\<close>

fun client_loop ::
  "kx \<Rightarrow> ClientRandom \<Rightarrow> 'a Session \<Rightarrow> 'a \<Rightarrow> bytes \<Rightarrow> u32 \<Rightarrow> bool \<Rightarrow> 'a hs_events \<Rightarrow>
   unit outcome \<times> 'a Session \<times> 'a hs_events" where
  "client_loop K rnd s peer hello_payload attempt waiting [] = (Pending, s, [])"
| "client_loop K rnd s peer hello_payload attempt waiting ((env, ev) # evs) =
     (case (if waiting then (Inr (), s) else send_control env s HandshakeClientHello 0 hello_payload peer) of
        (Inl e, s) \<Rightarrow> (Done (Inl e), s, evs)
      | (Inr _, s) \<Rightarrow>
          (case ev of
             HsDeadline \<Rightarrow> (DeadlineHit, s, evs)
           | HsClose \<Rightarrow> client_loop K rnd (snd (close_session env s)) peer hello_payload attempt True evs
           | HsRecv (RecvData d from) \<Rightarrow>
               (case packet_from peer HandshakeServerHello d from of
                  None \<Rightarrow> client_loop K rnd s peer hello_payload (next_attempt attempt) False evs
                | Some pl \<Rightarrow>
                    (case ServerHello_decode pl of
                       Inl e \<Rightarrow> (Done (Inl (Protocol e)), s, evs)
                     | Inr server_hello \<Rightarrow> client_finish K rnd env s peer server_hello evs))
           | HsRecv _ \<Rightarrow>
               (if next_attempt attempt > 6
                then (Done (Inl (HandshakeFailed ''client retries exhausted'')), s, evs)
                else client_loop K rnd s peer hello_payload (next_attempt attempt) False evs)))"

definition handshake_client ::
  "kx \<Rightarrow> ClientRandom \<Rightarrow> 'a Session \<Rightarrow> 'a \<Rightarrow> 'a hs_events \<Rightarrow> unit outcome \<times> 'a Session \<times> 'a hs_events" where
  "handshake_client K rnd s peer evs =
     (case ClientHello_encode (client_hello_msg K rnd (s_config s)) (replicate ClientHello_SIZE 0) of
        Inl e \<Rightarrow> (Done (Inl (Protocol e)), s, evs)
      | Inr hello_payload \<Rightarrow> client_loop K rnd s peer hello_payload 0 False evs)"

section \<open>Server\<close>

text \<open>Step 1 of \<open>handshake_server\<close>: no timeout and no check of the cancellation flag.\<close>

fun recv_client_hello ::
  "'a Session \<Rightarrow> 'a \<Rightarrow> 'a hs_events \<Rightarrow> ('a Env \<times> ClientHello) outcome \<times> 'a Session \<times> 'a hs_events" where
  "recv_client_hello s peer [] = (Pending, s, [])"
| "recv_client_hello s peer ((env, ev) # evs) =
     (case ev of
        HsDeadline \<Rightarrow> (DeadlineHit, s, evs)
      | HsClose \<Rightarrow> recv_client_hello (snd (close_session env s)) peer evs
      | HsRecv RecvTimeout \<Rightarrow> recv_client_hello s peer evs
      | HsRecv (RecvError e) \<Rightarrow> (Done (Inl e), s, evs)
      | HsRecv (RecvData d from) \<Rightarrow>
          (case packet_from peer HandshakeClientHello d from of
             None \<Rightarrow> recv_client_hello s peer evs
           | Some pl \<Rightarrow>
               (case ClientHello_decode pl of
                  Inl e \<Rightarrow> (Done (Inl (Protocol e)), s, evs)
                | Inr h \<Rightarrow> (Done (Inr (env, h)), s, evs))))"

definition choose_codec :: "Config \<Rightarrow> ClientHello \<Rightarrow> TransportError + u8" where
  "choose_codec config client_hello =
     (if ch_codec_preferred client_hello \<in> set (cfg_supported_codecs config)
      then Inr (ch_codec_preferred client_hello)
      else case cfg_supported_codecs config of
        [] \<Rightarrow> Inl (HandshakeFailed ''no supported codecs configured'')
      | c # _ \<Rightarrow> Inr c)"

definition server_hello_msg :: "kx \<Rightarrow> ServerRandom \<Rightarrow> Config \<Rightarrow> ClientHello \<Rightarrow> u8 \<Rightarrow> u8 \<Rightarrow> ServerHello" where
  "server_hello_msg K rnd config client_hello negotiated_version chosen_codec =
     \<lparr>sh_ephemeral_public_key = kx_public K (sr_secret rnd), sh_server_nonce = sr_nonce rnd,
      sh_session_id = sr_session_id rnd, sh_protocol_version = negotiated_version,
      sh_codec_accepted = chosen_codec, sh_sample_rate = ch_sample_rate client_hello,
      sh_channels = ch_channels client_hello, sh_frame_duration_ms = ch_frame_duration_ms client_hello,
      sh_max_bitrate = min (ch_max_bitrate client_hello) (cfg_max_bitrate config),
      sh_capability_flags = ch_capability_flags client_hello AND cfg_capability_flags config\<rparr>"

text \<open>Step 6: waiting for the key exchange; a repeated hello is answered again.  The cancellation flag is
  read at the start of each wait of 500 ms (\<open>waiting\<close> is true within a wait).\<close>

fun recv_key_exchange ::
  "'a Session \<Rightarrow> 'a \<Rightarrow> u32 \<Rightarrow> bytes \<Rightarrow> bool \<Rightarrow> 'a hs_events \<Rightarrow>
   ('a Env \<times> KeyExchangeMsg) outcome \<times> 'a Session \<times> 'a hs_events" where
  "recv_key_exchange s peer sid sh_payload waiting evs =
     (if \<not> waiting \<and> s_closed s then (Done (Inl (PeerClosedError ''session closed'')), s, evs)
      else case evs of
        [] \<Rightarrow> (Pending, s, [])
      | (env, HsDeadline) # evs \<Rightarrow> (DeadlineHit, s, evs)
      | (env, HsClose) # evs \<Rightarrow> recv_key_exchange (snd (close_session env s)) peer sid sh_payload True evs
      | (env, HsRecv RecvTimeout) # evs \<Rightarrow> recv_key_exchange s peer sid sh_payload False evs
      | (env, HsRecv (RecvError e)) # evs \<Rightarrow> (Done (Inl e), s, evs)
      | (env, HsRecv (RecvData d from)) # evs \<Rightarrow>
          (case packet_from peer HandshakeClientHello d from of
             Some _ \<Rightarrow>
               (case send_control env s HandshakeServerHello sid sh_payload peer of
                  (Inl e, s) \<Rightarrow> (Done (Inl e), s, evs)
                | (Inr _, s) \<Rightarrow> recv_key_exchange s peer sid sh_payload False evs)
           | None \<Rightarrow>
               (case packet_from peer HandshakeKeyExchange d from of
                  None \<Rightarrow> recv_key_exchange s peer sid sh_payload False evs
                | Some pl \<Rightarrow>
                    (case KeyExchangeMsg_decode pl of
                       Inl e \<Rightarrow> (Done (Inl (Protocol e)), s, evs)
                     | Inr m \<Rightarrow> (Done (Inr (env, m)), s, evs)))))"

text \<open>Steps 7 to 9, after the key exchange.\<close>

definition server_confirm ::
  "kx \<Rightarrow> 'a Env \<Rightarrow> 'a Session \<Rightarrow> 'a \<Rightarrow> u32 \<Rightarrow> bytes \<Rightarrow> bytes \<Rightarrow> bytes \<Rightarrow> KeyExchangeMsg \<Rightarrow>
   (TransportError + unit) \<times> 'a Session" where
  "server_confirm K env s peer sid transcript enc_key dec_key ke_msg =
     (if ke_session_id ke_msg \<noteq> sid
      then (Inl (HandshakeFailed ''session_id mismatch in KeyExchange''), s)
      else
        let expected_client_tag = derive_auth_tag K dec_key client_label transcript in
        if \<not> constant_time_eq (ke_auth_tag ke_msg) expected_client_tag
        then (Inl (AuthenticationFailed ''client auth tag mismatch''), s)
        else
          let confirm = \<lparr>sc_session_id = sid, sc_server_auth_tag = derive_auth_tag K enc_key server_label transcript\<rparr>
          in case SessionConfirm_encode confirm (replicate SessionConfirm_SIZE 0) of
               Inl e \<Rightarrow> (Inl (Protocol e), s)
             | Inr sc_payload \<Rightarrow>
                 (case send_control env s HandshakeSessionConfirm sid sc_payload peer of
                    (Inl e, s) \<Rightarrow> (Inl e, s)
                  | (Inr _, s) \<Rightarrow> (Inr (), store_keys enc_key dec_key s)))"

text \<open>What \<open>handshake_server\<close> and \<open>handshake_server_any\<close> do after the client's hello.\<close>

definition server_accept ::
  "kx \<Rightarrow> ServerRandom \<Rightarrow> 'a Env \<Rightarrow> 'a Session \<Rightarrow> 'a \<Rightarrow> ClientHello \<Rightarrow> 'a hs_events \<Rightarrow>
   unit outcome \<times> 'a Session \<times> 'a hs_events" where
  "server_accept K rnd env s peer client_hello evs =
     (let client_ver = ch_protocol_version client_hello in
      if client_ver < PROTOCOL_VERSION_MIN
      then (Done (Inl (HandshakeFailed ''version negotiation failed: client version too old'')), s, evs)
      else
        let negotiated_version = min client_ver PROTOCOL_VERSION_MAX;
            sid = sr_session_id rnd;
            s = s\<lparr>s_session_id := sid\<rparr>
        in case choose_codec (s_config s) client_hello of
             Inl e \<Rightarrow> (Done (Inl e), s, evs)
           | Inr chosen_codec \<Rightarrow>
               (let s = s\<lparr>negotiated_codec := chosen_codec\<rparr>;
                    server_hello = server_hello_msg K rnd (s_config s) client_hello negotiated_version chosen_codec
                in case ServerHello_encode server_hello (replicate ServerHello_SIZE 0) of
                     Inl e \<Rightarrow> (Done (Inl (Protocol e)), s, evs)
                   | Inr sh_payload \<Rightarrow>
                       (case send_control env s HandshakeServerHello sid sh_payload peer of
                          (Inl e, s) \<Rightarrow> (Done (Inl e), s, evs)
                        | (Inr _, s) \<Rightarrow>
                            (let shared = kx_dh K (sr_secret rnd) (ch_ephemeral_public_key client_hello);
                                 transcript = build_transcript (ch_client_nonce client_hello) (sr_nonce rnd) sid;
                                 (client_enc, client_dec) = derive_session_keys K shared transcript;
                                 (enc_key, dec_key) = (client_dec, client_enc)
                             in case recv_key_exchange s peer sid sh_payload False evs of
                                  (Done (Inr (env, ke_msg)), s, evs) \<Rightarrow>
                                    (case server_confirm K env s peer sid transcript enc_key dec_key ke_msg of
                                       (r, s) \<Rightarrow> (Done r, s, evs))
                                | (Done (Inl e), s, evs) \<Rightarrow> (Done (Inl e), s, evs)
                                | (DeadlineHit, s, evs) \<Rightarrow> (DeadlineHit, s, evs)
                                | (Pending, s, evs) \<Rightarrow> (Pending, s, evs)))))"

definition handshake_server ::
  "kx \<Rightarrow> ServerRandom \<Rightarrow> 'a Session \<Rightarrow> 'a \<Rightarrow> 'a hs_events \<Rightarrow> unit outcome \<times> 'a Session \<times> 'a hs_events" where
  "handshake_server K rnd s peer evs =
     (case recv_client_hello s peer evs of
        (Done (Inr (env, client_hello)), s, evs) \<Rightarrow> server_accept K rnd env s peer client_hello evs
      | (Done (Inl e), s, evs) \<Rightarrow> (Done (Inl e), s, evs)
      | (DeadlineHit, s, evs) \<Rightarrow> (DeadlineHit, s, evs)
      | (Pending, s, evs) \<Rightarrow> (Pending, s, evs))"

fun recv_any_hello ::
  "'a Session \<Rightarrow> bool \<Rightarrow> 'a hs_events \<Rightarrow> ('a Env \<times> ClientHello \<times> 'a) outcome \<times> 'a Session \<times> 'a hs_events" where
  "recv_any_hello s waiting evs =
     (if \<not> waiting \<and> s_closed s then (Done (Inl (PeerClosedError ''session closed'')), s, evs)
      else case evs of
        [] \<Rightarrow> (Pending, s, [])
      | (env, HsDeadline) # evs \<Rightarrow> (DeadlineHit, s, evs)
      | (env, HsClose) # evs \<Rightarrow> recv_any_hello (snd (close_session env s)) True evs
      | (env, HsRecv RecvTimeout) # evs \<Rightarrow> recv_any_hello s False evs
      | (env, HsRecv (RecvError e)) # evs \<Rightarrow> (Done (Inl e), s, evs)
      | (env, HsRecv (RecvData d from)) # evs \<Rightarrow>
          (case packet_from from HandshakeClientHello d from of
             None \<Rightarrow> recv_any_hello s False evs
           | Some pl \<Rightarrow>
               (case ClientHello_decode pl of
                  Inl _ \<Rightarrow> recv_any_hello s False evs
                | Inr h \<Rightarrow> (Done (Inr (env, h, from)), s, evs))))"

definition handshake_server_any ::
  "kx \<Rightarrow> ServerRandom \<Rightarrow> 'a Session \<Rightarrow> 'a hs_events \<Rightarrow> unit outcome \<times> 'a Session \<times> 'a hs_events" where
  "handshake_server_any K rnd s evs =
     (case recv_any_hello s False evs of
        (Done (Inr (env, client_hello, peer)), s, evs) \<Rightarrow>
          server_accept K rnd env (s\<lparr>s_peer := Some peer\<rparr>) peer client_hello evs
      | (Done (Inl e), s, evs) \<Rightarrow> (Done (Inl e), s, evs)
      | (DeadlineHit, s, evs) \<Rightarrow> (DeadlineHit, s, evs)
      | (Pending, s, evs) \<Rightarrow> (Pending, s, evs))"

section \<open>The public entry points\<close>

text \<open>Moving the state machine; a refused event becomes the given error.\<close>

definition advance :: "SessionEvent \<Rightarrow> string \<Rightarrow> 'a Session \<Rightarrow> (TransportError + unit) \<times> 'a Session" where
  "advance ev msg s =
     (case SessionStateMachine_transition (s_state s) ev of
        (Inl _, sm) \<Rightarrow> (Inl (InvalidState msg), s\<lparr>s_state := sm\<rparr>)
      | (Inr _, sm) \<Rightarrow> (Inr (), s\<lparr>s_state := sm\<rparr>))"

datatype role_random = ClientSide ClientRandom | ServerSide ServerRandom

definition handshake ::
  "kx \<Rightarrow> role_random \<Rightarrow> 'a Session \<Rightarrow> 'a \<Rightarrow> 'a hs_events \<Rightarrow> unit outcome \<times> 'a Session \<times> 'a hs_events" where
  "handshake K role s peer evs =
     (let s = s\<lparr>s_peer := Some peer\<rparr>;
          event = (case role of ClientSide _ \<Rightarrow> StartConnect | ServerSide _ \<Rightarrow> StartAccept)
      in case advance event ''cannot start handshake'' s of
           (Inl e, s) \<Rightarrow> (Done (Inl e), s, evs)
         | (Inr _, s) \<Rightarrow>
             (case (case role of
                      ClientSide rnd \<Rightarrow> handshake_client K rnd s peer evs
                    | ServerSide rnd \<Rightarrow> handshake_server K rnd s peer evs) of
                (Done (Inr _), s, evs) \<Rightarrow> (case advance HandshakeOk ''handshake_ok'' s of (r, s) \<Rightarrow> (Done r, s, evs))
              | (Done (Inl e), s, evs) \<Rightarrow> (Done (Inl e), transition_state HandshakeTimeout s, evs)
              | (DeadlineHit, s, evs) \<Rightarrow> (Done (Inl Timeout), transition_state HandshakeTimeout s, evs)
              | (Pending, s, evs) \<Rightarrow> (Pending, s, evs)))"

text \<open>The open server retries until it succeeds or is closed; each attempt draws fresh random values.\<close>

fun handshake_open_loop ::
  "kx \<Rightarrow> ServerRandom list \<Rightarrow> 'a Session \<Rightarrow> 'a hs_events \<Rightarrow> unit outcome \<times> 'a Session \<times> 'a hs_events" where
  "handshake_open_loop K [] s evs = (Pending, s, evs)"
| "handshake_open_loop K (rnd # rnds) s evs =
     (if s_closed s
      then (Done (Inl (PeerClosedError ''session closed'')), transition_state Close s, evs)
      else case handshake_server_any K rnd s evs of
        (Done (Inr _), s, evs) \<Rightarrow> (case advance HandshakeOk ''handshake_ok'' s of (r, s) \<Rightarrow> (Done r, s, evs))
      | (Done (Inl (PeerClosedError _)), s, evs) \<Rightarrow>
          (Done (Inl (PeerClosedError ''session closed'')), transition_state Close s, evs)
      | (Pending, s, evs) \<Rightarrow> (Pending, s, evs)
      | (_, s, evs) \<Rightarrow>
          (let s = transition_state HandshakeTimeout s;
               s = transition_state Reconnect s;
               s = transition_state StartAccept s
           in handshake_open_loop K rnds (s\<lparr>s_peer := None\<rparr>) evs))"

definition handshake_open ::
  "kx \<Rightarrow> ServerRandom list \<Rightarrow> 'a Session \<Rightarrow> 'a hs_events \<Rightarrow> unit outcome \<times> 'a Session \<times> 'a hs_events" where
  "handshake_open K rnds s evs =
     (case advance StartAccept ''cannot start open handshake'' s of
        (Inl e, s) \<Rightarrow> (Done (Inl e), s, evs)
      | (Inr _, s) \<Rightarrow> handshake_open_loop K rnds s evs)"

declare recv_key_exchange.simps [simp del] recv_any_hello.simps [simp del]

section \<open>Key derivation lemmas\<close>

lemma foldl_or_eq_0:
  "foldl (\<lambda>d i. d OR f i) d0 xs = 0 \<longleftrightarrow> d0 = 0 \<and> (\<forall>i \<in> set xs. f i = 0)" for d0 :: "'a::len word"
  by (induction xs arbitrary: d0) (auto simp: or_eq_0_iff)

lemma xor_eq_0: "x XOR y = 0 \<longleftrightarrow> x = y" for x y :: "'a::len word"
  using xor_cancel [of x y y] by (simp add: xor_self_eq)

lemma constant_time_eq_iff: "length a = 16 \<Longrightarrow> length b = 16 \<Longrightarrow> constant_time_eq a b \<longleftrightarrow> a = b"
  by (auto simp: constant_time_eq_def foldl_or_eq_0 xor_eq_0 list_eq_iff_nth_eq)

lemma build_transcript_eq:
  "length cn = 32 \<Longrightarrow> length sn = 32 \<Longrightarrow> build_transcript cn sn sid = cn @ sn @ be32 sid"
  by (simp add: build_transcript_def Let_def wire)

lemma kx_okD:
  assumes "kx_ok K"
  shows "kx_dh K a (kx_public K b) = kx_dh K b (kx_public K a)" "length (kx_public K a) = 32"
    "length (derive_auth_tag K key label tr) = 16"
  using assms by (auto simp: kx_ok_def derive_auth_tag_def)

section \<open>Messages on the wire\<close>

definition control_packet :: "MessageType \<Rightarrow> u32 \<Rightarrow> u32 \<Rightarrow> u64 \<Rightarrow> bytes \<Rightarrow> bytes" where
  "control_packet m sid seq t pl = packet_bytes (PacketHeader_new (MessageType_code m) sid seq t) pl"

definition accepts :: "'a Env \<Rightarrow> 'a \<Rightarrow> bool" where
  "accepts env p \<longleftrightarrow> (\<forall>d. \<exists>n. env_send env d p = Inr n)"

lemma header_wf_new [simp]: "header_wf (PacketHeader_new c sid seq t)"
  by (simp add: header_wf_def PacketHeader_new_def)

lemma packet_from_control:
  "length pl \<le> 1176 \<Longrightarrow>
     packet_from p m' (control_packet m sid seq t pl) p =
       (if MessageType_code m = MessageType_code m' then Some pl else None)"
  by (simp add: packet_from_def control_packet_def PacketView_decode_packet_bytes)
     (simp add: PacketHeader_new_def)

lemma send_control_ok:
  assumes "accepts env p" and "length pl \<le> 1172" and "length pl + 28 \<le> cfg_mtu (s_config s)"
  obtains s' where "send_control env s m sid pl p = (Inr (), s')" "sends s s'"
    "outbox s' = outbox s @ [(p, control_packet m sid (tx_sequence s) (env_now env) pl)]"
    "tx_sequence s' = tx_sequence s + 1"
proof -
  let ?hdr = "PacketHeader_new (MessageType_code m) sid (tx_sequence s) (env_now env)"
  let ?s = "s\<lparr>tx_sequence := tx_sequence s + 1\<rparr>"
  obtain n where n: "env_send env (packet_bytes ?hdr pl) p = Inr n"
    using assms(1) by (auto simp: accepts_def)
  let ?s' = "count_sent n (?s\<lparr>outbox := outbox s @ [(p, packet_bytes ?hdr pl)]\<rparr>)"
  have "send_control env s m sid pl p = (Inr (), ?s')"
    using assms(2,3) n by (simp add: send_control_def send_packet_eq transport_send_def Let_def)
  moreover from this have "sends s ?s'"
    using send_control_sends [of s env m sid pl p] by simp
  ultimately show thesis
    using that by (simp add: control_packet_def count_sent_def)
qed

lemmas hello_sizes = ClientHello_SIZE_def ServerHello_SIZE_def KeyExchangeMsg_SIZE_def SessionConfirm_SIZE_def

lemma handshake_payloads:
  "ClientHello_wf ch \<Longrightarrow> ClientHello_encode ch (replicate ClientHello_SIZE 0) = Inr (ClientHello_layout ch)"
  "ServerHello_wf sh \<Longrightarrow> ServerHello_encode sh (replicate ServerHello_SIZE 0) = Inr (ServerHello_layout sh)"
  "KeyExchangeMsg_wf ke \<Longrightarrow> KeyExchangeMsg_encode ke (replicate KeyExchangeMsg_SIZE 0) = Inr (KeyExchangeMsg_layout ke)"
  "SessionConfirm_wf sc \<Longrightarrow> SessionConfirm_encode sc (replicate SessionConfirm_SIZE 0) = Inr (SessionConfirm_layout sc)"
  "ClientHello_wf ch \<Longrightarrow> ClientHello_decode (ClientHello_layout ch) = Inr ch"
  "ServerHello_wf sh \<Longrightarrow> ServerHello_decode (ServerHello_layout sh) = Inr sh"
  "KeyExchangeMsg_wf ke \<Longrightarrow> KeyExchangeMsg_decode (KeyExchangeMsg_layout ke) = Inr ke"
  "SessionConfirm_wf sc \<Longrightarrow> SessionConfirm_decode (SessionConfirm_layout sc) = Inr sc"
  using client_hello.encode_long [of ch "replicate ClientHello_SIZE 0"] client_hello.decode_layout [of ch "[]"]
    server_hello.encode_long [of sh "replicate ServerHello_SIZE 0"] server_hello.decode_layout [of sh "[]"]
    key_exchange.encode_long [of ke "replicate KeyExchangeMsg_SIZE 0"] key_exchange.decode_layout [of ke "[]"]
    session_confirm.encode_long [of sc "replicate SessionConfirm_SIZE 0"] session_confirm.decode_layout [of sc "[]"]
  by simp_all

lemma handshake_lengths:
  "ClientHello_wf ch \<Longrightarrow> length (ClientHello_layout ch) = 80"
  "ServerHello_wf sh \<Longrightarrow> length (ServerHello_layout sh) = 84"
  "KeyExchangeMsg_wf ke \<Longrightarrow> length (KeyExchangeMsg_layout ke) = 20"
  "SessionConfirm_wf sc \<Longrightarrow> length (SessionConfirm_layout sc) = 20"
  using client_hello.length_layout server_hello.length_layout key_exchange.length_layout
    session_confirm.length_layout by (simp_all add: hello_sizes)

section \<open>A run of each side\<close>

text \<open>What a handshake leaves alone: the configuration, the jitter buffer, the numbering of audio frames and the parity coders.\<close>

definition kept :: "'a Session \<Rightarrow> 'a Session \<Rightarrow> bool" where
  "kept s s' \<longleftrightarrow> s_config s' = s_config s \<and> s_jitter s' = s_jitter s \<and> audio_tx_seq s' = audio_tx_seq s \<and>
     fec_enc s' = fec_enc s \<and> fec_dec s' = fec_dec s"

text \<open>The client given a server hello and the matching confirmation.\<close>

lemma client_run:
  fixes s :: "'a Session"
  assumes kx: "kx_ok K" and nonce: "length (cr_nonce rnd) = 32" and sh: "ServerHello_wf sh"
    and ver: "sh_protocol_version sh = 1" and codec: "sh_codec_accepted sh \<in> set (cfg_supported_codecs (s_config s))"
    and acc: "accepts e1 p" and mtu: "112 \<le> cfg_mtu (s_config s)"
    and tr: "tr = build_transcript (cr_nonce rnd) (sh_server_nonce sh) (sh_session_id sh)"
    and keys: "(ek, dk) = derive_session_keys K (kx_dh K (cr_secret rnd) (sh_ephemeral_public_key sh)) tr"
    and sc: "sc = \<lparr>sc_session_id = sh_session_id sh, sc_server_auth_tag = derive_auth_tag K dk server_label tr\<rparr>"
  obtains s' where
    "handshake_client K rnd s p
       [(e1, HsRecv (RecvData (control_packet HandshakeServerHello sid2 seq2 t2 (ServerHello_layout sh)) p)),
        (e2, HsRecv (RecvData (control_packet HandshakeSessionConfirm sid4 seq4 t4 (SessionConfirm_layout sc)) p))]
     = (Done (Inr ()), s', [])"
    "outbox s' = outbox s @
       [(p, control_packet HandshakeClientHello 0 (tx_sequence s) (env_now e1)
              (ClientHello_layout (client_hello_msg K rnd (s_config s)))),
        (p, control_packet HandshakeKeyExchange (sh_session_id sh) (tx_sequence s + 1) (env_now e1)
              (KeyExchangeMsg_layout \<lparr>ke_session_id = sh_session_id sh,
                 ke_auth_tag = derive_auth_tag K ek client_label tr\<rparr>))]"
    "encrypt_key s' = Some ek" "decrypt_key s' = Some dk" "s_session_id s' = sh_session_id sh"
    "negotiated_codec s' = sh_codec_accepted sh" "s_state s' = s_state s" "s_peer s' = s_peer s"
    "s_closed s' = s_closed s" "kept s s'"
proof -
  let ?ch = "client_hello_msg K rnd (s_config s)"
  let ?ke = "\<lparr>ke_session_id = sh_session_id sh, ke_auth_tag = derive_auth_tag K ek client_label tr\<rparr>"
  have wf: "ClientHello_wf ?ch" "KeyExchangeMsg_wf ?ke" "SessionConfirm_wf sc"
    using kx_okD [OF kx] nonce
    by (simp_all add: ClientHello_wf_def KeyExchangeMsg_wf_def SessionConfirm_wf_def client_hello_msg_def sc)
  note len = handshake_lengths(1) [OF wf(1)] handshake_lengths(2) [OF sh] handshake_lengths(3) [OF wf(2)]
    handshake_lengths(4) [OF wf(3)]
  obtain s1 where s1: "send_control e1 s HandshakeClientHello 0 (ClientHello_layout ?ch) p = (Inr (), s1)"
    "sends s s1" "outbox s1 = outbox s @ [(p, control_packet HandshakeClientHello 0 (tx_sequence s) (env_now e1)
        (ClientHello_layout ?ch))]" "tx_sequence s1 = tx_sequence s + 1"
    by (rule send_control_ok [OF acc, of "ClientHello_layout ?ch" s]) (use len mtu in simp_all)
  obtain s2 where s2: "send_control e1 s1 HandshakeKeyExchange (sh_session_id sh) (KeyExchangeMsg_layout ?ke) p
      = (Inr (), s2)" "sends s1 s2" "outbox s2 = outbox s1 @ [(p, control_packet HandshakeKeyExchange
        (sh_session_id sh) (tx_sequence s1) (env_now e1) (KeyExchangeMsg_layout ?ke))]"
    by (rule send_control_ok [OF acc, of "KeyExchangeMsg_layout ?ke" s1]) (use len mtu sendsD(3) [OF s1(2)] in simp_all)
  have sends2: "sends s s2"
    using sends_trans [OF s1(2) s2(2)] .
  have tag: "constant_time_eq (sc_server_auth_tag sc) (derive_auth_tag K dk server_label tr)"
    using kx_okD(3) [OF kx] by (simp add: sc constant_time_eq_iff)
  have confirm: "recv_session_confirm s2 p (sh_session_id sh)
      [(e2, HsRecv (RecvData (control_packet HandshakeSessionConfirm sid4 seq4 t4 (SessionConfirm_layout sc)) p))]
      = (Done (Inr sc), s2, [])"
    using len(4) wf(3) by (simp add: packet_from_control handshake_payloads) (simp add: sc)
  have finish: "client_finish K rnd e1 s1 p sh
      [(e2, HsRecv (RecvData (control_packet HandshakeSessionConfirm sid4 seq4 t4 (SessionConfirm_layout sc)) p))]
      = (Done (Inr ()), store_keys ek dk (s2\<lparr>s_session_id := sh_session_id sh,
           local_ssrc := sh_session_id sh XOR rd32 0 ek, negotiated_codec := sh_codec_accepted sh\<rparr>), [])"
    using ver codec sendsD(3) [OF s1(2)] s2(1) confirm tag wf(2)
    by (simp add: client_finish_def Let_def version_consts keys [symmetric] tr [symmetric] handshake_payloads)
  have "handshake_client K rnd s p
       [(e1, HsRecv (RecvData (control_packet HandshakeServerHello sid2 seq2 t2 (ServerHello_layout sh)) p)),
        (e2, HsRecv (RecvData (control_packet HandshakeSessionConfirm sid4 seq4 t4 (SessionConfirm_layout sc)) p))]
     = (Done (Inr ()), store_keys ek dk (s2\<lparr>s_session_id := sh_session_id sh,
           local_ssrc := sh_session_id sh XOR rd32 0 ek, negotiated_codec := sh_codec_accepted sh\<rparr>), [])"
    using s1(1) wf(1) sh len(2) finish
    by (simp add: handshake_client_def handshake_payloads packet_from_control)
  then show thesis
    by (rule that) (use s1 s2 sendsD [OF sends2] in \<open>simp_all add: store_keys_def kept_def\<close>)
qed

text \<open>The server given a client hello and the matching key exchange.\<close>

lemma server_run:
  fixes s :: "'a Session"
  assumes kx: "kx_ok K" and nonce: "length (sr_nonce rnd) = 32" and ch: "ClientHello_wf ch"
    and ver: "ch_protocol_version ch = 1" and codec: "choose_codec (s_config s) ch = Inr c"
    and acc: "accepts f1 p" "accepts f2 p" and mtu: "112 \<le> cfg_mtu (s_config s)" and open_s: "\<not> s_closed s"
    and tr: "tr = build_transcript (ch_client_nonce ch) (sr_nonce rnd) (sr_session_id rnd)"
    and keys: "(ek, dk) = derive_session_keys K (kx_dh K (sr_secret rnd) (ch_ephemeral_public_key ch)) tr"
    and ke: "ke = \<lparr>ke_session_id = sr_session_id rnd, ke_auth_tag = derive_auth_tag K ek client_label tr\<rparr>"
  obtains s' where
    "handshake_server K rnd s p
       [(f1, HsRecv (RecvData (control_packet HandshakeClientHello sid1 seq1 t1 (ClientHello_layout ch)) p)),
        (f2, HsRecv (RecvData (control_packet HandshakeKeyExchange sid3 seq3 t3 (KeyExchangeMsg_layout ke)) p))]
     = (Done (Inr ()), s', [])"
    "outbox s' = outbox s @
       [(p, control_packet HandshakeServerHello (sr_session_id rnd) (tx_sequence s) (env_now f1)
              (ServerHello_layout (server_hello_msg K rnd (s_config s) ch 1 c))),
        (p, control_packet HandshakeSessionConfirm (sr_session_id rnd) (tx_sequence s + 1) (env_now f2)
              (SessionConfirm_layout \<lparr>sc_session_id = sr_session_id rnd,
                 sc_server_auth_tag = derive_auth_tag K dk server_label tr\<rparr>))]"
    "encrypt_key s' = Some dk" "decrypt_key s' = Some ek" "s_session_id s' = sr_session_id rnd"
    "negotiated_codec s' = c" "s_state s' = s_state s" "s_peer s' = s_peer s" "s_closed s' = s_closed s"
    "kept s s'"
proof -
  let ?sh = "server_hello_msg K rnd (s_config s) ch 1 c"
  let ?sc = "\<lparr>sc_session_id = sr_session_id rnd, sc_server_auth_tag = derive_auth_tag K dk server_label tr\<rparr>"
  let ?s = "s\<lparr>s_session_id := sr_session_id rnd, negotiated_codec := c\<rparr>"
  let ?ev2 = "(f2, HsRecv (RecvData (control_packet HandshakeKeyExchange sid3 seq3 t3 (KeyExchangeMsg_layout ke)) p))"
  have wf: "ServerHello_wf ?sh" "KeyExchangeMsg_wf ke" "SessionConfirm_wf ?sc"
    using kx_okD [OF kx] nonce
    by (simp_all add: ServerHello_wf_def KeyExchangeMsg_wf_def SessionConfirm_wf_def server_hello_msg_def ke)
  note len = handshake_lengths(1) [OF ch] handshake_lengths(2) [OF wf(1)] handshake_lengths(3) [OF wf(2)]
    handshake_lengths(4) [OF wf(3)]
  obtain s1 where s1: "send_control f1 ?s HandshakeServerHello (sr_session_id rnd) (ServerHello_layout ?sh) p = (Inr (), s1)"
    "sends ?s s1" "outbox s1 = outbox ?s @ [(p, control_packet HandshakeServerHello (sr_session_id rnd)
        (tx_sequence ?s) (env_now f1) (ServerHello_layout ?sh))]" "tx_sequence s1 = tx_sequence ?s + 1"
    by (rule send_control_ok [OF acc(1), of "ServerHello_layout ?sh" ?s]) (use len mtu in simp_all)
  obtain s2 where s2: "send_control f2 s1 HandshakeSessionConfirm (sr_session_id rnd) (SessionConfirm_layout ?sc) p
      = (Inr (), s2)" "sends s1 s2" "outbox s2 = outbox s1 @ [(p, control_packet HandshakeSessionConfirm
        (sr_session_id rnd) (tx_sequence s1) (env_now f2) (SessionConfirm_layout ?sc))]"
    by (rule send_control_ok [OF acc(2), of "SessionConfirm_layout ?sc" s1]) (use len mtu sendsD(3) [OF s1(2)] in simp_all)
  have sends2: "sends ?s s2"
    using sends_trans [OF s1(2) s2(2)] .
  have hello: "recv_client_hello s p
      [(f1, HsRecv (RecvData (control_packet HandshakeClientHello sid1 seq1 t1 (ClientHello_layout ch)) p)), ?ev2]
      = (Done (Inr (f1, ch)), s, [?ev2])"
    using len(1) ch by (simp add: packet_from_control handshake_payloads)
  have kx1: "recv_key_exchange s1 p (sr_session_id rnd) (ServerHello_layout ?sh) False [?ev2] = (Done (Inr (f2, ke)), s1, [])"
    using len(3) wf(2) open_s sendsD(15) [OF s1(2)]
    by (simp add: recv_key_exchange.simps packet_from_control handshake_payloads)
  have tag: "constant_time_eq (ke_auth_tag ke) (derive_auth_tag K ek client_label tr)"
    using kx_okD(3) [OF kx] by (simp add: ke constant_time_eq_iff)
  have confirm: "server_confirm K f2 s1 p (sr_session_id rnd) tr dk ek ke = (Inr (), store_keys dk ek s2)"
    using tag s2(1) wf(3) by (simp add: server_confirm_def Let_def handshake_payloads) (simp add: ke)
  have "server_accept K rnd f1 s p ch [?ev2] = (Done (Inr ()), store_keys dk ek s2, [])"
    using ver codec s1(1) kx1 confirm wf(1)
    by (simp add: server_accept_def Let_def version_consts keys [symmetric] tr [symmetric] handshake_payloads)
  then have "handshake_server K rnd s p
       [(f1, HsRecv (RecvData (control_packet HandshakeClientHello sid1 seq1 t1 (ClientHello_layout ch)) p)), ?ev2]
     = (Done (Inr ()), store_keys dk ek s2, [])"
    unfolding handshake_server_def hello by simp
  then show thesis
    by (rule that) (use s1 s2 sendsD [OF sends2] in \<open>simp_all add: store_keys_def kept_def\<close>)
qed

lemma handshake_ok:
  assumes "sm_state (s_state s) = S_Idle"
  shows "handshake_client K cr (s\<lparr>s_peer := Some p, s_state := \<lparr>sm_state = S_Handshaking\<rparr>\<rparr>) p evs = (Done (Inr ()), s2, evs') \<Longrightarrow>
      sm_state (s_state s2) = S_Handshaking \<Longrightarrow>
      handshake K (ClientSide cr) s p evs = (Done (Inr ()), s2\<lparr>s_state := \<lparr>sm_state = S_Active\<rparr>\<rparr>, evs')"
    and "handshake_server K sr (s\<lparr>s_peer := Some p, s_state := \<lparr>sm_state = S_Handshaking\<rparr>\<rparr>) p evs = (Done (Inr ()), s2, evs') \<Longrightarrow>
      sm_state (s_state s2) = S_Handshaking \<Longrightarrow>
      handshake K (ServerSide sr) s p evs = (Done (Inr ()), s2\<lparr>s_state := \<lparr>sm_state = S_Active\<rparr>\<rparr>, evs')"
  using assms by (simp_all add: handshake_def advance_def transition_step transition_next_def)

text \<open>Both sides together, each given what the other sends.\<close>

lemma handshake_pair:
  fixes c :: "'a Session" and v :: "'a Session"
  assumes "kx_ok K" and "length (cr_nonce cr) = 32" and "length (sr_nonce sr) = 32"
    and "sm_state (s_state c) = S_Idle" and "sm_state (s_state v) = S_Idle" and "\<not> s_closed v"
    and "accepts e1 sa" and "accepts f1 ca" and "accepts f2 ca"
    and "112 \<le> cfg_mtu (s_config c)" and "112 \<le> cfg_mtu (s_config v)"
    and "choose_codec (s_config v) (client_hello_msg K cr (s_config c)) = Inr codec"
    and "codec \<in> set (cfg_supported_codecs (s_config c))"
  shows "\<exists>d1 d2 d3 d4 c' v'.
    handshake K (ClientSide cr) c sa [(e1, HsRecv (RecvData d2 sa)), (e2, HsRecv (RecvData d4 sa))] =
      (Done (Inr ()), c', []) \<and>
    handshake K (ServerSide sr) v ca [(f1, HsRecv (RecvData d1 ca)), (f2, HsRecv (RecvData d3 ca))] =
      (Done (Inr ()), v', []) \<and>
    outbox c' = outbox c @ [(sa, d1), (sa, d3)] \<and> outbox v' = outbox v @ [(ca, d2), (ca, d4)] \<and>
    sm_state (s_state c') = S_Active \<and> sm_state (s_state v') = S_Active \<and>
    s_peer c' = Some sa \<and> s_peer v' = Some ca \<and>
    encrypt_key c' \<noteq> None \<and> encrypt_key c' = decrypt_key v' \<and>
    decrypt_key c' \<noteq> None \<and> decrypt_key c' = encrypt_key v' \<and>
    s_session_id c' = s_session_id v' \<and> negotiated_codec c' = codec \<and> negotiated_codec v' = codec \<and>
    kept c c' \<and> kept v v'"
proof -
  define c1 where "c1 = c\<lparr>s_peer := Some sa, s_state := \<lparr>sm_state = S_Handshaking\<rparr>\<rparr>"
  define v1 where "v1 = v\<lparr>s_peer := Some ca, s_state := \<lparr>sm_state = S_Handshaking\<rparr>\<rparr>"
  have fields: "s_config c1 = s_config c" "s_config v1 = s_config v" "outbox c1 = outbox c" "outbox v1 = outbox v"
    "\<not> s_closed v1" "sm_state (s_state c1) = S_Handshaking" "sm_state (s_state v1) = S_Handshaking"
    "s_peer c1 = Some sa" "s_peer v1 = Some ca" "kept c1 = kept c" "kept v1 = kept v"
    using assms(6) by (simp_all add: c1_def v1_def kept_def fun_eq_iff)
  let ?ch = "client_hello_msg K cr (s_config c)"
  let ?sh = "server_hello_msg K sr (s_config v) ?ch 1 codec"
  let ?tr = "build_transcript (cr_nonce cr) (sr_nonce sr) (sr_session_id sr)"
  obtain ek dk where keys: "(ek, dk) = derive_session_keys K (kx_dh K (cr_secret cr) (kx_public K (sr_secret sr))) ?tr"
    by (metis surj_pair)
  have keys': "(ek, dk) = derive_session_keys K (kx_dh K (sr_secret sr) (kx_public K (cr_secret cr))) ?tr"
    using keys kx_okD(1) [OF assms(1)] by simp
  have wf: "ClientHello_wf ?ch" "ServerHello_wf ?sh"
    using kx_okD(2) [OF assms(1)] assms(2,3)
    by (simp_all add: ClientHello_wf_def ServerHello_wf_def client_hello_msg_def server_hello_msg_def)
  have sh: "sh_session_id ?sh = sr_session_id sr" "sh_server_nonce ?sh = sr_nonce sr" "sh_protocol_version ?sh = 1"
    "sh_codec_accepted ?sh = codec" "sh_ephemeral_public_key ?sh = kx_public K (sr_secret sr)"
    by (simp_all add: server_hello_msg_def)
  have ch: "ch_protocol_version ?ch = 1" "ch_client_nonce ?ch = cr_nonce cr"
    "ch_ephemeral_public_key ?ch = kx_public K (cr_secret cr)"
    by (simp_all add: client_hello_msg_def version_consts)
  let ?d2 = "control_packet HandshakeServerHello (sr_session_id sr) (tx_sequence v1) (env_now f1) (ServerHello_layout ?sh)"
  let ?sc = "\<lparr>sc_session_id = sr_session_id sr, sc_server_auth_tag = derive_auth_tag K dk server_label ?tr\<rparr>"
  let ?d4 = "control_packet HandshakeSessionConfirm (sr_session_id sr) (tx_sequence v1 + 1) (env_now f2)
    (SessionConfirm_layout ?sc)"
  let ?ke = "\<lparr>ke_session_id = sr_session_id sr, ke_auth_tag = derive_auth_tag K ek client_label ?tr\<rparr>"
  let ?d1 = "control_packet HandshakeClientHello 0 (tx_sequence c1) (env_now e1) (ClientHello_layout ?ch)"
  let ?d3 = "control_packet HandshakeKeyExchange (sr_session_id sr) (tx_sequence c1 + 1) (env_now e1)
    (KeyExchangeMsg_layout ?ke)"
  obtain c2 where c2: "handshake_client K cr c1 sa [(e1, HsRecv (RecvData ?d2 sa)), (e2, HsRecv (RecvData ?d4 sa))]
      = (Done (Inr ()), c2, [])" "outbox c2 = outbox c @ [(sa, ?d1), (sa, ?d3)]" "encrypt_key c2 = Some ek"
    "decrypt_key c2 = Some dk" "s_session_id c2 = sr_session_id sr" "negotiated_codec c2 = codec"
    "sm_state (s_state c2) = S_Handshaking" "s_peer c2 = Some sa" "kept c c2"
    by (rule client_run [where s = c1 and rnd = cr and sh = ?sh and tr = ?tr and ek = ek and dk = dk and sc = ?sc and
          ?sid2.0 = "sr_session_id sr" and ?seq2.0 = "tx_sequence v1" and ?t2.0 = "env_now f1" and ?e2.0 = e2 and
          ?sid4.0 = "sr_session_id sr" and ?seq4.0 = "tx_sequence v1 + 1" and ?t4.0 = "env_now f2", OF assms(1,2) wf(2)])
       ((rule that; use fields in \<open>simp add: sh\<close>) | (use assms keys fields in \<open>simp add: sh\<close>))+
  obtain v2 where v2: "handshake_server K sr v1 ca [(f1, HsRecv (RecvData ?d1 ca)), (f2, HsRecv (RecvData ?d3 ca))]
      = (Done (Inr ()), v2, [])" "outbox v2 = outbox v @ [(ca, ?d2), (ca, ?d4)]" "encrypt_key v2 = Some dk"
    "decrypt_key v2 = Some ek" "s_session_id v2 = sr_session_id sr" "negotiated_codec v2 = codec"
    "sm_state (s_state v2) = S_Handshaking" "s_peer v2 = Some ca" "kept v v2"
    by (rule server_run [where s = v1 and rnd = sr and ch = ?ch and tr = ?tr and ek = ek and dk = dk and ke = ?ke and
          ?sid1.0 = 0 and ?seq1.0 = "tx_sequence c1" and ?t1.0 = "env_now e1" and ?sid3.0 = "sr_session_id sr" and
          ?seq3.0 = "tx_sequence c1 + 1" and ?t3.0 = "env_now e1" and ?f2.0 = f2, OF assms(1,3) wf(1)])
       ((rule that; use fields in \<open>simp add: ch\<close>) | (use assms keys' fields in \<open>simp add: ch\<close>))+
  let ?c' = "c2\<lparr>s_state := \<lparr>sm_state = S_Active\<rparr>\<rparr>" and ?v' = "v2\<lparr>s_state := \<lparr>sm_state = S_Active\<rparr>\<rparr>"
  have "handshake K (ClientSide cr) c sa [(e1, HsRecv (RecvData ?d2 sa)), (e2, HsRecv (RecvData ?d4 sa))] =
      (Done (Inr ()), ?c', [])"
    by (rule handshake_ok(1) [OF assms(4) _ c2(7)]) (use c2(1) in \<open>simp add: c1_def\<close>)
  moreover have "handshake K (ServerSide sr) v ca [(f1, HsRecv (RecvData ?d1 ca)), (f2, HsRecv (RecvData ?d3 ca))] =
      (Done (Inr ()), ?v', [])"
    by (rule handshake_ok(2) [OF assms(5) _ v2(7)]) (use v2(1) in \<open>simp add: v1_def\<close>)
  ultimately show ?thesis
    using c2 v2
    by (intro exI [of _ ?d1] exI [of _ ?d2] exI [of _ ?d3] exI [of _ ?d4] exI [of _ ?c'] exI [of _ ?v'])
      (simp add: kept_def)
qed

section \<open>Properties\<close>

text \<open>C4: handshake agreement.  Two idle sessions run the handshake, and each side receives exactly what the other side
  sends, in order.  If the transport takes the datagrams and the server's choice of codec is one the client supports,
  both sides finish without error and become active, hold the same keys (what one encrypts with is what the other
  decrypts with), and agree on the session identifier and the codec.\<close>

theorem handshake_agreement:
  fixes c :: "'a Session" and v :: "'a Session"
  assumes "kx_ok K" and "length (cr_nonce cr) = 32" and "length (sr_nonce sr) = 32"
    and "sm_state (s_state c) = S_Idle" and "sm_state (s_state v) = S_Idle" and "\<not> s_closed v"
    and "accepts e1 sa" and "accepts f1 ca" and "accepts f2 ca"
    and "112 \<le> cfg_mtu (s_config c)" and "112 \<le> cfg_mtu (s_config v)"
    and "choose_codec (s_config v) (client_hello_msg K cr (s_config c)) = Inr codec"
    and "codec \<in> set (cfg_supported_codecs (s_config c))"
  shows "\<exists>d1 d2 d3 d4 c' v'.
    handshake K (ClientSide cr) c sa [(e1, HsRecv (RecvData d2 sa)), (e2, HsRecv (RecvData d4 sa))] =
      (Done (Inr ()), c', []) \<and>
    handshake K (ServerSide sr) v ca [(f1, HsRecv (RecvData d1 ca)), (f2, HsRecv (RecvData d3 ca))] =
      (Done (Inr ()), v', []) \<and>
    outbox c' = outbox c @ [(sa, d1), (sa, d3)] \<and> outbox v' = outbox v @ [(ca, d2), (ca, d4)] \<and>
    sm_state (s_state c') = S_Active \<and> sm_state (s_state v') = S_Active \<and>
    s_peer c' = Some sa \<and> s_peer v' = Some ca \<and>
    encrypt_key c' \<noteq> None \<and> encrypt_key c' = decrypt_key v' \<and>
    decrypt_key c' \<noteq> None \<and> decrypt_key c' = encrypt_key v' \<and>
    s_session_id c' = s_session_id v' \<and> negotiated_codec c' = codec \<and> negotiated_codec v' = codec"
  using handshake_pair [OF assms] by blast

text \<open>A concrete key exchange for examples: it has the lengths and the symmetry the real one has.\<close>

definition demo_kx :: kx where
  "demo_kx =
     \<lparr>kx_public = (\<lambda>a. take 32 (a @ replicate 32 0)),
      kx_dh = (\<lambda>a p. map2 (\<lambda>x y. x XOR y) (take 32 (a @ replicate 32 0)) p),
      kx_hkdf = (\<lambda>salt ikm info n. take n (ikm @ info @ replicate n 0))\<rparr>"

lemma demo_kx_ok: "kx_ok demo_kx"
proof -
  have "map2 (\<lambda>x y. x XOR y) as bs = map2 (\<lambda>x y. x XOR y) bs as" for as bs :: bytes
    by (simp add: list_eq_iff_nth_eq xor.commute)
  moreover have "min l n + (n - l) = n" "min l n + (min k (n - l) + (n - (l + k))) = n" for l k n :: nat
    by auto
  ultimately show ?thesis
    by (simp add: kx_ok_def demo_kx_def)
qed

definition idle_session :: "nat Session" where
  "idle_session =
     (demo_session \<lparr>slots = [], capacity = 0, mask = 0, next_seq = 0, primed = False\<rparr>
        \<lparr>current_bitrate = 64000, min_bitrate = 8000, max_bitrate = 64000\<rparr>)
     \<lparr>s_state := SessionStateMachine_new, s_peer := None, encrypt_key := None, decrypt_key := None\<rparr>"

definition demo_cr :: ClientRandom where
  "demo_cr = \<lparr>cr_secret = [1], cr_nonce = replicate 32 2\<rparr>"

definition demo_sr :: ServerRandom where
  "demo_sr = \<lparr>sr_secret = [3], sr_nonce = replicate 32 4, sr_session_id = 77\<rparr>"

lemma demo_handshake:
  "length (cr_nonce demo_cr) = 32" "length (sr_nonce demo_sr) = 32"
  "sm_state (s_state idle_session) = S_Idle" "\<not> s_closed idle_session" "112 \<le> cfg_mtu (s_config idle_session)"
  "accepts (demo_env t) p"
  "choose_codec (s_config idle_session) (client_hello_msg demo_kx demo_cr (s_config idle_session)) = Inr 1"
  "(1 :: u8) \<in> set (cfg_supported_codecs (s_config idle_session))"
  by (simp_all add: demo_cr_def demo_sr_def accepts_def demo_env_def idle_session_def demo_session_def
      SessionStateMachine_new_def Config_default_def size_consts choose_codec_def client_hello_msg_def)

theorem handshake_agreement_witness:
  "\<exists>d1 d2 d3 d4 c' v'.
    handshake demo_kx (ClientSide demo_cr) idle_session 20
      [(demo_env 1, HsRecv (RecvData d2 20)), (demo_env 2, HsRecv (RecvData d4 20))] = (Done (Inr ()), c', []) \<and>
    handshake demo_kx (ServerSide demo_sr) idle_session 10
      [(demo_env 1, HsRecv (RecvData d1 10)), (demo_env 2, HsRecv (RecvData d3 10))] = (Done (Inr ()), v', []) \<and>
    encrypt_key c' = decrypt_key v' \<and> s_session_id c' = s_session_id v'"
  using handshake_agreement [OF demo_kx_ok demo_handshake(1,2,3,3,4,6,6,6,5,5,7,8)] by blast

section \<open>Authentication\<close>

lemma close_session_config [simp]: "s_config (snd (close_session env s)) = s_config s"
  by (auto simp: close_session_def Let_def transition_state_def sendsD(3) [OF send_control_sends] split: option.splits)

definition received_from :: "'a \<Rightarrow> MessageType \<Rightarrow> 'a hs_events \<Rightarrow> bytes \<Rightarrow> bool" where
  "received_from p m evs pl \<longleftrightarrow>
     (\<exists>env d. (env, HsRecv (RecvData d p)) \<in> set evs \<and> packet_from p m d p = Some pl)"

lemma packet_from_peer: "packet_from p m d src = Some pl \<Longrightarrow> src = p"
  by (simp add: packet_from_def split: if_splits)

lemma received_from_Cons:
  "packet_from p m d src = Some pl \<Longrightarrow> received_from p m ((env, HsRecv (RecvData d src)) # evs) pl"
  using packet_from_peer [of p m d src pl] by (auto simp: received_from_def)

lemma received_from_tl: "received_from p m evs pl \<Longrightarrow> received_from p m (e # evs) pl"
  unfolding received_from_def by auto

lemma received_from_mono: "received_from p m evs pl \<Longrightarrow> set evs \<subseteq> set evs' \<Longrightarrow> received_from p m evs' pl"
  unfolding received_from_def by blast

lemma recv_session_confirm_done:
  "recv_session_confirm s p sid evs = (Done (Inr sc), s', evs') \<Longrightarrow>
     \<exists>pl. received_from p HandshakeSessionConfirm evs pl \<and> SessionConfirm_decode pl = Inr sc \<and> sc_session_id sc = sid"
proof (induction evs arbitrary: s)
  case (Cons e evs)
  obtain env ev where e: "e = (env, ev)"
    by force
  show ?case
  proof (cases "\<exists>d src pl. ev = HsRecv (RecvData d src) \<and> packet_from p HandshakeSessionConfirm d src = Some pl")
    case True
    then obtain d src pl where ev: "ev = HsRecv (RecvData d src)"
      "packet_from p HandshakeSessionConfirm d src = Some pl"
      by blast
    then show ?thesis
      using Cons.prems e received_from_Cons [OF ev(2), of env evs] by (auto split: sum.splits if_splits)
  next
    case False
    then have "\<exists>s. recv_session_confirm s p sid evs = (Done (Inr sc), s', evs')"
      using Cons.prems e by (auto split: hs_event.splits recv_event.splits option.splits)
    then show ?thesis
      using Cons.IH received_from_tl [of p HandshakeSessionConfirm evs _ e] by blast
  qed
qed simp

lemma client_loop_done:
  "client_loop K rnd s p hp attempt w evs = (Done (Inr ()), s', evs') \<Longrightarrow>
     \<exists>env s1 pl sh rest. received_from p HandshakeServerHello evs pl \<and> ServerHello_decode pl = Inr sh \<and>
       client_finish K rnd env s1 p sh rest = (Done (Inr ()), s', evs') \<and> set rest \<subseteq> set evs \<and>
       s_config s1 = s_config s"
proof (induction evs arbitrary: s attempt w)
  case (Cons e evs)
  obtain env ev where e: "e = (env, ev)"
    by force
  obtain r s1 where s1: "(if w then (Inr (), s) else send_control env s HandshakeClientHello 0 hp p) = (r, s1)"
    by force
  have r: "r = Inr ()"
    using Cons.prems s1 e by (cases r) auto
  have cfg: "s_config s1 = s_config s"
    using s1 sendsD(3) [OF send_control_sends [of s env HandshakeClientHello 0 hp p]] by (auto split: if_splits)
  show ?case
  proof (cases "\<exists>d src pl. ev = HsRecv (RecvData d src) \<and> packet_from p HandshakeServerHello d src = Some pl")
    case True
    then obtain d src pl where ev: "ev = HsRecv (RecvData d src)"
      "packet_from p HandshakeServerHello d src = Some pl"
      by blast
    obtain sh where "ServerHello_decode pl = Inr sh" "client_finish K rnd env s1 p sh evs = (Done (Inr ()), s', evs')"
      using Cons.prems s1 r e ev by (auto split: sum.splits)
    then show ?thesis
      using received_from_Cons [OF ev(2), of env evs] cfg e ev(1) by (metis set_subset_Cons)
  next
    case False
    then have "\<exists>s2 a w. client_loop K rnd s2 p hp a w evs = (Done (Inr ()), s', evs') \<and> s_config s2 = s_config s1"
      using Cons.prems s1 r e
      by (auto split: hs_event.splits recv_event.splits option.splits if_splits intro: close_session_config)
    then show ?thesis
      using Cons.IH received_from_tl [of p HandshakeServerHello evs _ e] cfg by (metis set_subset_Cons subset_trans)
  qed
qed simp

text \<open>C16: the client authenticates the server.  If the client's handshake succeeds, then it has received, from its peer,
  a server hello with an acceptable version and a codec the client supports, and a confirmation for the same session
  whose tag is the one derived from the agreed secret and both nonces; exactly the keys derived there are stored.\<close>

theorem client_authenticates_server:
  assumes "kx_ok K" and "handshake_client K rnd s p evs = (Done (Inr ()), s', evs')"
  shows "\<exists>pl2 sh pl4 sc ek dk tr.
    received_from p HandshakeServerHello evs pl2 \<and> ServerHello_decode pl2 = Inr sh \<and>
    received_from p HandshakeSessionConfirm evs pl4 \<and> SessionConfirm_decode pl4 = Inr sc \<and>
    sh_protocol_version sh = PROTOCOL_VERSION \<and> sh_codec_accepted sh \<in> set (cfg_supported_codecs (s_config s)) \<and>
    tr = build_transcript (cr_nonce rnd) (sh_server_nonce sh) (sh_session_id sh) \<and>
    (ek, dk) = derive_session_keys K (kx_dh K (cr_secret rnd) (sh_ephemeral_public_key sh)) tr \<and>
    sc_session_id sc = sh_session_id sh \<and> sc_server_auth_tag sc = derive_auth_tag K dk server_label tr \<and>
    encrypt_key s' = Some ek \<and> decrypt_key s' = Some dk \<and> s_session_id s' = sh_session_id sh \<and>
    negotiated_codec s' = sh_codec_accepted sh"
proof -
  obtain hp where "client_loop K rnd s p hp 0 False evs = (Done (Inr ()), s', evs')"
    using assms(2) by (auto simp: handshake_client_def split: sum.splits)
  from client_loop_done [OF this]
  obtain env s1 pl2 sh rest where pl2: "received_from p HandshakeServerHello evs pl2" "ServerHello_decode pl2 = Inr sh"
    and fin: "client_finish K rnd env s1 p sh rest = (Done (Inr ()), s', evs')" and rest: "set rest \<subseteq> set evs"
    and cfg: "s_config s1 = s_config s"
    by blast
  define tr where "tr = build_transcript (cr_nonce rnd) (sh_server_nonce sh) (sh_session_id sh)"
  obtain ek dk where keys: "(ek, dk) = derive_session_keys K (kx_dh K (cr_secret rnd) (sh_ephemeral_public_key sh)) tr"
    by (metis surj_pair)
  obtain s2 sc s3 evs3 where confirm: "recv_session_confirm s2 p (sh_session_id sh) rest = (Done (Inr sc), s3, evs3)"
    and tag: "constant_time_eq (sc_server_auth_tag sc) (derive_auth_tag K dk server_label tr)"
    and ver: "\<not> sh_protocol_version sh < 1" "\<not> sh_protocol_version sh > 1"
    and codec: "sh_codec_accepted sh \<in> set (cfg_supported_codecs (s_config s))"
    and s': "encrypt_key s' = Some ek" "decrypt_key s' = Some dk" "s_session_id s' = sh_session_id sh"
      "negotiated_codec s' = sh_codec_accepted sh"
    using fin
    by (auto simp: client_finish_def Let_def tr_def [symmetric] keys [symmetric] version_consts cfg store_keys_def
        split: if_splits sum.splits prod.splits outcome.splits)
  from recv_session_confirm_done [OF confirm] obtain pl4 where pl4: "received_from p HandshakeSessionConfirm rest pl4"
    "SessionConfirm_decode pl4 = Inr sc" "sc_session_id sc = sh_session_id sh"
    by blast
  have "length (sc_server_auth_tag sc) = 16"
    using session_confirm.decode_sound [OF pl4(2)] by (simp add: SessionConfirm_wf_def)
  then have "sc_server_auth_tag sc = derive_auth_tag K dk server_label tr"
    using tag kx_okD(3) [OF assms(1)] by (simp add: constant_time_eq_iff)
  moreover have "sh_protocol_version sh = PROTOCOL_VERSION"
    unfolding PROTOCOL_VERSION_def using ver by (metis antisym_conv3)
  ultimately show ?thesis
    using pl2 pl4 received_from_mono [OF pl4(1) rest] keys tr_def codec s' by blast
qed

text \<open>The key exchange the server accepts came from its peer.\<close>

lemma recv_key_exchange_done:
  "recv_key_exchange s p sid shp w evs = (Done (Inr (env, ke)), s', evs') \<Longrightarrow>
     \<exists>pl. received_from p HandshakeKeyExchange evs pl \<and> KeyExchangeMsg_decode pl = Inr ke"
proof (induction evs arbitrary: s w)
  case Nil
  then show ?case
    by (subst (asm) recv_key_exchange.simps) (auto split: if_splits)
next
  case (Cons e evs)
  obtain env0 ev where e: "e = (env0, ev)"
    by force
  show ?case
  proof (cases "\<exists>d src pl. ev = HsRecv (RecvData d src) \<and> packet_from p HandshakeClientHello d src = None \<and>
      packet_from p HandshakeKeyExchange d src = Some pl")
    case True
    then obtain d src pl where ev: "ev = HsRecv (RecvData d src)" "packet_from p HandshakeClientHello d src = None"
      "packet_from p HandshakeKeyExchange d src = Some pl"
      by blast
    then show ?thesis
      using Cons.prems e received_from_Cons [OF ev(3), of env0 evs]
      by (subst (asm) (1) recv_key_exchange.simps) (auto split: sum.splits if_splits)
  next
    case False
    then have "\<exists>s w. recv_key_exchange s p sid shp w evs = (Done (Inr (env, ke)), s', evs')"
      using Cons.prems e
      by (subst (asm) (1) recv_key_exchange.simps)
         (auto split: hs_event.splits recv_event.splits option.splits if_splits prod.splits sum.splits)
    then show ?thesis
      using Cons.IH received_from_tl [of p HandshakeKeyExchange evs _ e] by blast
  qed
qed

lemma recv_client_hello_done:
  "recv_client_hello s p evs = (Done (Inr (env, ch)), s', evs') \<Longrightarrow>
     \<exists>pl. received_from p HandshakeClientHello evs pl \<and> ClientHello_decode pl = Inr ch \<and> set evs' \<subseteq> set evs \<and>
       s_config s' = s_config s"
proof (induction evs arbitrary: s)
  case (Cons e evs)
  obtain env0 ev where e: "e = (env0, ev)"
    by force
  show ?case
  proof (cases "\<exists>d src pl. ev = HsRecv (RecvData d src) \<and> packet_from p HandshakeClientHello d src = Some pl")
    case True
    then obtain d src pl where ev: "ev = HsRecv (RecvData d src)" "packet_from p HandshakeClientHello d src = Some pl"
      by blast
    then show ?thesis
      using Cons.prems e received_from_Cons [OF ev(2), of env0 evs] by (auto split: sum.splits)
  next
    case False
    then have "\<exists>s1. recv_client_hello s1 p evs = (Done (Inr (env, ch)), s', evs') \<and> s_config s1 = s_config s"
      using Cons.prems e
      by (auto split: hs_event.splits recv_event.splits option.splits intro: close_session_config)
    then show ?thesis
      using Cons.IH received_from_tl [of p HandshakeClientHello evs _ e] by (metis set_subset_Cons subset_trans)
  qed
qed simp

text \<open>C17: the server authenticates the client.  If the server's handshake succeeds, it has received, from its peer, a client
  hello and a key-exchange message for its session identifier whose tag is the one derived from the agreed secret and
  both nonces; the keys it stores are the client's, swapped.\<close>

theorem server_authenticates_client:
  assumes "kx_ok K" and "handshake_server K rnd s p evs = (Done (Inr ()), s', evs')"
  shows "\<exists>pl1 ch pl3 ke ek dk tr.
    received_from p HandshakeClientHello evs pl1 \<and> ClientHello_decode pl1 = Inr ch \<and>
    received_from p HandshakeKeyExchange evs pl3 \<and> KeyExchangeMsg_decode pl3 = Inr ke \<and>
    tr = build_transcript (ch_client_nonce ch) (sr_nonce rnd) (sr_session_id rnd) \<and>
    (ek, dk) = derive_session_keys K (kx_dh K (sr_secret rnd) (ch_ephemeral_public_key ch)) tr \<and>
    ke_session_id ke = sr_session_id rnd \<and> ke_auth_tag ke = derive_auth_tag K ek client_label tr \<and>
    encrypt_key s' = Some dk \<and> decrypt_key s' = Some ek"
proof -
  obtain env ch s1 evs1 where hello: "recv_client_hello s p evs = (Done (Inr (env, ch)), s1, evs1)"
    and acc: "server_accept K rnd env s1 p ch evs1 = (Done (Inr ()), s', evs')"
    using assms(2) by (auto simp: handshake_server_def split: outcome.splits sum.splits prod.splits)
  from recv_client_hello_done [OF hello] obtain pl1 where pl1: "received_from p HandshakeClientHello evs pl1"
    "ClientHello_decode pl1 = Inr ch" and sub: "set evs1 \<subseteq> set evs"
    by blast
  define tr where "tr = build_transcript (ch_client_nonce ch) (sr_nonce rnd) (sr_session_id rnd)"
  obtain ek dk where keys: "(ek, dk) = derive_session_keys K (kx_dh K (sr_secret rnd) (ch_ephemeral_public_key ch)) tr"
    by (metis surj_pair)
  obtain s2 shp env3 ke s3 evs3
    where kx: "recv_key_exchange s2 p (sr_session_id rnd) shp False evs1 = (Done (Inr (env3, ke)), s3, evs3)"
      and conf: "server_confirm K env3 s3 p (sr_session_id rnd) tr dk ek ke = (Inr (), s')"
    using acc
    by (auto simp: server_accept_def Let_def tr_def [symmetric] keys [symmetric]
        split: if_splits sum.splits prod.splits outcome.splits)
  from recv_key_exchange_done [OF kx] obtain pl3 where pl3: "received_from p HandshakeKeyExchange evs1 pl3"
    "KeyExchangeMsg_decode pl3 = Inr ke"
    by blast
  have tag: "ke_session_id ke = sr_session_id rnd" "constant_time_eq (ke_auth_tag ke) (derive_auth_tag K ek client_label tr)"
    and s': "encrypt_key s' = Some dk" "decrypt_key s' = Some ek"
    using conf by (auto simp: server_confirm_def Let_def store_keys_def split: if_splits sum.splits prod.splits)
  have "length (ke_auth_tag ke) = 16"
    using key_exchange.decode_sound [OF pl3(2)] by (simp add: KeyExchangeMsg_wf_def)
  then have "ke_auth_tag ke = derive_auth_tag K ek client_label tr"
    using tag(2) kx_okD(3) [OF assms(1)] by (simp add: constant_time_eq_iff)
  then show ?thesis
    using pl1 pl3(2) received_from_mono [OF pl3(1) sub] tr_def keys tag(1) s' by blast
qed

text \<open>A successful run of each side, and the two properties on it.\<close>

lemma demo_client:
  "\<exists>evs s'. handshake_client demo_kx demo_cr idle_session 20 evs = (Done (Inr ()), s', [])"
proof -
  let ?sh = "server_hello_msg demo_kx demo_sr (s_config idle_session)
    (client_hello_msg demo_kx demo_cr (s_config idle_session)) 1 1"
  obtain ek dk where keys: "(ek, dk) = derive_session_keys demo_kx (kx_dh demo_kx (cr_secret demo_cr)
      (sh_ephemeral_public_key ?sh)) (build_transcript (cr_nonce demo_cr) (sh_server_nonce ?sh) (sh_session_id ?sh))"
    by (metis surj_pair)
  have sh: "ServerHello_wf ?sh" "sh_protocol_version ?sh = 1"
    "sh_codec_accepted ?sh \<in> set (cfg_supported_codecs (s_config idle_session))"
    using kx_okD(2) [OF demo_kx_ok] demo_handshake(2,8) by (simp_all add: ServerHello_wf_def server_hello_msg_def)
  show ?thesis
    by (rule client_run [where p = 20, OF demo_kx_ok demo_handshake(1) sh demo_handshake(6,5) refl keys refl]) blast
qed

theorem client_authenticates_server_witness:
  "\<exists>evs s' pl2 sh. handshake_client demo_kx demo_cr idle_session 20 evs = (Done (Inr ()), s', []) \<and>
     received_from 20 HandshakeServerHello evs pl2 \<and> ServerHello_decode pl2 = Inr sh \<and>
     s_session_id s' = sh_session_id sh"
proof -
  obtain evs s' where run: "handshake_client demo_kx demo_cr idle_session 20 evs = (Done (Inr ()), s', [])"
    using demo_client by blast
  from client_authenticates_server [OF demo_kx_ok this] run show ?thesis
    by blast
qed

lemma demo_server:
  "\<exists>evs s'. handshake_server demo_kx demo_sr idle_session 10 evs = (Done (Inr ()), s', [])"
proof -
  let ?ch = "client_hello_msg demo_kx demo_cr (s_config idle_session)"
  obtain ek dk where keys: "(ek, dk) = derive_session_keys demo_kx (kx_dh demo_kx (sr_secret demo_sr)
      (ch_ephemeral_public_key ?ch)) (build_transcript (ch_client_nonce ?ch) (sr_nonce demo_sr) (sr_session_id demo_sr))"
    by (metis surj_pair)
  have ch: "ClientHello_wf ?ch" "ch_protocol_version ?ch = 1"
    using kx_okD(2) [OF demo_kx_ok] demo_handshake(1)
    by (simp_all add: ClientHello_wf_def client_hello_msg_def version_consts)
  show ?thesis
    by (rule server_run [where p = 10, OF demo_kx_ok demo_handshake(2) ch demo_handshake(7,6,6,5,4) refl keys refl]) blast
qed

theorem server_authenticates_client_witness:
  "\<exists>evs s' pl1 ch. handshake_server demo_kx demo_sr idle_session 10 evs = (Done (Inr ()), s', []) \<and>
     received_from 10 HandshakeClientHello evs pl1 \<and> ClientHello_decode pl1 = Inr ch"
proof -
  obtain evs s' where run: "handshake_server demo_kx demo_sr idle_session 10 evs = (Done (Inr ()), s', [])"
    using demo_server by blast
  from server_authenticates_client [OF demo_kx_ok this] run show ?thesis
    by blast
qed

section \<open>Giving up\<close>

lemma next_attempt_small: "unat a < 7 \<Longrightarrow> unat (next_attempt a) = unat a + 1"
  by (simp add: next_attempt_def u32_saturating_add_def unat_word_ariths)

lemma client_loop_gives_up:
  assumes hp: "length hp \<le> 1172" "length hp + 28 \<le> cfg_mtu (s_config s)"
    and acc: "\<forall>env \<in> set envs. accepts env p" and n: "unat a + length envs = 7" "envs \<noteq> []"
  shows "\<exists>s'. client_loop K rnd s p hp a False (map (\<lambda>env. (env, HsRecv RecvTimeout)) envs @ rest) =
      (Done (Inl (HandshakeFailed ''client retries exhausted'')), s', rest) \<and> sends s s' \<and>
      length (outbox s') = length (outbox s) + length envs"
  using assms
proof (induction envs arbitrary: s a)
  case (Cons env envs)
  obtain s1 where s1: "send_control env s HandshakeClientHello 0 hp p = (Inr (), s1)" "sends s s1"
    "length (outbox s1) = length (outbox s) + 1"
    by (rule send_control_ok [where env = env and p = p and pl = hp and s = s and m = HandshakeClientHello and sid = 0])
       (use Cons.prems in auto)
  have a: "unat (next_attempt a) = unat a + 1"
    using Cons.prems(4) by (intro next_attempt_small) simp
  show ?case
  proof (cases envs)
    case Nil
    then have "next_attempt a > 6"
      using a Cons.prems(4) by (simp add: word_less_nat_alt)
    then show ?thesis
      using s1 Nil by simp
  next
    case (Cons env' envs')
    then have small: "\<not> next_attempt a > 6"
      using a Cons.prems(4) by (simp add: word_less_nat_alt)
    obtain s' where "client_loop K rnd s1 p hp (next_attempt a) False
        (map (\<lambda>env. (env, HsRecv RecvTimeout)) envs @ rest) =
        (Done (Inl (HandshakeFailed ''client retries exhausted'')), s', rest)" "sends s1 s'"
      "length (outbox s') = length (outbox s1) + length envs"
      using Cons.IH [of s1 "next_attempt a"] Cons.prems sendsD(3) [OF s1(2)] a Cons by auto
    then show ?thesis
      using s1 small sends_trans [OF s1(2)] by auto
  qed
qed simp



end
