(* ===== verification/CodecSession.thy ===== *)
theory CodecSession
  imports Codec Handshake
begin

text \<open>
  \<open>gravital-talk/src/codec_session.rs\<close>: the session that carries samples.  It builds the coders and the transport
  session, checks the negotiated codec after the handshake, encodes what is sent, decodes what is received and fills
  gaps with silence.  Its operations compose those of \<open>Session\<close>, \<open>Handshake\<close> and \<open>Codec\<close>.
\<close>

section \<open>State and construction\<close>

datatype CodecSessionError =
    TransportFailed TransportError
  | CodecFailed CodecError
  | CodecMismatch CodecId CodecId

record ('a, 'e, 'd) CodecSession =
  inner :: "'a Session"
  codec_id :: CodecId
  cs_encoder :: "('e, 'd) coder"
  cs_decoder :: "('e, 'd) coder"
  cs_channels :: u8
  cs_frame_samples :: nat
  cs_mtu :: nat
  last_rx_seq :: u32
  plc_queue :: "i16 list list"

text \<open>\<open>None\<close> is a panic of \<open>Session::new\<close>.\<close>

definition CodecSession_new ::
  "('e, 'd) libopus option \<Rightarrow> Config \<Rightarrow> CodecId \<Rightarrow> (CodecSessionError + ('a, 'e, 'd) CodecSession) option" where
  "CodecSession_new opus config codec =
     (case build_pair opus codec (cfg_sample_rate config) (cfg_channels config) (cfg_frame_duration_ms config) of
        Inl e \<Rightarrow> Some (Inl (CodecFailed e))
      | Inr (enc, dec) \<Rightarrow>
          (let samples = frame_samples enc;
               channels = cfg_channels config;
               mtu = cfg_mtu config;
               config = config\<lparr>cfg_codec_preferred := CodecId_code codec\<rparr>;
               config = (if CodecId_code codec \<in> set (cfg_supported_codecs config) then config
                         else config\<lparr>cfg_supported_codecs := CodecId_code codec # cfg_supported_codecs config\<rparr>)
           in case Session_new config of
                None \<Rightarrow> None
              | Some s \<Rightarrow>
                  Some (Inr \<lparr>inner = s, codec_id = codec, cs_encoder = enc, cs_decoder = dec, cs_channels = channels,
                             cs_frame_samples = samples, cs_mtu = mtu, last_rx_seq = 0xFFFFFFFF, plc_queue = []\<rparr>)))"

definition cs_negotiated_codec :: "('a, 'e, 'd) CodecSession \<Rightarrow> CodecId option" where
  "cs_negotiated_codec cs =
     (let code = negotiated_codec (inner cs) in if code = 0 then None else Some (CodecId_from_code code))"

section \<open>Operations\<close>

text \<open>The result is \<open>None\<close> while the handshake still waits.\<close>

definition cs_handshake ::
  "kx \<Rightarrow> role_random \<Rightarrow> ('a, 'e, 'd) CodecSession \<Rightarrow> 'a \<Rightarrow> 'a hs_events \<Rightarrow>
   (CodecSessionError + unit) option \<times> ('a, 'e, 'd) CodecSession \<times> 'a hs_events" where
  "cs_handshake K role cs peer evs =
     (case handshake K role (inner cs) peer evs of
        (Done (Inl e), s, evs) \<Rightarrow> (Some (Inl (TransportFailed e)), cs\<lparr>inner := s\<rparr>, evs)
      | (Done (Inr _), s, evs) \<Rightarrow>
          (let negotiated = CodecId_from_code (negotiated_codec s) in
           if negotiated \<noteq> codec_id cs
           then (Some (Inl (CodecMismatch (codec_id cs) negotiated)), cs\<lparr>inner := s\<rparr>, evs)
           else (Some (Inr ()), cs\<lparr>inner := s\<rparr>, evs))
      | (_, s, evs) \<Rightarrow> (None, cs\<lparr>inner := s\<rparr>, evs))"

definition send_samples ::
  "aead \<Rightarrow> 'a Env \<Rightarrow> ('a, 'e, 'd) CodecSession \<Rightarrow> i16 list \<Rightarrow> (CodecSessionError + unit) \<times> ('a, 'e, 'd) CodecSession" where
  "send_samples A env cs samples =
     (let out = replicate (max (cs_mtu cs) 1500) 0 in
      case encode_frame (cs_encoder cs) samples out of
        (Inl e, enc) \<Rightarrow> (Inl (CodecFailed e), cs\<lparr>cs_encoder := enc\<rparr>)
      | (Inr (out, n), enc) \<Rightarrow>
          (case send_audio A env (inner cs) (take n out) of
             (Inl e, s) \<Rightarrow> (Inl (TransportFailed e), cs\<lparr>cs_encoder := enc, inner := s\<rparr>)
           | (Inr _, s) \<Rightarrow> (Inr (), cs\<lparr>cs_encoder := enc, inner := s\<rparr>)))"

text \<open>\<open>frame.sequence.wrapping_sub(prev).saturating_sub(1)\<close>, and no gap before the first frame.\<close>

definition sequence_gap :: "u32 \<Rightarrow> u32 \<Rightarrow> u32" where
  "sequence_gap prev seq =
     (if prev = 0xFFFFFFFF then 0 else let d = seq - prev in if d = 0 then 0 else d - 1)"

text \<open>What \<open>recv_samples\<close> does with a frame from the network.\<close>

definition deliver_frame ::
  "('a, 'e, 'd) CodecSession \<Rightarrow> Frame \<Rightarrow> (CodecSessionError + i16 list) \<times> ('a, 'e, 'd) CodecSession" where
  "deliver_frame cs frame =
     (let expected = cs_frame_samples cs * unat (cs_channels cs);
          gap = sequence_gap (last_rx_seq cs) (fr_sequence frame);
          cs = cs\<lparr>last_rx_seq := fr_sequence frame\<rparr>
      in case decode_frame (cs_decoder cs) (fr_payload frame) (replicate (max expected 5760) 0) of
           (Inl e, dec) \<Rightarrow> (Inl (CodecFailed e), cs\<lparr>cs_decoder := dec\<rparr>)
         | (Inr (pcm, produced), dec) \<Rightarrow>
             (let cs = cs\<lparr>cs_decoder := dec\<rparr>;
                  pcm = take (produced * unat (cs_channels cs)) pcm
              in if gap = 0 then (Inr pcm, cs)
                 else
                   let silence_count = unat (min gap 4);
                       q = plc_queue cs @ replicate silence_count (replicate expected 0) @ [pcm]
                   in (Inr (hd q), cs\<lparr>plc_queue := tl q\<rparr>)))"

definition recv_samples ::
  "aead \<Rightarrow> bool \<Rightarrow> u64 \<Rightarrow> ('a, 'e, 'd) CodecSession \<Rightarrow> 'a Env list \<Rightarrow> 'a recv_event list \<Rightarrow>
   ((CodecSessionError + i16 list) option \<times> ('a, 'e, 'd) CodecSession) option" where
  "recv_samples A oc now cs envs evs =
     (case plc_queue cs of
        pcm # q \<Rightarrow> Some (Some (Inr pcm), cs\<lparr>plc_queue := q\<rparr>)
      | [] \<Rightarrow>
          (case recv_audio A oc now (inner cs) envs evs of
             None \<Rightarrow> None
           | Some (None, s) \<Rightarrow> Some (None, cs\<lparr>inner := s\<rparr>)
           | Some (Some (Inl e), s) \<Rightarrow> Some (Some (Inl (TransportFailed e)), cs\<lparr>inner := s\<rparr>)
           | Some (Some (Inr frame), s) \<Rightarrow>
               (case deliver_frame (cs\<lparr>inner := s\<rparr>) frame of (r, cs) \<Rightarrow> Some (Some r, cs))))"

definition cs_close :: "'a Env \<Rightarrow> ('a, 'e, 'd) CodecSession \<Rightarrow> (CodecSessionError + unit) \<times> ('a, 'e, 'd) CodecSession" where
  "cs_close env cs =
     (case close_session env (inner cs) of
        (Inl e, s) \<Rightarrow> (Inl (TransportFailed e), cs\<lparr>inner := s\<rparr>)
      | (Inr _, s) \<Rightarrow> (Inr (), cs\<lparr>inner := s\<rparr>))"

section \<open>Sequences of calls\<close>

primrec recv_calls ::
  "aead \<Rightarrow> bool \<Rightarrow> (u64 \<times> 'a Env list \<times> 'a recv_event list) list \<Rightarrow> ('a, 'e, 'd) CodecSession \<Rightarrow>
   ((CodecSessionError + i16 list) option list \<times> ('a, 'e, 'd) CodecSession) option" where
  "recv_calls A oc [] cs = Some ([], cs)"
| "recv_calls A oc (x # xs) cs =
     (case recv_samples A oc (fst x) cs (fst (snd x)) (snd (snd x)) of
        None \<Rightarrow> None
      | Some (r, cs) \<Rightarrow>
          (case recv_calls A oc xs cs of None \<Rightarrow> None | Some (rs, cs) \<Rightarrow> Some (r # rs, cs)))"

lemma recv_calls_queue:
  "length xs = length (plc_queue cs) \<Longrightarrow>
   recv_calls A oc xs cs = Some (map (\<lambda>pcm. Some (Inr pcm)) (plc_queue cs), cs\<lparr>plc_queue := []\<rparr>)"
proof (induction xs arbitrary: cs)
  case (Cons x xs)
  then obtain pcm q where q: "plc_queue cs = pcm # q" "length xs = length (plc_queue (cs\<lparr>plc_queue := q\<rparr>))"
    by (cases "plc_queue cs") auto
  show ?case
    using Cons.IH [OF q(2)] q(1) by (simp add: recv_samples_def)
qed simp

lemma handshake_active:
  assumes "handshake K role s peer evs = (Done (Inr ()), s', evs')"
  shows "sm_state (s_state s') = S_Active"
proof -
  have adv: "sm_state (s_state t) = S_Active" if "advance HandshakeOk m t0 = (Inr u, t)" for m t0 t u
    using that
    by (cases "sm_state (s_state t0)")
       (auto simp: advance_def transition_step transition_next_def split: option.splits)
  show ?thesis
    using assms
    by (auto simp: handshake_def Let_def adv split: prod.splits sum.splits outcome.splits role_random.splits)
qed

lemma send_audio_needs_room:
  assumes "aead_ok A" and "send_audio A env s pl = (Inr (), s')" and "encrypt_key s = Some k"
  shows "length pl \<le> 1156 \<and> length pl + 48 \<le> cfg_mtu (s_config s)"
proof -
  let ?hdr = "sealed_header env AudioFrame (s_session_id s) (tx_sequence s)"
  let ?s = "s\<lparr>audio_tx_seq := audio_tx_seq s + 1, tx_sequence := tx_sequence s + 1\<rparr>"
  obtain p wire s1 where sent: "seal_payload A k ?hdr (be32 (audio_tx_seq s) @ pl) = Inr wire"
    "send_packet env ?s ?hdr wire p = (Inr (), s1)"
    using assms(2,3) by (auto simp: send_audio_def Let_def split: if_splits option.splits sum.splits prod.splits)
  have "length wire = length pl + 20"
    using sent(1) by (auto simp: seal_payload_eq [OF assms(1)] dest: aead_encryptD [OF assms(1)] split: option.splits)
  then show ?thesis
    using sent(2) by (auto simp: send_packet_eq split: if_splits)
qed

section \<open>Properties\<close>

text \<open>C26: gap concealment is exact.  When nothing is queued and the network yields a frame that decodes, the calls that
  follow return, without waiting for the network, one frame of silence for each missing sequence number, but at most
  four, and then the decoded frame; nothing is missing before the very first frame or after a repeated number.
  Afterwards the queue is empty again and the frame's number is the last one seen.\<close>

theorem gap_concealment:
  fixes cs :: "('a, 'e, 'd) CodecSession"
  defines "expected \<equiv> cs_frame_samples cs * unat (cs_channels cs)"
  assumes "plc_queue cs = []"
    and "recv_audio A oc now (inner cs) envs evs = Some (Some (Inr frame), s)"
    and "decode_frame (cs_decoder cs) (fr_payload frame) (replicate (max expected 5760) 0) = (Inr (buf, produced), dec)"
    and "lost = (if last_rx_seq cs = 0xFFFFFFFF \<or> fr_sequence frame = last_rx_seq cs then 0
                    else unat (fr_sequence frame - last_rx_seq cs - 1))"
    and "length later = min lost 4"
  shows "recv_calls A oc ((now, envs, evs) # later) cs =
    Some (map (\<lambda>pcm. Some (Inr pcm))
            (replicate (min lost 4) (replicate expected 0) @ [take (produced * unat (cs_channels cs)) buf]),
          cs\<lparr>inner := s, cs_decoder := dec, last_rx_seq := fr_sequence frame\<rparr>)"
proof -
  let ?gap = "sequence_gap (last_rx_seq cs) (fr_sequence frame)"
  let ?pcm = "take (produced * unat (cs_channels cs)) buf" and ?silence = "replicate expected (0 :: i16)"
  let ?cs = "cs\<lparr>inner := s, cs_decoder := dec, last_rx_seq := fr_sequence frame\<rparr>"
  define q where "q = replicate (min lost 4) ?silence @ [?pcm]"
  have gap: "unat ?gap = lost"
    using assms(5) by (auto simp: sequence_gap_def Let_def)
  have small: "unat (min ?gap 4) = min lost 4"
    using gap by (simp add: min_def word_le_nat_alt)
  have "deliver_frame (cs\<lparr>inner := s\<rparr>) frame = (Inr (hd q), ?cs\<lparr>plc_queue := tl q\<rparr>)"
  proof (cases "lost = 0")
    case True
    then have "?gap = 0"
      using gap by (simp add: unat_eq_0)
    then show ?thesis
      using assms(2,4) True by (simp add: deliver_frame_def Let_def expected_def q_def)
  next
    case False
    then have "?gap \<noteq> 0"
      using gap by auto
    then show ?thesis
      using assms(2,4) small by (simp add: deliver_frame_def Let_def expected_def q_def)
  qed
  then have first: "recv_samples A oc now cs envs evs = Some (Some (Inr (hd q)), ?cs\<lparr>plc_queue := tl q\<rparr>)"
    using assms(2,3) by (simp add: recv_samples_def)
  have "length later = length (plc_queue (?cs\<lparr>plc_queue := tl q\<rparr>))"
    using assms(6) by (simp add: q_def)
  from recv_calls_queue [OF this, of A oc] have
    "recv_calls A oc ((now, envs, evs) # later) cs = Some (map (\<lambda>pcm. Some (Inr pcm)) (hd q # tl q), ?cs\<lparr>plc_queue := []\<rparr>)"
    using first by simp
  moreover have "hd q # tl q = q" "?cs\<lparr>plc_queue := []\<rparr> = ?cs"
    using assms(2) by (simp_all add: q_def)
  ultimately show ?thesis
    by (simp add: q_def)
qed

text \<open>The codec is checked after the handshake.  A handshake that succeeds leaves the session active with the codec the
  session was built for; when the peer chose another one the call reports both codecs, and the transport session is
  nevertheless active.\<close>

lemma codec_handshake_checked:
  assumes "cs_handshake K role cs peer evs = (Some r, cs', evs')"
  shows "case r of
      Inr _ \<Rightarrow> sm_state (s_state (inner cs')) = S_Active \<and> CodecId_from_code (negotiated_codec (inner cs')) = codec_id cs
    | Inl (CodecMismatch requested negotiated) \<Rightarrow>
        sm_state (s_state (inner cs')) = S_Active \<and> requested = codec_id cs \<and> negotiated \<noteq> requested \<and>
        negotiated = CodecId_from_code (negotiated_codec (inner cs'))
    | Inl (TransportFailed e) \<Rightarrow> fst (handshake K role (inner cs) peer evs) = Done (Inl e)
    | Inl (CodecFailed _) \<Rightarrow> False"
proof -
  obtain out s evs2 where h: "handshake K role (inner cs) peer evs = (out, s, evs2)"
    by (cases "handshake K role (inner cs) peer evs") auto
  show ?thesis
  proof (cases out)
    case (Done x)
    then show ?thesis
      using assms h handshake_active [of K role "inner cs" peer evs s evs2]
      by (cases x) (auto simp: cs_handshake_def Let_def split: if_splits)
  qed (use assms h in \<open>auto simp: cs_handshake_def\<close>)
qed

text \<open>Which PCM frames can be sent at all.  On an active session with keys, a peer that accepts datagrams and a working
  cipher, sending samples succeeds exactly when the frame has the configured size, its two bytes per sample are at
  most 1156 and fit the MTU together with the 48 bytes of framing.\<close>

lemma pcm_send_limit:
  assumes "cs_encoder cs = PcmCoder c" and "cs_mtu cs = cfg_mtu (s_config (inner cs))"
    and "aead_ok A" and "\<forall>n a m. aead_encrypt A k n a m \<noteq> None"
    and "sm_state (s_state (inner cs)) = S_Active" and "s_peer (inner cs) = Some p" and "encrypt_key (inner cs) = Some k"
    and "\<forall>d. \<exists>n. env_send env d p = Inr n"
  shows "fst (send_samples A env cs samples) = Inr () \<longleftrightarrow>
    length samples = total_samples c \<and> 2 * length samples \<le> 1156 \<and> 2 * length samples + 48 \<le> cs_mtu cs"
proof -
  let ?out = "replicate (max (cs_mtu cs) 1500) 0"
  have enc: "encode_frame (cs_encoder cs) samples ?out = (PcmCodec_encode c samples ?out, PcmCoder c)"
    using assms(1) by simp
  show ?thesis
  proof (cases "length samples = total_samples c \<and> 2 * length samples \<le> max (cs_mtu cs) 1500")
    case True
    let ?pl = "concat (map to_le_bytes samples)"
    have send: "fst (send_samples A env cs samples) = Inr () \<longleftrightarrow> (\<exists>s'. send_audio A env (inner cs) ?pl = (Inr (), s'))"
      using enc encode_samples [of samples c ?out] True
      by (cases "send_audio A env (inner cs) ?pl") (auto simp: send_samples_def Let_def split: sum.splits)
    show ?thesis
      unfolding send
      using send_audio_succeeds [OF assms(3,5-7,4,8), of ?pl] send_audio_needs_room [OF assms(3) _ assms(7), of env ?pl]
        assms(2) True by fastforce
  next
    case False
    then have "\<exists>e. PcmCodec_encode c samples ?out = Inl e"
      by (auto simp: PcmCodec_encode_def wire_bytes_def Let_def)
    then show ?thesis
      using enc False by (auto simp: send_samples_def)
  qed
qed

section \<open>Examples\<close>

definition demo_codec :: PcmCodec where
  "demo_codec = PcmCodec_new 1000 1 2"

definition demo_codec_session :: "nat Session \<Rightarrow> (nat, unit, unit) CodecSession" where
  "demo_codec_session s =
     \<lparr>inner = s, codec_id = Pcm, cs_encoder = PcmCoder demo_codec, cs_decoder = PcmCoder demo_codec, cs_channels = 1,
      cs_frame_samples = 2, cs_mtu = 1200, last_rx_seq = 2, plc_queue = []\<rparr>"

definition demo_cc :: CongestionController where
  "demo_cc = \<lparr>current_bitrate = 64000, min_bitrate = 8000, max_bitrate = 64000\<rparr>"

lemma total_demo [simp]: "total_samples demo_codec = 2" "unat (pcm_channels demo_codec) = 1"
  by (simp_all add: demo_codec_def PcmCodec_new_def total_samples_def samples_per_channel_def)

theorem gap_concealment_witness:
  "\<exists>jb s. recv_calls null_aead True [(0, [demo_env 1], []), (0, [], []), (0, [], [])]
      (demo_codec_session (demo_session jb demo_cc)) =
    Some ([Some (Inr [0, 0]), Some (Inr [0, 0]), Some (Inr [1, 2])],
      (demo_codec_session (demo_session jb demo_cc))\<lparr>inner := s, last_rx_seq := 5\<rparr>)"
proof -
  let ?f = "\<lparr>fr_sequence = 5, fr_timestamp = 0, fr_payload = concat (map to_le_bytes [1, 2])\<rparr> :: Frame"
  obtain b where b: "JitterBuffer_new 16 = Some b"
    using new_power [of 4] by auto
  define jb where "jb = fst (push_all JitterBuffer_push b [?f])"
  obtain jb' where pop: "JitterBuffer_pop jb = (jb', Some ?f)"
    using reorder_new [OF b, of "[?f]" 5 "[]"] by (auto simp: jb_def split: prod.splits)
  let ?s = "demo_session jb demo_cc" and ?cs = "demo_codec_session (demo_session jb demo_cc)"
  have recv: "recv_audio null_aead True 0 (inner ?cs) [demo_env 1] [] = Some (Some (Inr ?f), ?s\<lparr>s_jitter := jb'\<rparr>)"
    using recv_audio_ready [of ?s jb' ?f] pop by (simp add: demo_codec_session_def demo_session_def)
  have dec: "decode_frame (cs_decoder ?cs) (fr_payload ?f) (replicate (max (cs_frame_samples ?cs * unat (cs_channels ?cs)) 5760) 0) =
      (Inr ([1, 2] @ replicate 5758 0, 2), PcmCoder demo_codec)"
    using decode_samples [of "[1, 2]" "replicate 5760 0" demo_codec] by (simp add: demo_codec_session_def max_def)
  have lost: "2 = (if last_rx_seq ?cs = 0xFFFFFFFF \<or> fr_sequence ?f = last_rx_seq ?cs then 0
      else unat (fr_sequence ?f - last_rx_seq ?cs - 1))"
    by (simp add: demo_codec_session_def)
  have "recv_calls null_aead True [(0, [demo_env 1], []), (0, [], []), (0, [], [])] ?cs =
    Some (map (\<lambda>pcm. Some (Inr pcm)) (replicate (min 2 4) (replicate (cs_frame_samples ?cs * unat (cs_channels ?cs)) 0) @
      [take (2 * unat (cs_channels ?cs)) ([1, 2] @ replicate 5758 0)]),
      ?cs\<lparr>inner := ?s\<lparr>s_jitter := jb'\<rparr>, cs_decoder := PcmCoder demo_codec, last_rx_seq := fr_sequence ?f\<rparr>)"
    by (rule gap_concealment [OF _ recv dec lost]) (simp_all add: demo_codec_session_def)
  then show ?thesis
    by (intro exI [of _ jb] exI [of _ "?s\<lparr>s_jitter := jb'\<rparr>"]) (simp add: demo_codec_session_def numeral_2_eq_2)
qed

lemma codec_handshake_checked_witness:
  "\<exists>evs cs' evs'. cs_handshake demo_kx (ClientSide demo_cr) (demo_codec_session idle_session) 20 evs = (Some (Inr ()), cs', evs') \<and>
     sm_state (s_state (inner cs')) = S_Active"
proof -
  let ?cs = "demo_codec_session idle_session"
  from handshake_pair [OF demo_kx_ok demo_handshake(1,2,3,3,4,6,6,6,5,5,7,8)]
  obtain d2 d4 c' where "handshake demo_kx (ClientSide demo_cr) idle_session 20
      [(demo_env 1, HsRecv (RecvData d2 20)), (demo_env 2, HsRecv (RecvData d4 20))] = (Done (Inr ()), c', [])"
    "negotiated_codec c' = 1"
    by blast
  then have ok: "cs_handshake demo_kx (ClientSide demo_cr) ?cs 20
      [(demo_env 1, HsRecv (RecvData d2 20)), (demo_env 2, HsRecv (RecvData d4 20))] = (Some (Inr ()), ?cs\<lparr>inner := c'\<rparr>, [])"
    by (simp add: cs_handshake_def demo_codec_session_def CodecId_from_code_def Let_def)
  from codec_handshake_checked [OF ok] have "sm_state (s_state (inner (?cs\<lparr>inner := c'\<rparr>))) = S_Active"
    by simp
  with ok show ?thesis
    by blast
qed

lemma pcm_send_limit_witness:
  "\<forall>jb. fst (send_samples null_aead (demo_env 5) (demo_codec_session (demo_session jb demo_cc)) [1, 2]) = Inr () \<and>
     fst (send_samples null_aead (demo_env 5) (demo_codec_session (demo_session jb demo_cc)) [1]) \<noteq> Inr ()"
proof
  fix jb
  let ?cs = "demo_codec_session (demo_session jb demo_cc)"
  have pre: "cs_encoder ?cs = PcmCoder demo_codec" "cs_mtu ?cs = cfg_mtu (s_config (inner ?cs))"
    "sm_state (s_state (inner ?cs)) = S_Active" "s_peer (inner ?cs) = Some 0" "encrypt_key (inner ?cs) = Some [1]"
    by (simp_all add: demo_codec_session_def demo_session_def Config_default_def size_consts)
  have "\<forall>n a m. aead_encrypt null_aead [1] n a m \<noteq> None" "\<forall>d. \<exists>n. env_send (demo_env 5) d (0 :: nat) = Inr n"
    by (simp_all add: null_aead_def demo_env_def)
  from pcm_send_limit [OF pre(1,2) null_aead_ok this(1) pre(3-5) this(2)]
  show "fst (send_samples null_aead (demo_env 5) ?cs [1, 2]) = Inr () \<and>
     fst (send_samples null_aead (demo_env 5) ?cs [1]) \<noteq> Inr ()"
    by (simp add: demo_codec_session_def)
qed

section \<open>Streams of samples\<close>

text \<open>Sending frame after frame, as \<open>send_stream\<close> of the transport: the datagrams of the frames, or \<open>None\<close> when a send
  fails.\<close>

primrec send_all_samples ::
  "aead \<Rightarrow> ('a, 'e, 'd) CodecSession \<Rightarrow> ('a Env \<times> i16 list) list \<Rightarrow> (bytes list \<times> ('a, 'e, 'd) CodecSession) option" where
  "send_all_samples A cs [] = Some ([], cs)"
| "send_all_samples A cs (x # xs) =
     (case send_samples A (fst x) cs (snd x) of
        (Inl _, _) \<Rightarrow> None
      | (Inr _, cs') \<Rightarrow>
          (case send_all_samples A cs' xs of
             None \<Rightarrow> None
           | Some (ds, cs'') \<Rightarrow> Some (snd (outbox (inner cs') ! length (outbox (inner cs))) # ds, cs'')))"

lemma send_samples_outbox:
  assumes "send_samples A env cs pcm = (Inr (), cs')"
  shows "\<exists>ds. outbox (inner cs') = outbox (inner cs) @ ds"
proof -
  obtain pl s' where "send_audio A env (inner cs) pl = (Inr (), s')" "inner cs' = s'"
    using assms by (auto simp: send_samples_def Let_def split: prod.splits sum.splits)
  then show ?thesis
    using send_audio_outbox [of A env "inner cs" pl] by simp
qed

abbreviation pcm_wire :: "i16 list \<Rightarrow> bytes" where
  "pcm_wire pcm \<equiv> concat (map to_le_bytes pcm)"

lemma send_all_succeeds:
  assumes A: "aead_ok A" "\<And>n a m. aead_encrypt A k n a m \<noteq> None" and size: "2 * total_samples c \<le> 1156"
  shows "cs_encoder cs = PcmCoder c \<Longrightarrow> 2 * total_samples c + 48 \<le> cfg_mtu (s_config (inner cs)) \<Longrightarrow>
    sm_state (s_state (inner cs)) = S_Active \<Longrightarrow> s_peer (inner cs) = Some p \<Longrightarrow> encrypt_key (inner cs) = Some k \<Longrightarrow>
    \<forall>x \<in> set xs. accepts (fst x) p \<and> length (snd x) = total_samples c \<Longrightarrow>
    \<exists>ds cs' s'. send_all_samples A cs xs = Some (ds, cs') \<and>
      send_stream A (inner cs) (map (\<lambda>x. (fst x, pcm_wire (snd x))) xs) = Some (ds, s')"
proof (induction xs arbitrary: cs)
  case (Cons x xs)
  have x: "accepts (fst x) p" "length (snd x) = total_samples c"
    using Cons.prems(6) by simp_all
  have "\<exists>s'. send_audio A (fst x) (inner cs) (pcm_wire (snd x)) = (Inr (), s') \<and> sm_state (s_state s') = S_Active \<and>
      s_peer s' = Some p \<and> encrypt_key s' = Some k \<and> s_config s' = s_config (inner cs)"
    by (rule send_audio_succeeds [OF A(1) Cons.prems(3-5)])
       (use A(2) x size Cons.prems(2) in \<open>simp_all add: accepts_def\<close>)
  then obtain s' where s': "send_audio A (fst x) (inner cs) (pcm_wire (snd x)) = (Inr (), s')" "sm_state (s_state s') = S_Active"
    "s_peer s' = Some p" "encrypt_key s' = Some k" "s_config s' = s_config (inner cs)"
    by blast
  have sent: "send_samples A (fst x) cs (snd x) = (Inr (), cs\<lparr>cs_encoder := PcmCoder c, inner := s'\<rparr>)"
    using encode_samples [OF x(2), of "replicate (max (cs_mtu cs) 1500) 0"] Cons.prems(1) s'(1) x(2) size
    by (simp add: send_samples_def Let_def)
  let ?cs = "cs\<lparr>cs_encoder := PcmCoder c, inner := s'\<rparr>"
  obtain ds cs' s'' where "send_all_samples A ?cs xs = Some (ds, cs')"
    "send_stream A (inner ?cs) (map (\<lambda>x. (fst x, pcm_wire (snd x))) xs) = Some (ds, s'')"
    using Cons.IH [of ?cs] s' Cons.prems by auto
  then show ?case
    using sent s'(1) by simp
qed simp

primrec consecutive :: "u32 \<Rightarrow> Frame list \<Rightarrow> bool" where
  "consecutive prev [] = True"
| "consecutive prev (f # fs) = (sequence_gap prev (fr_sequence f) = 0 \<and> consecutive (fr_sequence f) fs)"

lemma consecutive_stream:
  "prev = 0xFFFFFFFF \<or> n = prev + 1 \<Longrightarrow> consecutive prev (stream_frames n xs)"
  by (induction xs arbitrary: prev n) (auto simp: sequence_gap_def Let_def)

text \<open>A PCM frame without a gap before it is returned as its samples.\<close>

lemma deliver_pcm:
  assumes "cs_decoder cs = PcmCoder c" and "cs_channels cs = pcm_channels c" and "cs_frame_samples cs = samples_per_channel c"
    and "fr_payload f = pcm_wire pcm" and "length pcm = total_samples c" and "sequence_gap (last_rx_seq cs) (fr_sequence f) = 0"
  shows "deliver_frame cs f = (Inr pcm, cs\<lparr>last_rx_seq := fr_sequence f\<rparr>)"
proof -
  have "length pcm div max (unat (pcm_channels c)) 1 * unat (pcm_channels c) = length pcm"
    by (cases "unat (pcm_channels c) = 0") (simp_all add: assms(5) total_samples_def max_def)
  moreover have "decode_frame (cs_decoder cs) (fr_payload f)
      (replicate (max (cs_frame_samples cs * unat (cs_channels cs)) 5760) 0) =
      (Inr (pcm @ drop (length pcm) (replicate (max (total_samples c) 5760) 0), length pcm div max (unat (pcm_channels c)) 1),
       PcmCoder c)"
    using decode_samples [of pcm "replicate (max (total_samples c) 5760) 0" c] assms by (simp add: total_samples_def)
  ultimately show ?thesis
    using assms(1,2,6) by (simp add: deliver_frame_def Let_def)
qed

text \<open>Frames that wait in the jitter buffer, one after the other, are returned as samples without a gap.\<close>

lemma recv_in_order:
  assumes "list_all2 (\<lambda>f pcm. fr_payload f = pcm_wire pcm \<and> length pcm = total_samples c) fs pcms"
  shows "cs_decoder cs = PcmCoder c \<Longrightarrow> cs_channels cs = pcm_channels c \<Longrightarrow> cs_frame_samples cs = samples_per_channel c \<Longrightarrow>
    plc_queue cs = [] \<Longrightarrow> consecutive (last_rx_seq cs) fs \<Longrightarrow>
    pop_n JitterBuffer_pop (s_jitter (inner cs)) (length fs) = map Some fs \<Longrightarrow>
    length calls = length fs \<Longrightarrow> \<forall>x \<in> set calls. fst (snd x) \<noteq> [] \<Longrightarrow>
    \<exists>cs'. recv_calls A oc calls cs = Some (map (\<lambda>pcm. Some (Inr pcm)) pcms, cs')"
  using assms
proof (induction arbitrary: cs calls rule: list_all2_induct)
  case (Cons f fs pcm pcms)
  obtain x calls' where calls: "calls = x # calls'"
    using Cons.prems(7) by (cases calls) auto
  obtain env envs where envs: "fst (snd x) = env # envs"
    using Cons.prems(8) calls by (cases "fst (snd x)") auto
  obtain jb where jb: "JitterBuffer_pop (s_jitter (inner cs)) = (jb, Some f)"
    "pop_n JitterBuffer_pop jb (length fs) = map Some fs"
    using Cons.prems(6) by (auto split: prod.splits)
  let ?s = "(inner cs)\<lparr>s_jitter := jb\<rparr>"
  let ?cs = "cs\<lparr>inner := ?s, last_rx_seq := fr_sequence f\<rparr>"
  have "deliver_frame (cs\<lparr>inner := ?s\<rparr>) f = (Inr pcm, ?cs)"
    using Cons.prems Cons.hyps(1) deliver_pcm [of "cs\<lparr>inner := ?s\<rparr>" c f pcm] by simp
  then have first: "recv_samples A oc (fst x) cs (fst (snd x)) (snd (snd x)) = Some (Some (Inr pcm), ?cs)"
    using Cons.prems(4) recv_audio_ready [OF jb(1)] by (simp add: recv_samples_def envs)
  have "\<exists>cs'. recv_calls A oc calls' ?cs = Some (map (\<lambda>pcm. Some (Inr pcm)) pcms, cs')"
    by (rule Cons.IH) (use Cons.prems jb(2) calls in auto)
  then show ?case
    using first calls by auto
qed simp

lemma stream_payloads:
  "\<forall>x \<in> set xs. length (snd x) = total_samples c \<Longrightarrow>
   list_all2 (\<lambda>f pcm. fr_payload f = pcm_wire pcm \<and> length pcm = total_samples c)
     (stream_frames n (map (\<lambda>x. (fst x, pcm_wire (snd x))) xs)) (map snd xs)"
  by (induction xs arbitrary: n) auto

lemma new_pcm_session:
  assumes "CodecSession_new opus config Pcm = Some (Inr cs)"
  shows "cs_encoder cs = PcmCoder (PcmCodec_new (cfg_sample_rate config) (cfg_channels config) (cfg_frame_duration_ms config))"
    "cs_decoder cs = PcmCoder (PcmCodec_new (cfg_sample_rate config) (cfg_channels config) (cfg_frame_duration_ms config))"
    "cs_channels cs = cfg_channels config" "plc_queue cs = []" "last_rx_seq cs = 0xFFFFFFFF" "codec_id cs = Pcm"
    "cs_frame_samples cs =
       samples_per_channel (PcmCodec_new (cfg_sample_rate config) (cfg_channels config) (cfg_frame_duration_ms config))"
    "cfg_mtu (s_config (inner cs)) = cfg_mtu config" "cfg_codec_preferred (s_config (inner cs)) = 1"
    "1 \<in> set (cfg_supported_codecs (s_config (inner cs)))"
    "sm_state (s_state (inner cs)) = S_Idle" "\<not> s_closed (inner cs)" "audio_tx_seq (inner cs) = 0"
    "outbox (inner cs) = []"
    "JitterBuffer_new (jitter_slots (cfg_jitter_buffer_ms config) (cfg_frame_duration_ms config)) = Some (s_jitter (inner cs))"
    "cs_mtu cs = cfg_mtu config" "fec_enc (inner cs) = FecEncoder_new FEC_WINDOW"
    "fec_dec (inner cs) = FecDecoder_new FEC_WINDOW"
    "cfg_jitter_buffer_ms (s_config (inner cs)) = cfg_jitter_buffer_ms config"
  using assms
  by (auto simp: CodecSession_new_def build_pair_def Let_def Session_new_def SessionStateMachine_new_def
      split: option.splits if_splits)

lemma new_pcm_exists:
  assumes "8000 \<le> cfg_max_bitrate config"
    and "unat (cfg_jitter_buffer_ms config) div max (unat (cfg_frame_duration_ms config)) 1 \<le> 2048"
  shows "\<exists>cs. CodecSession_new opus config Pcm = Some (Inr cs)"
proof -
  obtain k where k: "k \<le> 11" "jitter_slots (cfg_jitter_buffer_ms config) (cfg_frame_duration_ms config) = push_bit k 1"
    using jitter_slots_power [OF refl, of "cfg_jitter_buffer_ms config" "cfg_frame_duration_ms config"] assms(2) by auto
  then obtain jb where "JitterBuffer_new (push_bit k 1) = Some jb"
    using JitterBuffer_new_power [of k] by (cases "JitterBuffer_new (push_bit k 1)") simp_all
  then show ?thesis
    using assms(1) k(2)
    by (auto simp: CodecSession_new_def build_pair_def Let_def Session_new_def CongestionController_new_def
        CONGESTION_MIN_BITRATE_def u32_clamp_def)
qed

text \<open>Two PCM sessions agree on the codec and the keys.\<close>

lemma pcm_handshake:
  fixes c :: "('a, 'e, 'd) CodecSession" and v :: "('a, 'e, 'd) CodecSession"
  assumes "CodecSession_new opus cfgc Pcm = Some (Inr c)" "CodecSession_new opus cfgv Pcm = Some (Inr v)"
    and "kx_ok K" "length (cr_nonce cr) = 32" "length (sr_nonce sr) = 32" "112 \<le> cfg_mtu cfgc" "112 \<le> cfg_mtu cfgv"
    and "accepts e1 sa" "accepts f1 ca" "accepts f2 ca"
  shows "\<exists>d1 d2 d3 d4 c' v' k.
    cs_handshake K (ClientSide cr) c sa [(e1, HsRecv (RecvData d2 sa)), (e2, HsRecv (RecvData d4 sa))] =
      (Some (Inr ()), c\<lparr>inner := c'\<rparr>, []) \<and>
    cs_handshake K (ServerSide sr) v ca [(f1, HsRecv (RecvData d1 ca)), (f2, HsRecv (RecvData d3 ca))] =
      (Some (Inr ()), v\<lparr>inner := v'\<rparr>, []) \<and>
    outbox c' = [(sa, d1), (sa, d3)] \<and> outbox v' = [(ca, d2), (ca, d4)] \<and> sm_state (s_state c') = S_Active \<and>
    s_peer c' = Some sa \<and> encrypt_key c' = Some k \<and> decrypt_key v' = Some k \<and> s_session_id v' = s_session_id c' \<and>
    kept (inner c) c' \<and> kept (inner v) v'"
proof -
  note nc = new_pcm_session [OF assms(1)] and nv = new_pcm_session [OF assms(2)]
  have "choose_codec (s_config (inner v)) (client_hello_msg K cr (s_config (inner c))) = Inr 1"
    using nc(9) nv(10) by (simp add: choose_codec_def client_hello_msg_def)
  from handshake_pair [OF assms(3-5) nc(11) nv(11,12) assms(8-10) _ _ this nc(10), where ?e2.0 = e2] assms(6,7) nc(8) nv(8)
  obtain d1 d2 d3 d4 c' v' where hs:
    "handshake K (ClientSide cr) (inner c) sa [(e1, HsRecv (RecvData d2 sa)), (e2, HsRecv (RecvData d4 sa))] = (Done (Inr ()), c', [])"
    "handshake K (ServerSide sr) (inner v) ca [(f1, HsRecv (RecvData d1 ca)), (f2, HsRecv (RecvData d3 ca))] = (Done (Inr ()), v', [])"
    "outbox c' = [(sa, d1), (sa, d3)]" "outbox v' = [(ca, d2), (ca, d4)]" "sm_state (s_state c') = S_Active"
    "s_peer c' = Some sa" "encrypt_key c' \<noteq> None" "encrypt_key c' = decrypt_key v'" "s_session_id v' = s_session_id c'"
    "negotiated_codec c' = 1" "negotiated_codec v' = 1" "kept (inner c) c'" "kept (inner v) v'"
    by (auto simp: nc(14) nv(14))
  obtain k where k: "encrypt_key c' = Some k" "decrypt_key v' = Some k"
    using hs(7,8) by auto
  have "cs_handshake K (ClientSide cr) c sa [(e1, HsRecv (RecvData d2 sa)), (e2, HsRecv (RecvData d4 sa))] =
      (Some (Inr ()), c\<lparr>inner := c'\<rparr>, [])"
    "cs_handshake K (ServerSide sr) v ca [(f1, HsRecv (RecvData d1 ca)), (f2, HsRecv (RecvData d3 ca))] =
      (Some (Inr ()), v\<lparr>inner := v'\<rparr>, [])"
    using hs(1,2,10,11) nc(6) nv(6) by (simp_all add: cs_handshake_def CodecId_from_code_def Let_def)
  then show ?thesis
    using hs(3-6,9,12,13) k by blast
qed

text \<open>PCM cannot be used with the default configuration.  The default frame is 20 ms at 48 kHz: 960 samples, 1920 bytes,
  more than the output buffer of 1500 bytes.  Whatever the state of the transport session, every attempt to send samples
  fails in the encoder.\<close>

lemma default_pcm_unsendable:
  assumes "CodecSession_new opus Config_default Pcm = Some (Inr cs)"
  shows "\<exists>e. send_samples A env (cs\<lparr>inner := s\<rparr>) samples = (Inl (CodecFailed e), cs\<lparr>inner := s\<rparr>)"
proof -
  let ?c = "PcmCodec_new (cfg_sample_rate Config_default) (cfg_channels Config_default) (cfg_frame_duration_ms Config_default)"
  note new = new_pcm_session [OF assms]
  have total: "total_samples ?c = 960"
    by (simp add: PcmCodec_new_def Config_default_def total_samples_def samples_per_channel_def
        DEFAULT_SAMPLE_RATE_def DEFAULT_FRAME_DURATION_MS_def)
  have "cs_mtu cs = 1200"
    using new(16) by (simp add: Config_default_def size_consts)
  then have "\<exists>e. PcmCodec_encode ?c samples (replicate (max (cs_mtu cs) 1500) 0) = Inl e"
    by (simp add: PcmCodec_encode_def wire_bytes_def total Let_def)
  then show ?thesis
    using new(1) by (auto simp: send_samples_def)
qed

lemma default_pcm_unsendable_witness:
  "\<exists>cs :: (nat, unit, unit) CodecSession. CodecSession_new None Config_default Pcm = Some (Inr cs) \<and>
     (\<forall>samples. fst (send_samples null_aead (demo_env 1) cs samples) \<noteq> Inr ())"
proof -
  obtain cs :: "(nat, unit, unit) CodecSession" where cs: "CodecSession_new None Config_default Pcm = Some (Inr cs)"
    using new_pcm_exists [of Config_default None]
    by (auto simp: Config_default_def DEFAULT_MAX_BITRATE_def DEFAULT_JITTER_BUFFER_MS_def DEFAULT_FRAME_DURATION_MS_def max_def)
  have "fst (send_samples null_aead (demo_env 1) cs samples) \<noteq> Inr ()" for samples
    using default_pcm_unsendable [OF cs, of null_aead "demo_env 1" "inner cs" samples] by auto
  then show ?thesis
    using cs by blast
qed

section \<open>A configuration that works with PCM\<close>

text \<open>Frames of 10 ms, as the command line uses them.\<close>

definition demo_config :: Config where
  "demo_config = Config_default\<lparr>cfg_frame_duration_ms := 10\<rparr>"

abbreviation demo_pcm :: PcmCodec where
  "demo_pcm \<equiv> PcmCodec_new (cfg_sample_rate demo_config) (cfg_channels demo_config) (cfg_frame_duration_ms demo_config)"

lemma demo_sizes: "total_samples demo_pcm = 480" "cfg_mtu demo_config = 1200" "cfg_jitter_buffer_ms demo_config = DEFAULT_JITTER_BUFFER_MS"
  by (simp_all add: PcmCodec_new_def demo_config_def Config_default_def total_samples_def samples_per_channel_def
      DEFAULT_SAMPLE_RATE_def size_consts)

lemma new_demo_session:
  "\<exists>cs :: (nat, unit, unit) CodecSession. CodecSession_new None demo_config Pcm = Some (Inr cs)"
  by (rule new_pcm_exists)
     (simp_all add: demo_config_def Config_default_def DEFAULT_MAX_BITRATE_def DEFAULT_JITTER_BUFFER_MS_def max_def)

end
