(* ===== verification/LiveStream.thy ===== *)
theory LiveStream
  imports CodecSession
begin

text \<open>
  A call while it runs: the receiver plays each frame as it arrives, so the stream may be as long as it likes.  What travels
  is everything the sender hands to its socket, audio and parity packets alike.  The parity encoder of the sender and the
  decoder of the receiver stay in step, the jitter buffer is empty between two frames, and each call of the receiver
  returns one frame.
\<close>

section \<open>Parity packets\<close>

text \<open>The parity a session extracts from a datagram.\<close>

definition parity_of :: "aead \<Rightarrow> 'a Session \<Rightarrow> bytes \<Rightarrow> FecParity option" where
  "parity_of A r d =
     (case PacketView_decode d of
        Inl _ \<Rightarrow> None
      | Inr view \<Rightarrow>
          (if msg_type (header view) \<noteq> MessageType_code AudioFec \<or> \<not> Flags_contains (flags (header view)) ENCRYPTED then None
           else case decrypt_key r of
             None \<Rightarrow> None
           | Some key \<Rightarrow>
               (case open_payload A r key view d of
                  Inl _ \<Rightarrow> None
                | Inr pt \<Rightarrow> (if length pt < 5 then None
                            else Some \<lparr>par_seq_base = rd32 0 pt, par_window = pt ! 4, par_payload = drop 5 pt\<rparr>))))"

lemma parity_of_cong:
  "decrypt_key r' = decrypt_key r \<Longrightarrow> s_session_id r' = s_session_id r \<Longrightarrow> parity_of A r' d = parity_of A r d"
  by (simp add: parity_of_def open_payload_def split: sum.splits option.splits)

text \<open>What receiving a parity packet changes: the decoder and, when it recovers a frame, the jitter buffer.\<close>

lemma handle_parity:
  fixes r :: "'a Session"
  defines "stamp \<equiv> \<lambda>env d. (count_received (of_nat (length d)) r)\<lparr>last_rx := env_now env\<rparr>"
  assumes "parity_of A r d = Some p"
  shows "handle_datagram A oc env r d = Some (Inr (),
    (case FecDecoder_push_parity (fec_dec r) p of
       (dec, None) \<Rightarrow> (stamp env d)\<lparr>fec_dec := dec\<rparr>
     | (dec, Some (n, pl)) \<Rightarrow>
         (stamp env d)\<lparr>fec_dec := dec,
           s_jitter := fst (JitterBuffer_push (s_jitter r) \<lparr>fr_sequence = n, fr_timestamp = 0, fr_payload = pl\<rparr>)\<rparr>))"
proof -
  obtain view key pt where v: "PacketView_decode d = Inr view" "msg_type (header view) = MessageType_code AudioFec"
    "Flags_contains (flags (header view)) ENCRYPTED" "decrypt_key r = Some key" "open_payload A r key view d = Inr pt"
    "\<not> length pt < 5" "p = \<lparr>par_seq_base = rd32 0 pt, par_window = pt ! 4, par_payload = drop 5 pt\<rparr>"
    using assms(2) by (auto simp: parity_of_def split: sum.splits if_splits option.splits)
  have same: "s_jitter (stamp env d) = s_jitter r" "decrypt_key (stamp env d) = decrypt_key r"
    "s_session_id (stamp env d) = s_session_id r" "fec_dec (stamp env d) = fec_dec r"
    by (simp_all add: stamp_def count_received_def)
  have "open_payload A (stamp env d) key view d = Inr pt"
    using v(5) same(3) by (simp add: open_payload_def)
  then have "dispatch_fec A (stamp env d) view d =
      (case FecDecoder_push_parity (fec_dec r) p of
         (dec, None) \<Rightarrow> (stamp env d)\<lparr>fec_dec := dec\<rparr>
       | (dec, Some (n, pl)) \<Rightarrow>
           (stamp env d)\<lparr>fec_dec := dec,
             s_jitter := fst (JitterBuffer_push (s_jitter r) \<lparr>fr_sequence = n, fr_timestamp = 0, fr_payload = pl\<rparr>)\<rparr>)"
    using v(3,4,6,7) same by (simp add: dispatch_fec_def Let_def)
  moreover have "handle_datagram A oc env r d = Some (Inr (), dispatch_fec A (stamp env d) view d)"
    using v(1,2) MessageType_from_code_code [of AudioFec]
    by (simp add: handle_datagram_def dispatch_packet_def Let_def stamp_def)
  ultimately show ?thesis
    by simp
qed

text \<open>What receiving an audio packet changes.\<close>

lemma handle_audio_fec:
  assumes "frame_of A r d = Some f" and "handle_datagram A False env r d = Some (res, r')"
  shows "fec_dec r' = fst (FecDecoder_push_data (fec_dec r) (fr_sequence f) (fr_payload f)) \<and> s_config r' = s_config r"
proof -
  obtain view pt where v: "PacketView_decode d = Inr view" "msg_type (header view) = MessageType_code AudioFrame"
    and pt: "audio_plaintext A r view d = Some pt" "\<not> length pt < 4"
    and f: "f = \<lparr>fr_sequence = rd32 0 pt, fr_timestamp = timestamp (header view), fr_payload = drop 4 pt\<rparr>"
    using assms(1) by (auto simp: frame_of_def split: sum.splits if_splits option.splits)
  let ?r = "(count_received (of_nat (length d)) r)\<lparr>last_rx := env_now env\<rparr>"
  have "audio_plaintext A ?r view d = Some pt"
    using pt(1) audio_plaintext_cong [of ?r r A view d] by (simp add: count_received_def)
  then show ?thesis
    using assms(2) v pt(2) f MessageType_from_code_code [of AudioFrame]
    by (auto simp: handle_datagram_def dispatch_packet_def dispatch_audio_def accept_audio_def count_received_def Let_def
        split: option.splits)
qed

text \<open>The parity packet: what a receiver extracts from it, and when it is certainly sent.\<close>

definition sends_parity :: "aead \<Rightarrow> bytes \<Rightarrow> 'a Env \<Rightarrow> 'a \<Rightarrow> nat \<Rightarrow> nat \<Rightarrow> bool" where
  "sends_parity A k env p mtu l \<longleftrightarrow> (\<forall>n a m. aead_encrypt A k n a m \<noteq> None) \<and> accepts env p \<and> l \<le> 1155 \<and> l + 49 \<le> mtu"

lemma send_parity_datagram:
  fixes env :: "'a Env" and parity :: FecParity and p :: 'a
  assumes ok: "aead_ok A" and keys: "encrypt_key s = Some k" "decrypt_key r = Some k" "s_session_id r = sid"
  defines "s' \<equiv> snd (send_fec_parity A env s parity p sid)"
  shows "outbox s' = outbox s \<or> (\<exists>e. outbox s' = outbox s @ [(p, e)] \<and> parity_of A r e = Some parity)"
    and "sends_parity A k env p (cfg_mtu (s_config s)) (length (par_payload parity)) \<Longrightarrow> outbox s' \<noteq> outbox s"
proof -
  let ?hdr = "sealed_header env AudioFec sid (tx_sequence s)"
  let ?plain = "be32 (par_seq_base parity) @ [par_window parity] @ par_payload parity"
  have opens: "parity_of A r (packet_bytes ?hdr w) = Some parity"
    if "seal_payload A k ?hdr ?plain = Inr w" "length w \<le> 1176" for w
  proof -
    have "PacketView_decode (packet_bytes ?hdr w) = Inr \<lparr>header = ?hdr, payload = w\<rparr>"
      using that(2) by (simp add: PacketView_decode_packet_bytes)
    moreover have "open_payload A r k \<lparr>header = ?hdr, payload = w\<rparr> (packet_bytes ?hdr w) = Inr ?plain"
      using keys(3) by (intro open_sealed [OF ok that(1)]) (simp add: sealed_header_def)
    moreover have "length (be32 (par_seq_base parity)) = 4"
      by simp
    ultimately show ?thesis
      using keys(2) by (simp add: parity_of_def sealed_header_def rd_be nth_append)
  qed
  then show "outbox s' = outbox s \<or> (\<exists>e. outbox s' = outbox s @ [(p, e)] \<and> parity_of A r e = Some parity)"
    using keys(1)
    by (auto simp: s'_def send_fec_parity_def Let_def send_packet_eq transport_send_def count_sent_def split: sum.splits)
  assume sp: "sends_parity A k env p (cfg_mtu (s_config s)) (length (par_payload parity))"
  then obtain ct tag where "aead_encrypt A k (make_nonce (sequence ?hdr) (session_id ?hdr)) (header_layout ?hdr) ?plain =
      Some (ct, tag)"
    by (metis sends_parity_def option.exhaust surj_pair)
  note enc = this aead_encryptD [OF ok this]
  then have "seal_payload A k ?hdr ?plain = Inr (ct @ tag)" "length (ct @ tag) = length (par_payload parity) + 21"
    by (simp_all add: seal_payload_eq [OF ok])
  moreover have "\<exists>n. env_send env d p = Inr n" for d
    using sp by (simp add: sends_parity_def accepts_def)
  then have "env_send env d p = Inr (projr (env_send env d p))" for d
    by (metis sum.sel(2))
  ultimately show "outbox s' \<noteq> outbox s"
    using keys(1) sp
    by (auto simp: s'_def send_fec_parity_def Let_def send_packet_eq transport_send_def count_sent_def sends_parity_def
        split: sum.splits)
qed

text \<open>A successful \<open>send_audio\<close> sends the frame and at most one more datagram, the parity its encoder emitted.\<close>

lemma send_audio_datagrams:
  assumes ok: "aead_ok A" and sent: "send_audio A env s pl = (Inr (), s')"
    and keys: "encrypt_key s = Some k" "decrypt_key r = Some k" "s_session_id r = s_session_id s"
  shows "\<exists>p d rest. outbox s' = outbox s @ (p, d) # rest \<and> s_peer s = Some p \<and>
    frame_of A r d = Some \<lparr>fr_sequence = audio_tx_seq s, fr_timestamp = env_now env, fr_payload = pl\<rparr> \<and>
    fec_enc s' = fst (FecEncoder_push (fec_enc s) (audio_tx_seq s) pl) \<and> s_peer s' = Some p \<and> s_config s' = s_config s \<and>
    (rest = [] \<or> (\<exists>e par. rest = [(p, e)] \<and> snd (FecEncoder_push (fec_enc s) (audio_tx_seq s) pl) = Some par \<and>
                   parity_of A r e = Some par)) \<and>
    (\<forall>par. snd (FecEncoder_push (fec_enc s) (audio_tx_seq s) pl) = Some par \<longrightarrow>
       sends_parity A k env p (cfg_mtu (s_config s)) (length (par_payload par)) \<longrightarrow> rest \<noteq> [])"
proof -
  let ?hdr = "sealed_header env AudioFrame (s_session_id s) (tx_sequence s)"
  let ?s = "s\<lparr>audio_tx_seq := audio_tx_seq s + 1, tx_sequence := tx_sequence s + 1\<rparr>"
  from send_audio_frame [OF ok sent keys] obtain p d rest where d: "outbox s' = outbox s @ (p, d) # rest" "s_peer s = Some p"
    "frame_of A r d = Some \<lparr>fr_sequence = audio_tx_seq s, fr_timestamp = env_now env, fr_payload = pl\<rparr>"
    by blast
  obtain wire s1 where s1: "send_packet env ?s ?hdr wire p = (Inr (), s1)"
    "s' = (case FecEncoder_push (fec_enc s1) (audio_tx_seq s) pl of
       (enc, None) \<Rightarrow> s1\<lparr>fec_enc := enc\<rparr>
     | (enc, Some parity) \<Rightarrow> snd (send_fec_parity A env (s1\<lparr>fec_enc := enc\<rparr>) parity p (s_session_id s)))"
    using sent keys(1) d(2)
    by (auto simp: send_audio_def Let_def split: if_splits sum.splits prod.splits option.splits)
  have out1: "\<exists>x. outbox s1 = outbox s @ [x]"
    using send_packet_outbox [OF s1(1)] by simp
  have sends1: "sends ?s s1"
    using send_packet_sends [of ?s env ?hdr wire p] s1(1) by simp
  note kept1 = sendsD [OF sends1]
  obtain enc par where push: "FecEncoder_push (fec_enc s) (audio_tx_seq s) pl = (enc, par)"
    by force
  show ?thesis
  proof (cases par)
    case None
    then have "s' = s1\<lparr>fec_enc := enc\<rparr>"
      using s1(2) push kept1 by simp
    then show ?thesis
      using d out1 push kept1 None by auto
  next
    case (Some parity)
    let ?s1 = "s1\<lparr>fec_enc := enc\<rparr>"
    have s': "s' = snd (send_fec_parity A env ?s1 parity p (s_session_id s))"
      using s1(2) push Some kept1 by simp
    have key: "encrypt_key ?s1 = Some k"
      using keys(1) kept1 by simp
    note parity = send_parity_datagram [OF ok key keys(2,3), where env = env and parity = parity and p = p]
    have sent2: "outbox s' = outbox s1 \<or> (\<exists>e. outbox s' = outbox s1 @ [(p, e)] \<and> parity_of A r e = Some parity)"
      "outbox s' = outbox s1 \<Longrightarrow> \<not> sends_parity A k env p (cfg_mtu (s_config s)) (length (par_payload parity))"
      using parity kept1(3) unfolding s' by auto
    have len: "length (outbox s') = length (outbox s1) + length rest"
      using out1 d(1) by auto
    have "\<not> sends_parity A k env p (cfg_mtu (s_config s)) (length (par_payload parity))" if "rest = []"
      using sent2 len that by auto
    moreover have "rest = [] \<or> (\<exists>e. rest = [(p, e)] \<and> parity_of A r e = Some parity)"
      using sent2(1)
    proof
      assume "outbox s' = outbox s1"
      then show ?thesis
        using len by simp
    next
      assume "\<exists>e. outbox s' = outbox s1 @ [(p, e)] \<and> parity_of A r e = Some parity"
      then show ?thesis
        using out1 d(1) by auto
    qed
    moreover have "fec_enc s' = enc" "s_peer s' = Some p" "s_config s' = s_config s"
      using sendsD(3,4,10) [OF send_fec_parity_sends [of ?s1 A env parity p "s_session_id s"]] s' d(2) kept1 by simp_all
    ultimately show ?thesis
      using d push Some by (intro exI [of _ p] exI [of _ d] exI [of _ rest]) auto
  qed
qed

section \<open>Encoder and decoder in step\<close>

text \<open>\<open>in_step base i e d\<close>: the stream is at frame \<open>base + i\<close>, the \<open>i\<close>-th of its group of four; the encoder has the first
  \<open>i\<close> frames of the group, and so has the decoder, which between two groups still holds the whole previous one.\<close>

definition has_frames :: "nat \<Rightarrow> (nat \<rightharpoonup> bytes) \<Rightarrow> bool" where
  "has_frames i m \<longleftrightarrow> (\<forall>j < i. m j \<noteq> None)"

definition in_step :: "u32 \<Rightarrow> nat \<Rightarrow> FecEncoder \<Rightarrow> FecDecoder \<Rightarrow> bool" where
  "in_step base i e d \<longleftrightarrow> aligned 4 base \<and> i < 4 \<and> (\<exists>fs. length fs = i \<and> enc_inv e 4 base fs) \<and> dec_window d = 4 \<and>
     (if i = 0 then \<not> dec_active d \<or> (\<exists>m. dec_inv d 4 (base - 4) m \<and> has_frames 4 m)
      else \<exists>m. dec_inv d 4 base m \<and> has_frames i m)"

lemma in_step_new: "in_step 0 0 (FecEncoder_new FEC_WINDOW) (FecDecoder_new FEC_WINDOW)"
  by (auto simp: in_step_def aligned_def FecEncoder_new_def FecDecoder_new_def FEC_WINDOW_def enc_inv_def)

lemma aligned_next: "aligned 4 base \<Longrightarrow> aligned 4 (base + 4)"
proof -
  assume al: "aligned 4 base"
  have "unat (base + 4) = (if unat base + 4 < 2 ^ 32 then unat base + 4 else 0)"
    using al by (auto simp: aligned_def unat_word_ariths)
  then have "unat (base + 4) mod 4 = 0"
    using al by (simp add: aligned_def)
  moreover have "unat (base + 4) < 2 ^ 32"
    using unsigned_less [of "base + 4", where 'a = nat] by simp
  ultimately show ?thesis
    unfolding aligned_def by simp presburger
qed

lemma full_group: "dec_inv d 4 base m \<Longrightarrow> has_frames 4 m \<Longrightarrow> missing (dec_received d) = []"
proof -
  assume d: "dec_inv d 4 base m" "has_frames 4 m"
  then have "dec_received d = map Some (map (the \<circ> m) [0..<4])"
    by (auto simp: dec_inv_def has_frames_def)
  then show ?thesis
    by (simp only: missing_def enumerate_missing list.map(1))
qed

text \<open>The parity of a complete group changes nothing that matters.\<close>

lemma parity_in_step:
  assumes "in_step base 0 e d" and "dec_active d" and "par_seq_base p = base - 4"
  shows "\<exists>d'. FecDecoder_push_parity d p = (d', None) \<and> in_step base 0 e d' \<and> dec_active d'"
proof -
  obtain m where m: "dec_inv d 4 (base - 4) m" "has_frames 4 m"
    using assms(1,2) by (auto simp: in_step_def)
  let ?d = "d\<lparr>dec_parity := Some (par_payload p)\<rparr>"
  have "dec_inv ?d 4 (base - 4) m"
    using m(1) by (simp add: dec_inv_def)
  then show ?thesis
    using assms m full_group [OF m]
    by (auto simp: in_step_def FecDecoder_push_parity_def dec_inv_def try_recover_def Let_def)
qed

text \<open>One frame through both.\<close>

lemma data_in_step:
  assumes "in_step base i e d"
  shows "\<exists>base' i'. in_step base' i' (fst (FecEncoder_push e (base + of_nat i) pl))
      (fst (FecDecoder_push_data d (base + of_nat i) pl)) \<and> base' + of_nat i' = base + of_nat i + 1 \<and>
    dec_active (fst (FecDecoder_push_data d (base + of_nat i) pl)) \<and>
    (\<forall>par. snd (FecEncoder_push e (base + of_nat i) pl) = Some par \<longrightarrow> i' = 0 \<and> par_seq_base par = base' - 4)"
proof -
  let ?e = "fst (FecEncoder_push e (base + of_nat i) pl)" and ?d = "fst (FecDecoder_push_data d (base + of_nat i) pl)"
  obtain fs where fs: "length fs = i" "enc_inv e 4 base fs"
    using assms by (auto simp: in_step_def)
  have i: "i < 4" "aligned 4 base" "dec_window d = 4"
    using assms by (auto simp: in_step_def)
  obtain m where m: "dec_inv d 4 base m \<or> (m = Map.empty \<and> (\<not> dec_active d \<or> dec_seq_base d \<noteq> base))" "has_frames i m"
  proof (cases "i = 0")
    case True
    then have "\<not> dec_active d \<or> dec_seq_base d \<noteq> base"
      using assms by (auto simp: in_step_def dec_inv_def)
    then show thesis
      using that [of Map.empty] True by (simp add: has_frames_def)
  next
    case False
    then show thesis
      using assms that by (auto simp: in_step_def)
  qed
  have dec: "dec_inv ?d 4 base (m(i \<mapsto> pl))" "has_frames (Suc i) (m(i \<mapsto> pl))"
    using push_data_group [OF i(2) _ i(3) m(1), of i pl] i(1) m(2) by (auto simp: has_frames_def less_Suc_eq)
  have active: "dec_active ?d" "dec_window ?d = 4"
    using dec(1) by (simp_all add: dec_inv_def)
  have "fs = [] \<longrightarrow> base + of_nat i = base"
    using fs(1) by auto
  note push = encoder_push [OF fs(2) this, of pl]
  show ?thesis
  proof (cases "i = 3")
    case True
    obtain par e' where p: "FecEncoder_push e (base + of_nat i) pl = (e', Some par)" "enc_window e' = 4" "enc_count e' = 0"
      "par_seq_base par = base"
      using push fs(1) True by (auto simp: is_parity_def)
    have "enc_inv e' 4 (base + 4) []"
      using p by (simp add: enc_inv_def)
    then have "in_step (base + 4) 0 ?e ?d"
      using p(1) dec active aligned_next [OF i(2)] True by (auto simp: in_step_def numeral_eq_Suc)
    moreover have "base + 4 + of_nat 0 = base + of_nat i + 1"
      using True by simp
    moreover have "par' = par" if "snd (FecEncoder_push e (base + of_nat i) pl) = Some par'" for par'
      using that p(1) by simp
    ultimately show ?thesis
      using active(1) p(4) by (intro exI [of _ "base + 4"] exI [of _ 0]) auto
  next
    case False
    obtain e' where p: "FecEncoder_push e (base + of_nat i) pl = (e', None)" "enc_inv e' 4 base (fs @ [pl])"
      using push fs(1) i(1) False by auto
    have "in_step base (Suc i) ?e ?d"
      unfolding in_step_def using p dec active i fs(1) False by (auto intro!: exI [of _ "fs @ [pl]"])
    then show ?thesis
      using p(1) active(1) by (intro exI [of _ base] exI [of _ "Suc i"]) simp
  qed
qed

section \<open>One frame at the receiver\<close>

text \<open>The datagrams among the answers of \<open>recv\<close>; the others are timeouts.\<close>

definition receives :: "'a \<Rightarrow> 'a recv_event list \<Rightarrow> bytes list \<Rightarrow> bool" where
  "receives p evs ds \<longleftrightarrow> filter (\<lambda>ev. ev \<noteq> RecvTimeout) evs = map (\<lambda>d. RecvData d p) ds"

text \<open>The receive loop passes over datagrams that yield no frame, as long as the deadline is not reached.  It ends with the first
  datagram that makes a frame available or fails.\<close>

definition ends_wait :: "('a Session \<Rightarrow> bool) \<Rightarrow> TransportError + Frame \<Rightarrow> (TransportError + unit) \<times> 'a Session \<Rightarrow> bool" where
  "ends_wait Q out x \<longleftrightarrow>
     (case x of
        (Inl e, r) \<Rightarrow> out = Inl e \<and> Q r
      | (Inr _, r) \<Rightarrow> (\<exists>jb f. JitterBuffer_pop (s_jitter r) = (jb, Some f) \<and> out = Inr f \<and> Q (r\<lparr>s_jitter := jb\<rparr>)))"

lemma loop_returns:
  assumes idle: "\<And>r. I r \<Longrightarrow> JitterBuffer_pop (s_jitter r) = (s_jitter r, None)"
    and pass: "\<And>r d env. I r \<Longrightarrow> d \<in> set pend \<Longrightarrow> \<exists>r'. handle_datagram A oc env r d = Some (Inr (), r') \<and> I r'"
    and hit: "\<And>r env. I r \<Longrightarrow> \<exists>x. handle_datagram A oc env r d = Some x \<and> ends_wait Q out x"
  shows "I r \<Longrightarrow> receives p evs (pend @ [d]) \<Longrightarrow> length evs < length envs \<Longrightarrow> \<forall>e \<in> set envs. env_now e < deadline \<Longrightarrow>
    \<exists>r'. recv_audio_loop A oc skip deadline r envs evs = Some (Some out, r') \<and> Q r'"
  using pass
proof (induction evs arbitrary: r envs pend)
  case Nil
  then show ?case
    by (simp add: receives_def)
next
  case (Cons ev evs)
  obtain env envs' where envs: "envs = env # envs'" "length evs < length envs'"
    using Cons.prems(3) by (cases envs) auto
  have early: "\<not> deadline \<le> env_now env"
    using Cons.prems(4) envs(1) by (simp add: not_le)
  then have wait: "pop_with_deadline (s_jitter r) (env_now env) deadline = (s_jitter r, None)"
    using idle [OF Cons.prems(1)] by (simp add: pop_with_deadline_def)
  consider "ev = RecvTimeout" | "ev \<noteq> RecvTimeout" "pend = []" | x xs where "ev \<noteq> RecvTimeout" "pend = x # xs"
    by (cases pend) auto
  then show ?case
  proof cases
    case 1
    then have "\<exists>r'. recv_audio_loop A oc skip deadline r envs' evs = Some (Some out, r') \<and> Q r'"
      by (intro Cons.IH [of _ pend]) (use Cons.prems envs in \<open>auto simp: receives_def\<close>)
    then show ?thesis
      using 1 wait early by (simp add: envs(1))
  next
    case 2
    then have ev: "ev = RecvData d p"
      using Cons.prems(2) by (simp add: receives_def)
    obtain res r' where h: "handle_datagram A oc env r d = Some (res, r')" "ends_wait Q out (res, r')"
      using hit [OF Cons.prems(1)] by force
    obtain env2 envs2 where "envs' = env2 # envs2"
      using envs(2) by (cases envs') auto
    then show ?thesis
      using ev wait early h by (cases res) (auto simp: envs(1) pop_with_deadline_def ends_wait_def)
  next
    case 3
    then have ev: "ev = RecvData x p" "receives p evs (xs @ [d])"
      using Cons.prems(2) by (auto simp: receives_def)
    obtain r' where h: "handle_datagram A oc env r x = Some (Inr (), r')" "I r'"
      using Cons.prems(5) [OF Cons.prems(1), of x] 3 by auto
    have "\<exists>r''. recv_audio_loop A oc skip deadline r' envs' evs = Some (Some out, r'') \<and> Q r''"
      by (rule Cons.IH [of _ xs]) (use h(2) ev(2) envs Cons.prems(4,5) 3 in auto)
    then show ?thesis
      using ev(1) wait early h(1) by (simp add: envs(1))
  qed
qed

text \<open>The receiver between two frames of a stream that has reached \<open>base + i\<close>: nothing is buffered.\<close>

definition waiting :: "u32 \<Rightarrow> JitterBuffer \<Rightarrow> bool" where
  "waiting n b \<longleftrightarrow> jb_inv b \<and> jb_contents b = Map.empty \<and> (primed b \<longrightarrow> next_seq b = n)"

lemma waiting_pop: "waiting n b \<Longrightarrow> JitterBuffer_pop b = (b, None)"
proof -
  assume w: "waiting n b"
  let ?slot = "slots b ! slot_index b (next_seq b)"
  have "slot_ok b (slot_index b (next_seq b))"
    using w slot_index_less [of b] by (intro jb_invD) (auto simp: waiting_def)
  moreover have "jb_contents b (next_seq b) = None"
    using w by (simp add: waiting_def)
  ultimately have "\<not> occupied ?slot \<or> slot_sequence ?slot \<noteq> next_seq b"
    by (auto simp: jb_contents_def slot_ok_def Let_def split: if_splits)
  then show ?thesis
    by (auto simp: JitterBuffer_pop_def Let_def)
qed

lemma waiting_push:
  assumes "waiting n b" and "fr_sequence f = n"
  shows "\<exists>jb. JitterBuffer_pop (fst (JitterBuffer_push b f)) = (jb, Some f) \<and> waiting (n + 1) jb"
proof -
  let ?b = "fst (JitterBuffer_push b f)"
  have "jb_inv ?b \<and> jb_cursor ?b = Some n \<and> jb_contents ?b = [n \<mapsto> f]"
  proof (cases "primed b")
    case True
    have "0 < unat (capacity b)"
      using assms(1) unat_exp by (auto simp: waiting_def jb_inv_def)
    then show ?thesis
      using assms True jb.push_inside [of b n f] by (simp add: waiting_def jb_cursor_def)
  next
    case False
    then show ?thesis
      using assms jb.push_first [of b f] by (simp add: waiting_def jb_cursor_def)
  qed
  then show ?thesis
    using jb.pop_hit [of ?b n f]
    by (intro exI [of _ "fst (JitterBuffer_pop ?b)"])
       (auto simp: waiting_def jb_cursor_def prod_eq_iff split: if_splits)
qed

section \<open>One frame from end to end\<close>

text \<open>A sender and a receiver of a stream that has reached frame \<open>base + i\<close>; \<open>pend\<close> is what left the sender after the last
  frame and has not arrived yet.\<close>

definition pending_ok :: "aead \<Rightarrow> u32 \<Rightarrow> nat \<Rightarrow> 'a Session \<Rightarrow> bytes list \<Rightarrow> bool" where
  "pending_ok A base i r pend \<longleftrightarrow> pend = [] \<or>
     (\<exists>d par. pend = [d] \<and> i = 0 \<and> dec_active (fec_dec r) \<and> parity_of A r d = Some par \<and> par_seq_base par = base - 4)"

definition receiver_at :: "aead \<Rightarrow> bytes \<Rightarrow> 'a Session \<Rightarrow> u32 \<Rightarrow> nat \<Rightarrow> bytes list \<Rightarrow> 'a Session \<Rightarrow> bool" where
  "receiver_at A k s base i pend r \<longleftrightarrow> decrypt_key r = Some k \<and> s_session_id r = s_session_id s \<and>
     in_step base i (fec_enc s) (fec_dec r) \<and> waiting (base + of_nat i) (s_jitter r) \<and> pending_ok A base i r pend"

definition stream_at :: "aead \<Rightarrow> bytes \<Rightarrow> 'a Session \<Rightarrow> 'a Session \<Rightarrow> bytes list \<Rightarrow> bool" where
  "stream_at A k s r pend \<longleftrightarrow> encrypt_key s = Some k \<and>
     (\<exists>base i. audio_tx_seq s = base + of_nat i \<and> receiver_at A k s base i pend r)"

text \<open>A pending parity packet leaves the receiver where it is.\<close>

lemma pending_absorbed:
  assumes "receiver_at A k s base i pend r" and "d \<in> set pend"
  shows "\<exists>r'. handle_datagram A oc env r d = Some (Inr (), r') \<and> receiver_at A k s base i pend r' \<and> s_config r' = s_config r"
proof -
  obtain par where d: "pend = [d]" "i = 0" "dec_active (fec_dec r)" "parity_of A r d = Some par" "par_seq_base par = base - 4"
    using assms by (auto simp: receiver_at_def pending_ok_def)
  have step: "in_step base 0 (fec_enc s) (fec_dec r)"
    using assms(1) d(2) by (simp add: receiver_at_def)
  from parity_in_step [OF step d(3,5)] obtain dec where dec: "FecDecoder_push_parity (fec_dec r) par = (dec, None)"
    "in_step base 0 (fec_enc s) dec" "dec_active dec"
    by blast
  obtain r' where r': "handle_datagram A oc env r d = Some (Inr (), r')" "s_jitter r' = s_jitter r" "fec_dec r' = dec"
    "decrypt_key r' = decrypt_key r" "s_session_id r' = s_session_id r" "s_config r' = s_config r"
    using handle_parity [OF d(4), of oc env] dec(1) by (simp add: count_received_def)
  have "parity_of A r' d = Some par"
    using parity_of_cong [OF r'(4,5)] d(4) by simp
  then show ?thesis
    using assms(1) r' dec d by (auto simp: receiver_at_def pending_ok_def)
qed

text \<open>Sending one frame and receiving what has left the sender up to it returns that frame.\<close>

lemma stream_step:
  assumes A: "aead_ok A" and at: "stream_at A k s r pend" and sent: "send_audio A env s pl = (Inr (), s')"
  shows "\<exists>p d rest. outbox s' = outbox s @ map (Pair p) (d # rest) \<and> s_peer s = Some p \<and> audio_tx_seq s' = audio_tx_seq s + 1 \<and>
    (\<forall>q now envs evs. receives q evs (pend @ [d]) \<longrightarrow> length evs < length envs \<longrightarrow>
       (\<forall>e \<in> set envs. env_now e < now + ucast (cfg_jitter_buffer_ms (s_config r)) * 3 * 1000) \<longrightarrow>
       (\<exists>r'. recv_audio A False now r envs evs =
            Some (Some (Inr \<lparr>fr_sequence = audio_tx_seq s, fr_timestamp = env_now env, fr_payload = pl\<rparr>), r') \<and>
          stream_at A k s' r' rest \<and> s_config r' = s_config r))"
proof -
  obtain base i where n: "audio_tx_seq s = base + of_nat i" "receiver_at A k s base i pend r" and k: "encrypt_key s = Some k"
    using at by (auto simp: stream_at_def)
  have r: "decrypt_key r = Some k" "s_session_id r = s_session_id s"
    using n(2) by (simp_all add: receiver_at_def)
  let ?f = "\<lparr>fr_sequence = audio_tx_seq s, fr_timestamp = env_now env, fr_payload = pl\<rparr> :: Frame"
  from send_audio_datagrams [OF A sent k r] obtain p d rest where d: "outbox s' = outbox s @ (p, d) # rest" "s_peer s = Some p"
    "frame_of A r d = Some ?f" "fec_enc s' = fst (FecEncoder_push (fec_enc s) (audio_tx_seq s) pl)"
    "rest = [] \<or> (\<exists>e par. rest = [(p, e)] \<and> snd (FecEncoder_push (fec_enc s) (audio_tx_seq s) pl) = Some par \<and>
       parity_of A r e = Some par)"
    by blast
  from send_audio_frame [OF A sent k r] have s': "audio_tx_seq s' = audio_tx_seq s + 1" "encrypt_key s' = Some k"
    "s_session_id s' = s_session_id s"
    using k by auto
  let ?I = "\<lambda>r'. receiver_at A k s base i pend r' \<and> s_config r' = s_config r"
  let ?Q = "\<lambda>r'. stream_at A k s' r' (map snd rest) \<and> s_config r' = s_config r"
  have hit: "\<exists>x. handle_datagram A False env2 r1 d = Some x \<and> ends_wait ?Q (Inr ?f) x" if I: "?I r1" for r1 env2
  proof -
    have r1: "decrypt_key r1 = Some k" "s_session_id r1 = s_session_id s" "in_step base i (fec_enc s) (fec_dec r1)"
      "waiting (audio_tx_seq s) (s_jitter r1)"
      using I n(1) by (simp_all add: receiver_at_def)
    have f: "frame_of A r1 d = Some ?f"
      using frame_of_cong [of r1 r A d] r r1 d(3) by simp
    from handle_audio [OF f, of env2] obtain r2 where r2: "handle_datagram A False env2 r1 d = Some (Inr (), r2)"
      "s_jitter r2 = fst (JitterBuffer_push (s_jitter r1) ?f)" "decrypt_key r2 = decrypt_key r1" "s_session_id r2 = s_session_id r1"
      by blast
    have fec: "fec_dec r2 = fst (FecDecoder_push_data (fec_dec r1) (audio_tx_seq s) pl)" "s_config r2 = s_config r"
      using handle_audio_fec [OF f r2(1)] I by simp_all
    obtain jb where jb: "JitterBuffer_pop (s_jitter r2) = (jb, Some ?f)" "waiting (audio_tx_seq s + 1) jb"
      using waiting_push [OF r1(4), of ?f] r2(2) by auto
    from data_in_step [OF r1(3), of pl] obtain base' i' where step: "in_step base' i' (fec_enc s') (fec_dec r2)"
      "base' + of_nat i' = audio_tx_seq s + 1" "dec_active (fec_dec r2)"
      "\<forall>par. snd (FecEncoder_push (fec_enc s) (audio_tx_seq s) pl) = Some par \<longrightarrow> i' = 0 \<and> par_seq_base par = base' - 4"
      unfolding fec d(4) n(1) by blast
    have "parity_of A (r2\<lparr>s_jitter := jb\<rparr>) e = parity_of A r e" for e
      using r r1 r2 by (intro parity_of_cong) simp_all
    then have "pending_ok A base' i' (r2\<lparr>s_jitter := jb\<rparr>) (map snd rest)"
      using d(5) step by (auto simp: pending_ok_def)
    then have "receiver_at A k s' base' i' (map snd rest) (r2\<lparr>s_jitter := jb\<rparr>)"
      using step jb(2) r1 r2 s' by (simp add: receiver_at_def)
    then have "?Q (r2\<lparr>s_jitter := jb\<rparr>)"
      using s' step(2) fec(2) by (auto simp: stream_at_def intro!: exI [of _ base'] exI [of _ i'])
    then show ?thesis
      using r2(1) jb(1) by (auto simp: ends_wait_def)
  qed
  have "\<exists>r'. recv_audio A False now r envs evs = Some (Some (Inr ?f), r') \<and> ?Q r'"
    if ev: "receives q evs (pend @ [d])" "length evs < length envs"
      "\<forall>e \<in> set envs. env_now e < now + ucast (cfg_jitter_buffer_ms (s_config r)) * 3 * 1000" for q now envs evs
    unfolding recv_audio_def Let_def
  proof (rule loop_returns [where I = ?I and pend = pend, OF _ _ hit _ ev])
    show "JitterBuffer_pop (s_jitter r') = (s_jitter r', None)" if "?I r'" for r'
      using that by (auto simp: receiver_at_def intro: waiting_pop)
    show "\<exists>r''. handle_datagram A False env r' x = Some (Inr (), r'') \<and> ?I r''" if "?I r'" "x \<in> set pend" for r' x env
      using pending_absorbed [of A k s base i pend r' x False env] that by auto
    show "?I r"
      using n(2) by simp
  qed
  moreover have "map (Pair p) (map snd rest) = rest"
    using d(5) by auto
  ultimately show ?thesis
    using d(1,2) s'(1) by (intro exI [of _ p] exI [of _ d] exI [of _ "map snd rest"]) simp
qed

section \<open>A stream of samples\<close>

text \<open>The datagrams that leave the sender with each frame.\<close>

primrec send_chunks ::
  "aead \<Rightarrow> ('a, 'e, 'd) CodecSession \<Rightarrow> ('a Env \<times> i16 list) list \<Rightarrow> (bytes list list \<times> ('a, 'e, 'd) CodecSession) option" where
  "send_chunks A cs [] = Some ([], cs)"
| "send_chunks A cs (x # xs) =
     (case send_samples A (fst x) cs (snd x) of
        (Inl _, _) \<Rightarrow> None
      | (Inr _, cs') \<Rightarrow>
          (case send_chunks A cs' xs of
             None \<Rightarrow> None
           | Some (chs, cs'') \<Rightarrow> Some (map snd (drop (length (outbox (inner cs))) (outbox (inner cs'))) # chs, cs'')))"

text \<open>What has left the sender since the last frame, up to and including the next one.\<close>

fun up_to_frames :: "bytes list \<Rightarrow> bytes list list \<Rightarrow> bytes list list" where
  "up_to_frames pend [] = []"
| "up_to_frames pend (ch # chs) = (pend @ take 1 ch) # up_to_frames (drop 1 ch) chs"

fun left_over :: "bytes list \<Rightarrow> bytes list list \<Rightarrow> bytes list" where
  "left_over pend [] = pend"
| "left_over pend (ch # chs) = left_over (drop 1 ch) chs"

text \<open>Nothing is dropped and nothing changes its place.\<close>

lemma up_to_frames_all: "concat (up_to_frames pend chs) @ left_over pend chs = pend @ concat chs"
proof (induction pend chs rule: up_to_frames.induct)
  case (2 pend ch chs)
  then have "take 1 ch @ concat (up_to_frames (drop 1 ch) chs) @ left_over (drop 1 ch) chs = take 1 ch @ drop 1 ch @ concat chs"
    by (simp only:)
  then show ?case
    by simp
qed simp

text \<open>A call of the receiver during which these datagrams arrive, before its deadline.\<close>

definition arrives :: "u16 \<Rightarrow> 'a \<Rightarrow> u64 \<times> 'a Env list \<times> 'a recv_event list \<Rightarrow> bytes list \<Rightarrow> bool" where
  "arrives buffer_ms p call ds \<longleftrightarrow> receives p (snd (snd call)) ds \<and> length (snd (snd call)) < length (fst (snd call)) \<and>
     (\<forall>e \<in> set (fst (snd call)). env_now e < fst call + ucast buffer_ms * 3 * 1000)"

lemma send_all_chunks: "send_all_samples A cs xs = Some (ds, cs') \<Longrightarrow> \<exists>chs. send_chunks A cs xs = Some (chs, cs')"
proof (induction xs arbitrary: cs ds)
  case (Cons x xs)
  then obtain cs1 ds1 where "send_samples A (fst x) cs (snd x) = (Inr (), cs1)" "send_all_samples A cs1 xs = Some (ds1, cs')"
    by (auto split: prod.splits sum.splits option.splits)
  then show ?case
    using Cons.IH [of cs1 ds1] by auto
qed simp

lemma send_samples_pcm:
  assumes "cs_encoder cs = PcmCoder c" and "send_samples A env cs pcm = (Inr (), cs')"
  shows "\<exists>s'. send_audio A env (inner cs) (pcm_wire pcm) = (Inr (), s') \<and> cs' = cs\<lparr>inner := s'\<rparr> \<and> length pcm = total_samples c"
proof -
  obtain out n where e: "PcmCodec_encode c pcm (replicate (max (cs_mtu cs) 1500) 0) = Inr (out, n)"
    using assms by (auto simp: send_samples_def split: sum.splits)
  have len: "length pcm = total_samples c" "2 * length pcm \<le> max (cs_mtu cs) 1500"
    using e by (auto simp: PcmCodec_encode_def wire_bytes_def Let_def split: if_splits)
  show ?thesis
    using assms encode_samples [OF len(1), of "replicate (max (cs_mtu cs) 1500) 0"] len
    by (auto simp: send_samples_def split: prod.splits sum.splits)
qed

lemma stream_received:
  assumes A: "aead_ok A"
  shows "send_chunks A cs xs = Some (chs, cs') \<Longrightarrow> stream_at A k (inner cs) (inner v) pend \<Longrightarrow> cs_encoder cs = PcmCoder c \<Longrightarrow>
    cs_decoder v = PcmCoder c \<Longrightarrow> cs_channels v = pcm_channels c \<Longrightarrow> cs_frame_samples v = samples_per_channel c \<Longrightarrow>
    plc_queue v = [] \<Longrightarrow> last_rx_seq v = 0xFFFFFFFF \<or> audio_tx_seq (inner cs) = last_rx_seq v + 1 \<Longrightarrow>
    list_all2 (arrives (cfg_jitter_buffer_ms (s_config (inner v))) q) calls (up_to_frames pend chs) \<Longrightarrow>
    \<exists>v'. recv_calls A False calls v = Some (map (\<lambda>x. Some (Inr (snd x))) xs, v') \<and>
      stream_at A k (inner cs') (inner v') (left_over pend chs) \<and> plc_queue v' = [] \<and>
      s_config (inner v') = s_config (inner v)"
proof (induction xs arbitrary: cs v chs pend calls)
  case (Cons x xs)
  obtain cs1 where sent: "send_samples A (fst x) cs (snd x) = (Inr (), cs1)"
    using Cons.prems(1) by (auto split: prod.splits sum.splits)
  obtain chs1 where chs: "send_chunks A cs1 xs = Some (chs1, cs')"
    "chs = map snd (drop (length (outbox (inner cs))) (outbox (inner cs1))) # chs1"
    using Cons.prems(1) sent by (auto split: option.splits)
  obtain s' where s': "send_audio A (fst x) (inner cs) (pcm_wire (snd x)) = (Inr (), s')" "cs1 = cs\<lparr>inner := s'\<rparr>"
    "length (snd x) = total_samples c"
    using send_samples_pcm [OF Cons.prems(3) sent] by blast
  from stream_step [OF A Cons.prems(2) s'(1)] obtain p d rest where d:
    "outbox s' = outbox (inner cs) @ map (Pair p) (d # rest)" and seq: "audio_tx_seq s' = audio_tx_seq (inner cs) + 1"
    and step: "\<And>q now envs evs. receives q evs (pend @ [d]) \<Longrightarrow> length evs < length envs \<Longrightarrow>
       \<forall>e \<in> set envs. env_now e < now + ucast (cfg_jitter_buffer_ms (s_config (inner v))) * 3 * 1000 \<Longrightarrow>
       \<exists>r'. recv_audio A False now (inner v) envs evs =
            Some (Some (Inr \<lparr>fr_sequence = audio_tx_seq (inner cs), fr_timestamp = env_now (fst x), fr_payload = pcm_wire (snd x)\<rparr>), r') \<and>
          stream_at A k s' r' rest \<and> s_config r' = s_config (inner v)"
    by blast
  have ch: "chs = (d # rest) # chs1"
    using chs(2) d s'(2) by (simp add: comp_def)
  obtain call calls1 where calls: "calls = call # calls1" "arrives (cfg_jitter_buffer_ms (s_config (inner v))) q call (pend @ [d])"
    "list_all2 (arrives (cfg_jitter_buffer_ms (s_config (inner v))) q) calls1 (up_to_frames rest chs1)"
    using Cons.prems(9) by (auto simp: ch list_all2_Cons2)
  let ?f = "\<lparr>fr_sequence = audio_tx_seq (inner cs), fr_timestamp = env_now (fst x), fr_payload = pcm_wire (snd x)\<rparr> :: Frame"
  obtain r' where r': "recv_audio A False (fst call) (inner v) (fst (snd call)) (snd (snd call)) = Some (Some (Inr ?f), r')"
    "stream_at A k s' r' rest" "s_config r' = s_config (inner v)"
    using step [of q "snd (snd call)" "fst (snd call)" "fst call"] calls(2) by (auto simp: arrives_def)
  let ?v = "v\<lparr>inner := r', last_rx_seq := audio_tx_seq (inner cs)\<rparr>"
  have "deliver_frame (v\<lparr>inner := r'\<rparr>) ?f = (Inr (snd x), ?v)"
    using deliver_pcm [of "v\<lparr>inner := r'\<rparr>" c ?f "snd x"] Cons.prems(4-6,8) s'(3) by (auto simp: sequence_gap_def)
  then have first: "recv_samples A False (fst call) v (fst (snd call)) (snd (snd call)) = Some (Some (Inr (snd x)), ?v)"
    using Cons.prems(7) r'(1) by (simp add: recv_samples_def)
  obtain v' where "recv_calls A False calls1 ?v = Some (map (\<lambda>x. Some (Inr (snd x))) xs, v')"
    "stream_at A k (inner cs') (inner v') (left_over rest chs1)" "plc_queue v' = []" "s_config (inner v') = s_config (inner v)"
    using Cons.IH [OF chs(1), of ?v rest calls1] Cons.prems(3-7) r'(2,3) calls(3) s'(2) seq by auto
  then show ?case
    using first calls(1) by (intro exI [of _ v']) (simp add: ch)
qed auto

section \<open>A call of any length\<close>

lemma waiting_new: "JitterBuffer_new cap = Some b \<Longrightarrow> waiting n b"
  using new_inv [of cap b] jb_push_first(3) [of b] by (simp add: waiting_def JitterBuffer_new_def split: if_splits)

lemma chunks_outbox:
  "send_chunks A cs xs = Some (chs, cs') \<Longrightarrow> \<exists>ds. outbox (inner cs') = outbox (inner cs) @ ds \<and> map snd ds = concat chs"
proof (induction xs arbitrary: cs chs)
  case (Cons x xs)
  then obtain cs1 chs1 where 1: "send_samples A (fst x) cs (snd x) = (Inr (), cs1)" "send_chunks A cs1 xs = Some (chs1, cs')"
    "chs = map snd (drop (length (outbox (inner cs))) (outbox (inner cs1))) # chs1"
    by (auto split: prod.splits sum.splits option.splits)
  obtain ds where "outbox (inner cs1) = outbox (inner cs) @ ds"
    using send_samples_outbox [OF 1(1)] by blast
  then show ?case
    using Cons.IH [OF 1(2)] 1(3) by auto
qed simp

lemma chunks_keep:
  "send_chunks A cs xs = Some (chs, cs') \<Longrightarrow> cs_encoder cs = PcmCoder c \<Longrightarrow>
   s_peer (inner cs') = s_peer (inner cs) \<and> s_config (inner cs') = s_config (inner cs) \<and>
   s_state (inner cs') = s_state (inner cs) \<and> cs_encoder cs' = PcmCoder c \<and> cs_mtu cs' = cs_mtu cs"
proof (induction xs arbitrary: cs chs)
  case (Cons x xs)
  obtain cs1 chs1 where 1: "send_samples A (fst x) cs (snd x) = (Inr (), cs1)" "send_chunks A cs1 xs = Some (chs1, cs')"
    using Cons.prems(1) by (auto split: prod.splits sum.splits option.splits)
  obtain s' where s': "send_audio A (fst x) (inner cs) (pcm_wire (snd x)) = (Inr (), s')" "cs1 = cs\<lparr>inner := s'\<rparr>"
    using send_samples_pcm [OF Cons.prems(2) 1(1)] by blast
  show ?case
    using Cons.IH [OF 1(2)] Cons.prems(2) s'(2) send_audio_identity [of A "fst x" "inner cs" "pcm_wire (snd x)"] s'(1) by simp
qed simp

text \<open>A call set up by two sessions, and a stream of any length through it.\<close>

lemma pcm_call:
  fixes c :: "('a, 'e, 'd) CodecSession" and v :: "('a, 'e, 'd) CodecSession"
  assumes new: "CodecSession_new opus cfgc Pcm = Some (Inr c)" "CodecSession_new opus cfgv Pcm = Some (Inr v)"
    and format: "cfg_sample_rate cfgv = cfg_sample_rate cfgc" "cfg_channels cfgv = cfg_channels cfgc"
      "cfg_frame_duration_ms cfgv = cfg_frame_duration_ms cfgc"
    and codec: "pcm = PcmCodec_new (cfg_sample_rate cfgc) (cfg_channels cfgc) (cfg_frame_duration_ms cfgc)"
    and size: "2 * total_samples pcm \<le> 1156" "2 * total_samples pcm + 48 \<le> cfg_mtu cfgc"
    and mtu: "112 \<le> cfg_mtu cfgc" "112 \<le> cfg_mtu cfgv"
    and crypto: "kx_ok K" "aead_ok A" "\<forall>k n a m. aead_encrypt A k n a m \<noteq> None"
    and nonces: "length (cr_nonce cr) = 32" "length (sr_nonce sr) = 32"
    and net: "accepts e1 sa" "accepts f1 ca" "accepts f2 ca"
    and frames: "\<forall>x \<in> set xs. accepts (fst x) sa \<and> length (snd x) = total_samples pcm"
  shows "\<exists>d1 d2 d3 d4 c1 v1 chs c2 ds k.
    cs_handshake K (ClientSide cr) c sa [(e1, HsRecv (RecvData d2 sa)), (e2, HsRecv (RecvData d4 sa))] =
      (Some (Inr ()), c1, []) \<and>
    cs_handshake K (ServerSide sr) v ca [(f1, HsRecv (RecvData d1 ca)), (f2, HsRecv (RecvData d3 ca))] =
      (Some (Inr ()), v1, []) \<and>
    outbox (inner c1) = [(sa, d1), (sa, d3)] \<and> outbox (inner v1) = [(ca, d2), (ca, d4)] \<and>
    send_chunks A c1 xs = Some (chs, c2) \<and> outbox (inner c2) = outbox (inner c1) @ ds \<and> map snd ds = concat chs \<and>
    s_peer (inner c2) = Some sa \<and> cfg_mtu (s_config (inner c2)) = cfg_mtu cfgc \<and>
    sm_state (s_state (inner c2)) = S_Active \<and> cs_encoder c2 = PcmCoder pcm \<and>
    (\<forall>calls. list_all2 (arrives (cfg_jitter_buffer_ms cfgv) ca) calls (up_to_frames [] chs) \<longrightarrow>
       (\<exists>v2. recv_calls A False calls v1 = Some (map (\<lambda>x. Some (Inr (snd x))) xs, v2) \<and>
          stream_at A k (inner c2) (inner v2) (left_over [] chs) \<and> plc_queue v2 = [] \<and>
          cfg_jitter_buffer_ms (s_config (inner v2)) = cfg_jitter_buffer_ms cfgv))"
proof -
  note nc = new_pcm_session [OF new(1)] and nv = new_pcm_session [OF new(2)]
  from pcm_handshake [OF new crypto(1) nonces mtu net, where ?e2.0 = e2] obtain d1 d2 d3 d4 c' v' k where hs:
    "cs_handshake K (ClientSide cr) c sa [(e1, HsRecv (RecvData d2 sa)), (e2, HsRecv (RecvData d4 sa))] =
      (Some (Inr ()), c\<lparr>inner := c'\<rparr>, [])"
    "cs_handshake K (ServerSide sr) v ca [(f1, HsRecv (RecvData d1 ca)), (f2, HsRecv (RecvData d3 ca))] =
      (Some (Inr ()), v\<lparr>inner := v'\<rparr>, [])"
    "outbox c' = [(sa, d1), (sa, d3)]" "outbox v' = [(ca, d2), (ca, d4)]" "sm_state (s_state c') = S_Active"
    "s_peer c' = Some sa" "encrypt_key c' = Some k" "decrypt_key v' = Some k" "s_session_id v' = s_session_id c'"
    "kept (inner c) c'" "kept (inner v) v'"
    by blast
  let ?c1 = "c\<lparr>inner := c'\<rparr>" and ?v1 = "v\<lparr>inner := v'\<rparr>"
  obtain ds1 c2 where "send_all_samples A ?c1 xs = Some (ds1, c2)"
    using send_all_succeeds [OF crypto(2) _ size(1), of k ?c1 sa xs] crypto(3) size(2) hs(5-7,10) nc(1,8) frames codec
    by (auto simp: kept_def)
  then obtain chs where sent: "send_chunks A ?c1 xs = Some (chs, c2)"
    using send_all_chunks by blast
  obtain ds where ds: "outbox (inner c2) = outbox (inner ?c1) @ ds" "map snd ds = concat chs"
    using chunks_outbox [OF sent] by blast
  have at: "stream_at A k (inner ?c1) (inner ?v1) []"
    using hs(7-11) nc(13,17) nv(15,18) in_step_new waiting_new [of _ "s_jitter v'" 0]
    by (auto simp: stream_at_def receiver_at_def pending_ok_def kept_def intro!: exI [of _ "0 :: u32"] exI [of _ "0 :: nat"])
  have received: "\<exists>v2. recv_calls A False calls ?v1 = Some (map (\<lambda>x. Some (Inr (snd x))) xs, v2) \<and>
      stream_at A k (inner c2) (inner v2) (left_over [] chs) \<and> plc_queue v2 = [] \<and>
      cfg_jitter_buffer_ms (s_config (inner v2)) = cfg_jitter_buffer_ms cfgv"
    if "list_all2 (arrives (cfg_jitter_buffer_ms cfgv) ca) calls (up_to_frames [] chs)" for calls
  proof -
    have jb: "cfg_jitter_buffer_ms (s_config (inner ?v1)) = cfg_jitter_buffer_ms cfgv"
      using nv(19) hs(11) by (simp add: kept_def)
    have "\<exists>v2. recv_calls A False calls ?v1 = Some (map (\<lambda>x. Some (Inr (snd x))) xs, v2) \<and>
        stream_at A k (inner c2) (inner v2) (left_over [] chs) \<and> plc_queue v2 = [] \<and> s_config (inner v2) = s_config (inner ?v1)"
      by (rule stream_received [OF crypto(2) sent at, where c = pcm and q = ca])
         (use that jb nc(1) nv(2-5,7) codec format in \<open>simp_all add: PcmCodec_new_def\<close>)
    then show ?thesis
      using jb by metis
  qed
  have kept: "s_peer (inner c2) = Some sa" "cfg_mtu (s_config (inner c2)) = cfg_mtu cfgc"
    "outbox (inner ?c1) = [(sa, d1), (sa, d3)]" "outbox (inner ?v1) = [(ca, d2), (ca, d4)]"
    "sm_state (s_state (inner c2)) = S_Active" "cs_encoder c2 = PcmCoder pcm"
    using chunks_keep [OF sent] nc(1,8) hs(3-6,10) codec by (simp_all add: kept_def)
  show ?thesis
    by (rule exI [of _ d1], rule exI [of _ d2], rule exI [of _ d3], rule exI [of _ d4], rule exI [of _ ?c1], rule exI [of _ ?v1],
        rule exI [of _ chs], rule exI [of _ c2], rule exI [of _ ds], rule exI [of _ k], intro conjI allI impI,
        rule hs(1), rule hs(2), rule kept(3), rule kept(4), rule sent, rule ds(1), rule ds(2), rule kept(1), rule kept(2),
        rule kept(5), rule kept(6), rule received)
qed



section \<open>The end of a call\<close>

text \<open>Closing sends one packet, which ends the wait of the receiver with a remote close.\<close>

definition is_close :: "bytes \<Rightarrow> bool" where
  "is_close d \<longleftrightarrow> (case PacketView_decode d of Inl _ \<Rightarrow> False | Inr view \<Rightarrow> msg_type (header view) = MessageType_code CloseMsg)"

lemma close_datagram:
  assumes "s_peer s = Some p" and "28 \<le> cfg_mtu (s_config s)"
  shows "\<exists>d. outbox (snd (close_session env s)) = outbox s @ [(p, d)] \<and> is_close d"
proof -
  let ?hdr = "PacketHeader_new (MessageType_code CloseMsg) (s_session_id s) (tx_sequence s) (env_now env)"
  have "is_close (packet_bytes ?hdr [])"
    by (simp add: is_close_def PacketView_decode_packet_bytes) (simp add: PacketHeader_new_def)
  moreover have "outbox (snd (close_session env s)) = outbox s @ [(p, packet_bytes ?hdr [])]"
    using assms
    by (auto simp: close_session_def send_control_def send_packet_eq transport_send_def transition_state_def count_sent_def Let_def
        split: sum.splits)
  ultimately show ?thesis
    by blast
qed

lemma stream_closed:
  assumes "stream_at A k s r pend" and "is_close d" and "receives q evs (pend @ [d])" and "length evs < length envs"
    and "\<forall>e \<in> set envs. env_now e < now + ucast (cfg_jitter_buffer_ms (s_config r)) * 3 * 1000"
  shows "\<exists>r'. recv_audio A oc now r envs evs = Some (Some (Inl (PeerClosedError ''remote close'')), r')"
proof -
  obtain base i where at: "receiver_at A k s base i pend r"
    using assms(1) by (auto simp: stream_at_def)
  obtain view where "PacketView_decode d = Inr view" "msg_type (header view) = MessageType_code CloseMsg"
    using assms(2) by (auto simp: is_close_def split: sum.splits)
  then have close: "\<exists>x. handle_datagram A oc env r' d = Some x \<and> ends_wait (\<lambda>_. True) (Inl (PeerClosedError ''remote close'')) x"
    for env r'
    using MessageType_from_code_code [of CloseMsg]
    by (simp add: handle_datagram_def dispatch_packet_close Let_def ends_wait_def)
  have "\<exists>r'. recv_audio A oc now r envs evs = Some (Some (Inl (PeerClosedError ''remote close'')), r') \<and> True"
    unfolding recv_audio_def Let_def
  proof (rule loop_returns [where I = "receiver_at A k s base i pend" and pend = pend, OF _ _ close at assms(3-5)])
    show "JitterBuffer_pop (s_jitter r') = (s_jitter r', None)" if "receiver_at A k s base i pend r'" for r'
      using that by (auto simp: receiver_at_def intro: waiting_pop)
    show "\<exists>r''. handle_datagram A oc env r' x = Some (Inr (), r'') \<and> receiver_at A k s base i pend r''"
      if "receiver_at A k s base i pend r'" "x \<in> set pend" for r' x env
      using pending_absorbed [of A k s base i pend r' x oc env] that by auto
  qed
  then show ?thesis
    by blast
qed

end
