(* ===== verification/LossRecovery.thy ===== *)
theory LossRecovery
  imports LiveStream
begin

text \<open>
  Loss recovery through the whole session: a group of four sealed audio packets and its sealed parity packet, of which one audio
  packet is lost.  The parity encoder runs inside \<open>send_audio\<close>, the decoder inside the dispatch of received packets, and the
  recovered frame goes to the jitter buffer like a received one.
\<close>

section \<open>The sender's group\<close>

lemma equal_max_len: "fs \<noteq> [] \<Longrightarrow> \<forall>f \<in> set fs. length f = l \<Longrightarrow> max_len fs = l"
proof (induction fs)
  case (Cons f fs)
  then show ?case
    by (cases "fs = []") auto
qed simp

text \<open>The rest of a group: the audio packets and then the parity packet.\<close>

lemma group_sent:
  assumes A: "aead_ok A" "\<forall>n a m. aead_encrypt A k n a m \<noteq> None" and l: "l \<le> 1155"
  shows "sm_state (s_state s) = S_Active \<Longrightarrow> s_peer s = Some p \<Longrightarrow> encrypt_key s = Some k \<Longrightarrow> decrypt_key r = Some k \<Longrightarrow>
    s_session_id r = s_session_id s \<Longrightarrow> l + 49 \<le> cfg_mtu (s_config s) \<Longrightarrow>
    enc_inv (fec_enc s) 4 base fs \<Longrightarrow> fs = [] \<longrightarrow> audio_tx_seq s = base \<Longrightarrow> \<forall>f \<in> set fs. length f = l \<Longrightarrow>
    length fs + length xs = 4 \<Longrightarrow> xs \<noteq> [] \<Longrightarrow> \<forall>x \<in> set xs. accepts (fst x) p \<and> length (snd x) = l \<Longrightarrow>
    \<exists>ds d s' par. send_stream A s xs = Some (ds, s') \<and> outbox s' = outbox s @ map (Pair p) (ds @ [d]) \<and>
      parity_of A r d = Some par \<and> is_parity par 4 base (fs @ map snd xs)"
proof (induction xs arbitrary: s fs)
  case (Cons x xs)
  have x: "accepts (fst x) p" "length (snd x) = l"
    using Cons.prems(12) by simp_all
  obtain s1 where s1: "send_audio A (fst x) s (snd x) = (Inr (), s1)" "sm_state (s_state s1) = S_Active"
    using send_audio_succeeds [OF A(1) Cons.prems(1-3) A(2), of "fst x" "snd x"] x l Cons.prems(6) by (auto simp: accepts_def)
  from send_audio_datagrams [OF A(1) s1(1) Cons.prems(3-5)] obtain d rest where d: "outbox s1 = outbox s @ (p, d) # rest"
    "s_peer s1 = Some p" "s_config s1 = s_config s" "fec_enc s1 = fst (FecEncoder_push (fec_enc s) (audio_tx_seq s) (snd x))"
    "rest = [] \<or> (\<exists>e par. rest = [(p, e)] \<and> snd (FecEncoder_push (fec_enc s) (audio_tx_seq s) (snd x)) = Some par \<and>
       parity_of A r e = Some par)"
    "\<forall>par. snd (FecEncoder_push (fec_enc s) (audio_tx_seq s) (snd x)) = Some par \<longrightarrow>
       sends_parity A k (fst x) p (cfg_mtu (s_config s)) (length (par_payload par)) \<longrightarrow> rest \<noteq> []"
    using Cons.prems(2) by auto
  from send_audio_frame [OF A(1) s1(1) Cons.prems(3-5)] have keep: "encrypt_key s1 = Some k" "s_session_id r = s_session_id s1"
    using Cons.prems(3,5) by auto
  note push = encoder_push [OF Cons.prems(7,8), of "snd x"]
  show ?case
  proof (cases xs)
    case Nil
    then obtain e' par where par: "FecEncoder_push (fec_enc s) (audio_tx_seq s) (snd x) = (e', Some par)"
      "is_parity par 4 base (fs @ [snd x])"
      using push Cons.prems(10) by auto
    then have "length (par_payload par) = l"
      using equal_max_len [of "fs @ [snd x]" l] x(2) Cons.prems(9) by (auto simp: is_parity_def simp del: max_len_append)
    then have "sends_parity A k (fst x) p (cfg_mtu (s_config s)) (length (par_payload par))"
      using A(2) x(1) l Cons.prems(6) by (simp add: sends_parity_def)
    then obtain e where "rest = [(p, e)]" "parity_of A r e = Some par"
      using d(5,6) par(1) by auto
    then show ?thesis
      using Nil s1(1) d(1) par(2) by auto
  next
    case (Cons y ys)
    then obtain e' where e': "FecEncoder_push (fec_enc s) (audio_tx_seq s) (snd x) = (e', None)" "enc_inv e' 4 base (fs @ [snd x])"
      using push Cons.prems(10) by auto
    have "\<exists>ds d s' par. send_stream A s1 xs = Some (ds, s') \<and> outbox s' = outbox s1 @ map (Pair p) (ds @ [d]) \<and>
      parity_of A r d = Some par \<and> is_parity par 4 base ((fs @ [snd x]) @ map snd xs)"
      by (rule Cons.IH [OF s1(2) d(2) keep(1) Cons.prems(4) keep(2)]) (use e' d(3,4) x(2) Cons.prems Cons in auto)
    then show ?thesis
      using s1(1) d(1,5) e'(1) by auto
  qed
qed simp

section \<open>The receiver's group\<close>

lemma deliver_append: "deliver A r (xs @ ys) = (case deliver A r xs of None \<Rightarrow> None | Some r' \<Rightarrow> deliver A r' ys)"
  by (induction xs arbitrary: r) (auto split: option.splits sum.splits prod.splits)

lemma push_all_snoc: "fst (push_all push b (fs @ [f])) = fst (push (fst (push_all push b fs)) f)"
  by (induction fs arbitrary: b) (simp_all add: split_beta)

text \<open>Audio packets delivered one after the other, as \<open>deliver_frames\<close>, with the parity decoder.\<close>

lemma deliver_audio:
  "\<forall>x \<in> set xs. frame_of A r (snd x) \<noteq> None \<Longrightarrow>
     \<exists>r'. deliver A r xs = Some r' \<and> decrypt_key r' = decrypt_key r \<and> s_session_id r' = s_session_id r \<and>
       s_jitter r' = fst (push_all JitterBuffer_push (s_jitter r) (map (the \<circ> frame_of A r \<circ> snd) xs)) \<and>
       fec_dec r' = receive_all (fec_dec r)
         (map (\<lambda>x. let f = the (frame_of A r (snd x)) in (fr_sequence f, fr_payload f)) xs)"
proof (induction xs arbitrary: r)
  case (Cons x xs)
  obtain f where f: "frame_of A r (snd x) = Some f"
    using Cons.prems by auto
  from handle_audio [OF f, of "fst x"]
  obtain r1 where r1: "handle_datagram A False (fst x) r (snd x) = Some (Inr (), r1)"
    "s_jitter r1 = fst (JitterBuffer_push (s_jitter r) f)" "decrypt_key r1 = decrypt_key r"
    "s_session_id r1 = s_session_id r"
    by blast
  have fec: "fec_dec r1 = fst (FecDecoder_push_data (fec_dec r) (fr_sequence f) (fr_payload f))"
    using handle_audio_fec [OF f r1(1)] by simp
  have same: "frame_of A r1 = frame_of A r"
    using frame_of_cong [OF r1(3,4)] by blast
  from Cons.IH [of r1] Cons.prems show ?case
    unfolding same using r1 f fec by (auto simp: prod.case_eq_if comp_def receive_all_def Let_def)
qed (simp add: receive_all_def)

text \<open>A parity packet that recovers a frame.\<close>

lemma handle_parity_recovers:
  assumes "parity_of A r d = Some p" and "snd (FecDecoder_push_parity (fec_dec r) p) = Some (n, pl)"
  shows "\<exists>r'. handle_datagram A oc env r d = Some (Inr (), r') \<and>
    s_jitter r' = fst (JitterBuffer_push (s_jitter r) \<lparr>fr_sequence = n, fr_timestamp = 0, fr_payload = pl\<rparr>)"
  using handle_parity [OF assms(1), of oc env] assms(2) by (auto simp: count_received_def split: prod.splits)

lemma stream_frames_payload: "i < length xs \<Longrightarrow> fr_payload (stream_frames n xs ! i) = snd (xs ! i)"
  by (induction xs arbitrary: n i) (auto simp: nth_Cons split: nat.splits)

text \<open>Frames with consecutive numbers, pushed in any order into a buffer that waits for the first, are played in order.\<close>

lemma waiting_reorders:
  assumes "waiting n b" and "primed b" and "\<And>i. i < length gs \<Longrightarrow> fr_sequence (gs ! i) = n + of_nat i"
    and "length gs \<le> unat (capacity b)" and "set arr = set gs"
  shows "pop_n JitterBuffer_pop (fst (push_all JitterBuffer_push b arr)) (length gs) = map Some gs"
proof -
  let ?b = "fst (push_all JitterBuffer_push b arr)"
  have b: "jb_inv b" "jb_cursor b = Some n" "jb_contents b = Map.empty"
    using assms(1,2) by (simp_all add: waiting_def jb_cursor_def)
  obtain e where e: "e \<le> 11" "unat (capacity b) = 2 ^ e"
    using b(1) unat_exp by (auto simp: jb_inv_def)
  have "(2 :: nat) ^ e \<le> 2 ^ 32"
    using e(1) by (intro power_increasing) simp_all
  then have small: "length gs \<le> 2 ^ 32"
    using assms(4) e(2) by simp
  have "unat (fr_sequence f - n) < unat (capacity b)" if "f \<in> set arr" for f
  proof -
    obtain i where i: "i < length gs" "f = gs ! i"
      using \<open>f \<in> set arr\<close> assms(5) by (metis in_set_conv_nth)
    then have "unat (of_nat i :: u32) = i"
      using small by (intro unat_of_nat_small) simp
    then show ?thesis
      using assms(3) [OF i(1)] i assms(4) by simp
  qed
  then have inside: "\<forall>f \<in> set arr. unat (fr_sequence f - n) < unat (capacity b)"
    by blast
  note all = jb.push_all_inside [OF b(1,2) inside]
  have inj: "inj_on fr_sequence (set gs)"
    using assms(3) small by (intro numbered_inj [where n = n]) auto
  have "jb_contents ?b (n + of_nat i) = Some (gs ! i)" if "i < length gs" for i
    using fold_store [OF inj, of "gs ! i" arr Map.empty] that assms(5) all b(3) assms(3) [OF that] by simp
  then show ?thesis
    using all small by (intro jb.pop_n_in_order) auto
qed

text \<open>Some audio packets of a group, delivered in the given order.\<close>

lemma partial_group:
  assumes "aead_ok A" and "encrypt_key s = Some k" and "decrypt_key r = Some k" and "s_session_id r = s_session_id s"
    and "send_stream A s xs = Some (ds, s')" and "map snd arr = map ((!) ds) order" and "\<forall>i \<in> set order. i < length xs"
  defines "fs \<equiv> stream_frames (audio_tx_seq s) xs"
  shows "\<exists>r'. deliver A r arr = Some r' \<and> decrypt_key r' = decrypt_key r \<and> s_session_id r' = s_session_id r \<and>
    s_jitter r' = fst (push_all JitterBuffer_push (s_jitter r) (map ((!) fs) order)) \<and>
    fec_dec r' = receive_all (fec_dec r) (map (\<lambda>i. (audio_tx_seq s + of_nat i, map snd xs ! i)) order)"
proof -
  have "map (frame_of A r) ds = map Some fs"
    unfolding fs_def by (rule send_stream_frames [OF assms(1,5,2-4)])
  then have frames: "frame_of A r (ds ! i) = Some (fs ! i)" if "i \<in> set order" for i
    using that assms(7) by (metis fs_def length_map nth_map stream_frames_simps(1))
  have seen: "map (g \<circ> frame_of A r) (map snd arr) = map (\<lambda>i. g (Some (fs ! i))) order" for g :: "Frame option \<Rightarrow> 'z"
    unfolding assms(6) using frames by (simp add: comp_def)
  have "frame_of A r (snd x) \<noteq> None" if "x \<in> set arr" for x
  proof -
    have "snd x \<in> set (map ((!) ds) order)"
      using that by (simp flip: assms(6))
    then show ?thesis
      using frames by auto
  qed
  then have "\<forall>x \<in> set arr. frame_of A r (snd x) \<noteq> None"
    by blast
  note arrived = deliver_audio [OF this]
  have "map (the \<circ> frame_of A r \<circ> snd) arr = map ((!) fs) order"
    using seen [of the] by (simp add: comp_def)
  moreover have "map (\<lambda>x. let f = the (frame_of A r (snd x)) in (fr_sequence f, fr_payload f)) arr =
      map (\<lambda>i. (audio_tx_seq s + of_nat i, map snd xs ! i)) order"
    using seen [of "\<lambda>x. (fr_sequence (the x), fr_payload (the x))"] assms(7)
    by (simp add: comp_def Let_def fs_def stream_frames_payload stream_frames_seq)
  ultimately show ?thesis
    using arrived by simp
qed

text \<open>When all frames of a group but one have arrived, the parity packet adds the lost one to the jitter buffer.\<close>

lemma group_repaired:
  fixes s :: "'a Session" and lost :: nat
  defines "n \<equiv> audio_tx_seq s"
  defines "rec \<equiv> \<lambda>pls. \<lparr>fr_sequence = n + of_nat lost, fr_timestamp = 0, fr_payload = pls ! lost\<rparr> :: Frame"
  assumes keys: "aead_ok A" "encrypt_key s = Some k" "decrypt_key r = Some k" "s_session_id r = s_session_id s"
    and sent: "send_stream A s xs = Some (ds, s')" and q: "parity_of A r par = Some q" "is_parity q 4 n (map snd xs)"
    and step: "in_step n 0 (fec_enc s) (fec_dec r)" and xs: "length xs = 4" "\<forall>x \<in> set xs. length (snd x) = l"
    and lost: "lost < 4" and order: "set order = {0..<4} - {lost}" and arr: "map snd arr = map ((!) ds) order"
  shows "\<exists>r'. deliver A r (arr @ [(env, par)]) = Some r' \<and>
    s_jitter r' = fst (push_all JitterBuffer_push (s_jitter r) (map ((!) (stream_frames n xs)) order @ [rec (map snd xs)]))"
proof -
  let ?pls = "map snd xs"
  have al: "aligned 4 n" "dec_window (fec_dec r) = 4" "\<not> dec_active (fec_dec r) \<or> dec_seq_base (fec_dec r) \<noteq> n"
    using step by (auto simp: in_step_def dec_inv_def)
  have "(if lost = 0 then 1 else 0) \<in> set order" "\<forall>i \<in> set order. i < length xs"
    using xs(1) by (simp_all add: order)
  then have ne: "order \<noteq> []" and ix: "\<forall>i \<in> set order. i < length xs"
    by auto
  from partial_group [OF keys sent arr ix] obtain r1 where r1: "deliver A r arr = Some r1" "decrypt_key r1 = decrypt_key r"
    "s_session_id r1 = s_session_id r" "s_jitter r1 = fst (push_all JitterBuffer_push (s_jitter r) (map ((!) (stream_frames n xs)) order))"
    "fec_dec r1 = receive_all (fec_dec r) (map (\<lambda>i. (n + of_nat i, ?pls ! i)) order)"
    unfolding n_def by blast
  have "dec_inv (fec_dec r1) 4 n (\<lambda>i. if i \<in> set order then Some (?pls ! i) else None)"
    unfolding r1(5) using receive_new_group [OF al ne, of ?pls] order by simp
  then have group: "dec_inv (fec_dec r1) 4 n (\<lambda>i. if i \<noteq> lost then Some (?pls ! i) else None)"
    using order by (simp add: dec_inv_def)
  have "snd (FecDecoder_push_parity (fec_dec r1) q) = Some (n + of_nat lost, resize_zero (max_len ?pls) (?pls ! lost))"
    using push_parity_recovers [OF group q(2)] xs(1) lost by simp
  moreover have "resize_zero (max_len ?pls) (?pls ! lost) = ?pls ! lost"
    using equal_max_len [of ?pls l] xs lost by (cases "xs = []") (simp_all add: resize_zero_def)
  moreover have "parity_of A r1 par = Some q"
    using parity_of_cong [OF r1(2,3)] q(1) by simp
  ultimately obtain r2 where "handle_datagram A False env r1 par = Some (Inr (), r2)"
    "s_jitter r2 = fst (JitterBuffer_push (s_jitter r1) (rec ?pls))"
    using handle_parity_recovers [of A r1 par q "n + of_nat lost" "?pls ! lost" False env] by (auto simp: rec_def)
  then show ?thesis
    using r1(1,4) by (auto simp: deliver_append push_all_snoc)
qed

text \<open>Playing the buffer back then yields the whole group.\<close>

lemma repaired_group_plays:
  fixes n :: u32 and xs :: "('a Env \<times> bytes) list"
  assumes "waiting n b" and "primed b" and "4 \<le> capacity b" and xs: "length xs = 4"
    and lost: "lost < 4" and order: "set order = {0..<4} - {lost}"
  defines "rec \<equiv> \<lparr>fr_sequence = n + of_nat lost, fr_timestamp = 0, fr_payload = map snd xs ! lost\<rparr> :: Frame"
  shows "map (map_option fr_payload)
      (pop_n JitterBuffer_pop (fst (push_all JitterBuffer_push b (map ((!) (stream_frames n xs)) order @ [rec]))) 4) = map (Some \<circ> snd) xs"
proof -
  let ?F = "(!) (stream_frames n xs)"
  define gs where "gs = map (\<lambda>i. if i = lost then rec else ?F i) [0..<4]"
  have "set gs = (\<lambda>i. if i = lost then rec else ?F i) ` (insert lost (set order))"
    using order lost by (auto simp: gs_def)
  also have "\<dots> = insert rec (?F ` set order)"
    using order by (auto simp: image_iff)
  finally have pushed: "set (map ?F order @ [rec]) = set gs"
    by simp
  have "pop_n JitterBuffer_pop (fst (push_all JitterBuffer_push b (map ?F order @ [rec]))) (length gs) = map Some gs"
    by (rule waiting_reorders [OF assms(1,2) _ _ pushed])
       (use assms(3) xs in \<open>simp_all add: gs_def rec_def stream_frames_seq word_le_nat_alt\<close>)
  moreover have "map fr_payload gs = map snd xs" "length gs = 4"
    using xs by (auto intro!: nth_equalityI simp: gs_def rec_def stream_frames_payload)
  moreover have "map (map_option fr_payload) (map Some gs) = map Some (map fr_payload gs)"
    by simp
  ultimately show ?thesis
    by (metis map_map)
qed

text \<open>C13: a lost packet is recovered, end to end.  In the middle of a call, at the start of a group, the client sends four frames
  of the same length.  All sends succeed, and five packets leave: the four audio packets and the parity packet.  Whichever of
  the audio packets is lost, when the other three arrive in any order and with any duplicates and then the parity packet,
  the receiver accepts everything, and playing the buffer back delivers all four frames in order, the lost one with exactly
  the bytes that were sent.\<close>

theorem lost_frame_recovered:
  assumes "aead_ok A" and "\<forall>n a m. aead_encrypt A k n a m \<noteq> None"
    and "sm_state (s_state s) = S_Active" and "s_peer s = Some p" and "encrypt_key s = Some k" and "decrypt_key r = Some k"
    and "s_session_id r = s_session_id s" and "in_step (audio_tx_seq s) 0 (fec_enc s) (fec_dec r)"
    and "waiting (audio_tx_seq s) (s_jitter r)" and "primed (s_jitter r)" and "4 \<le> capacity (s_jitter r)"
    and "length xs = 4" and "\<forall>x \<in> set xs. accepts (fst x) p \<and> length (snd x) = l"
    and "l \<le> 1155" and "l + 49 \<le> cfg_mtu (s_config s)"
  shows "\<exists>ds par s'. send_stream A s xs = Some (ds, s') \<and> outbox s' = outbox s @ map (Pair p) (ds @ [par]) \<and>
    (\<forall>lost order arr env. lost < 4 \<longrightarrow> set order = {0..<4} - {lost} \<longrightarrow> map snd arr = map ((!) ds) order \<longrightarrow>
       (\<exists>r'. deliver A r (arr @ [(env, par)]) = Some r' \<and>
          map (map_option fr_payload) (pop_n JitterBuffer_pop (s_jitter r') 4) = map (Some \<circ> snd) xs))"
proof -
  have enc: "enc_inv (fec_enc s) 4 (audio_tx_seq s) []" and al: "aligned 4 (audio_tx_seq s)" "dec_window (fec_dec r) = 4"
    using assms(8) by (auto simp: in_step_def)
  have xs: "xs \<noteq> []" "length ([] :: bytes list) + length xs = 4" "\<forall>x \<in> set xs. length (snd x) = l"
    using assms(12,13) by auto
  from group_sent [OF assms(1,2,14,3-7,15) enc _ _ xs(2,1) assms(13)] obtain ds par s' q where sent:
    "send_stream A s xs = Some (ds, s')" "outbox s' = outbox s @ map (Pair p) (ds @ [par])"
    and q: "parity_of A r par = Some q" "is_parity q 4 (audio_tx_seq s) (map snd xs)"
    by auto
  have "\<exists>r'. deliver A r (arr @ [(env, par)]) = Some r' \<and>
      map (map_option fr_payload) (pop_n JitterBuffer_pop (s_jitter r') 4) = map (Some \<circ> snd) xs"
    if lost: "lost < 4" "set order = {0..<4} - {lost}" and arr: "map snd arr = map ((!) ds) order" for lost order arr env
    using group_repaired [OF assms(1,5-7) sent(1) q assms(8,12) xs(3) lost arr, of env]
      repaired_group_plays [OF assms(9-12) lost] by auto
  then show ?thesis
    using sent by (intro exI [of _ ds] exI [of _ par] exI [of _ s']) blast
qed

text \<open>The third of four frames is lost; the others arrive in another order.\<close>

definition demo_frames :: "(nat Env \<times> bytes) list" where
  "demo_frames = [(demo_env 1, [1, 2]), (demo_env 2, [3, 4]), (demo_env 3, [5, 6]), (demo_env 4, [7, 8])]"

theorem lost_frame_recovered_witness:
  "\<forall>cc. \<exists>jb ds par s' r'.
     send_stream null_aead ((demo_session jb cc)\<lparr>audio_tx_seq := 8\<rparr>) demo_frames = Some (ds, s') \<and>
     deliver null_aead ((demo_session jb cc)\<lparr>audio_tx_seq := 8\<rparr>)
       (map (\<lambda>i. (demo_env 9, ds ! i)) [3, 0, 1] @ [(demo_env 9, par)]) = Some r' \<and>
     map (map_option fr_payload) (pop_n JitterBuffer_pop (s_jitter r') 4) = map Some [[1, 2], [3, 4], [5, 6], [7, 8]]"
proof
  fix cc
  obtain b where b: "JitterBuffer_new 16 = Some b"
    using new_power [of 4] by auto
  let ?f = "\<lparr>fr_sequence = 8, fr_timestamp = 0, fr_payload = []\<rparr> :: Frame"
  let ?jb = "b\<lparr>next_seq := fr_sequence ?f, primed := True\<rparr>"
  let ?s = "(demo_session ?jb cc)\<lparr>audio_tx_seq := 8\<rparr>"
  have jb: "waiting 8 ?jb" "primed ?jb" "4 \<le> capacity ?jb"
    using new_inv [OF b] jb_push_first(2,4) [of b ?f] by (simp_all add: waiting_def)
  have step: "in_step 8 0 (FecEncoder_new FEC_WINDOW) (FecDecoder_new FEC_WINDOW)"
    by (auto simp: in_step_def aligned_def FecEncoder_new_def FecDecoder_new_def FEC_WINDOW_def enc_inv_def)
  have pre: "sm_state (s_state ?s) = S_Active" "s_peer ?s = Some 0" "encrypt_key ?s = Some [1]" "decrypt_key ?s = Some [1]"
    "in_step (audio_tx_seq ?s) 0 (fec_enc ?s) (fec_dec ?s)" "waiting (audio_tx_seq ?s) (s_jitter ?s)" "primed (s_jitter ?s)"
    "4 \<le> capacity (s_jitter ?s)" "2 + 49 \<le> cfg_mtu (s_config ?s)"
    using jb step by (simp_all add: demo_session_def Config_default_def size_consts)
  have frames: "length demo_frames = 4" "\<forall>x \<in> set demo_frames. accepts (fst x) 0 \<and> length (snd x) = 2"
    "(2 :: nat) \<le> 1155" "\<forall>n a m. aead_encrypt null_aead [1] n a m \<noteq> None"
    using demo_handshake(6) by (simp_all add: demo_frames_def null_aead_def)
  from lost_frame_recovered [OF null_aead_ok frames(4) pre(1-4) refl pre(5-8) frames(1-3) pre(9)] obtain ds par s' where sent:
    "send_stream null_aead ?s demo_frames = Some (ds, s')"
    "\<forall>lost order arr env. lost < 4 \<longrightarrow> set order = {0..<4} - {lost} \<longrightarrow> map snd arr = map ((!) ds) order \<longrightarrow>
       (\<exists>r'. deliver null_aead ?s (arr @ [(env, par)]) = Some r' \<and>
          map (map_option fr_payload) (pop_n JitterBuffer_pop (s_jitter r') 4) = map (Some \<circ> snd) demo_frames)"
    by blast
  have order: "set [3, 0, 1] = {0..<4} - {2 :: nat}"
    by auto
  have "map snd (map (\<lambda>i. (demo_env 9, ds ! i)) [3, 0, 1]) = map ((!) ds) [3, 0, 1]"
    by simp
  with sent(2) order obtain r' where "deliver null_aead ?s (map (\<lambda>i. (demo_env 9, ds ! i)) [3, 0, 1] @ [(demo_env 9, par)]) = Some r'"
    "map (map_option fr_payload) (pop_n JitterBuffer_pop (s_jitter r') 4) = map (Some \<circ> snd) demo_frames"
    by (metis numeral_less_iff semiring_norm(76) semiring_norm(78))
  moreover have "map (Some \<circ> snd) demo_frames = map Some [[1, 2], [3, 4], [5, 6], [7, 8]]"
    by (simp add: demo_frames_def)
  ultimately show "\<exists>jb ds par s' r'.
     send_stream null_aead ((demo_session jb cc)\<lparr>audio_tx_seq := 8\<rparr>) demo_frames = Some (ds, s') \<and>
     deliver null_aead ((demo_session jb cc)\<lparr>audio_tx_seq := 8\<rparr>)
       (map (\<lambda>i. (demo_env 9, ds ! i)) [3, 0, 1] @ [(demo_env 9, par)]) = Some r' \<and>
     map (map_option fr_payload) (pop_n JitterBuffer_pop (s_jitter r') 4) = map Some [[1, 2], [3, 4], [5, 6], [7, 8]]"
    using sent(1) by metis
qed

end
