(* ===== verification/RustStr.thy ===== *)
theory RustStr
  imports Prelude
begin

text \<open>
  What the sources use of Rust's strings: a \<open>str\<close> is the list of its Unicode scalar values, \<open>from_utf8\<close> and
  \<open>as_bytes\<close> convert from and to bytes (the well-formed sequences of the Unicode standard, table 3-7), and
  \<open>trim\<close>, \<open>find\<close>, \<open>splitn\<close>, \<open>strip_prefix\<close>, the printing of an unsigned number and \<open>u16::from_str\<close> /
  \<open>u32::from_str\<close> work on them.
\<close>

type_synonym str = "nat list"

section \<open>UTF-8\<close>

definition is_scalar :: "nat \<Rightarrow> bool" where
  "is_scalar n \<longleftrightarrow> n < 0xD800 \<or> 0xE000 \<le> n \<and> n < 0x110000"

definition utf8_units :: "nat \<Rightarrow> nat list" where
  "utf8_units n =
     (if n < 0x80 then [n]
      else if n < 0x800 then [0xC0 + n div 64, 0x80 + n mod 64]
      else if n < 0x10000 then [0xE0 + n div 4096, 0x80 + n div 64 mod 64, 0x80 + n mod 64]
      else [0xF0 + n div 262144, 0x80 + n div 4096 mod 64, 0x80 + n div 64 mod 64, 0x80 + n mod 64])"

definition utf8_char :: "nat \<Rightarrow> bytes" where
  "utf8_char n = map of_nat (utf8_units n)"

definition as_bytes :: "str \<Rightarrow> bytes" where
  "as_bytes s = concat (map utf8_char s)"

definition in_range :: "nat \<Rightarrow> nat \<Rightarrow> nat \<Rightarrow> bool" where
  "in_range lo hi n \<longleftrightarrow> lo \<le> n \<and> n \<le> hi"

text \<open>The second byte's range depends on the first one: it excludes overlong forms, surrogates and values above
  \<open>0x10FFFF\<close>.\<close>

definition second_ok :: "nat \<Rightarrow> nat \<Rightarrow> bool" where
  "second_ok a b =
     (if a = 0xE0 then in_range 0xA0 0xBF b else if a = 0xED then in_range 0x80 0x9F b
      else if a = 0xF0 then in_range 0x90 0xBF b else if a = 0xF4 then in_range 0x80 0x8F b
      else in_range 0x80 0xBF b)"

text \<open>One well-formed sequence at the front: its value and its length.\<close>

definition next_char :: "nat list \<Rightarrow> (nat \<times> nat) option" where
  "next_char bs =
     (case bs of
        [] \<Rightarrow> None
      | a # _ \<Rightarrow>
          (if a < 0x80 then Some (a, 1)
           else if in_range 0xC2 0xDF a then
             (case bs of
                _ # b # _ \<Rightarrow> (if second_ok a b then Some ((a - 0xC0) * 64 + (b - 0x80), 2) else None)
              | _ \<Rightarrow> None)
           else if in_range 0xE0 0xEF a then
             (case bs of
                _ # b # c # _ \<Rightarrow>
                  (if second_ok a b \<and> in_range 0x80 0xBF c
                   then Some ((a - 0xE0) * 4096 + (b - 0x80) * 64 + (c - 0x80), 3) else None)
              | _ \<Rightarrow> None)
           else if in_range 0xF0 0xF4 a then
             (case bs of
                _ # b # c # d # _ \<Rightarrow>
                  (if second_ok a b \<and> in_range 0x80 0xBF c \<and> in_range 0x80 0xBF d
                   then Some ((a - 0xF0) * 262144 + (b - 0x80) * 4096 + (c - 0x80) * 64 + (d - 0x80), 4) else None)
              | _ \<Rightarrow> None)
           else None))"

text \<open>Every sequence is at least one byte long, so as many rounds as there are bytes are enough.\<close>

fun decode_chars :: "nat \<Rightarrow> nat list \<Rightarrow> str option" where
  "decode_chars fuel [] = Some []"
| "decode_chars 0 (_ # _) = None"
| "decode_chars (Suc fuel) bs =
     (case next_char bs of
        None \<Rightarrow> None
      | Some (n, k) \<Rightarrow> map_option (Cons n) (decode_chars fuel (drop k bs)))"

definition from_utf8 :: "bytes \<Rightarrow> str option" where
  "from_utf8 bs = decode_chars (length bs) (map unat bs)"

section \<open>Searching and trimming\<close>

definition ascii :: "string \<Rightarrow> str" where
  "ascii cs = map of_char cs"

definition is_whitespace :: "nat \<Rightarrow> bool" where
  "is_whitespace n \<longleftrightarrow> n \<in> {0x85, 0xA0, 0x1680, 0x2028, 0x2029, 0x202F, 0x205F, 0x3000, 0x20} \<or>
     in_range 9 13 n \<or> in_range 0x2000 0x200A n"

definition trim_start :: "str \<Rightarrow> str" where
  "trim_start s = dropWhile is_whitespace s"

definition trim_end :: "str \<Rightarrow> str" where
  "trim_end s = rev (dropWhile is_whitespace (rev s))"

definition trim :: "str \<Rightarrow> str" where
  "trim s = trim_end (trim_start s)"

text \<open>\<open>find\<close> with a string: what follows the first occurrence.\<close>

fun after_first :: "str \<Rightarrow> str \<Rightarrow> str option" where
  "after_first pat s =
     (if take (length pat) s = pat then Some (drop (length pat) s)
      else case s of [] \<Rightarrow> None | _ # s \<Rightarrow> after_first pat s)"

declare after_first.simps [simp del]

definition strip_prefix :: "'a list \<Rightarrow> 'a list \<Rightarrow> 'a list option" where
  "strip_prefix pat s = (if take (length pat) s = pat then Some (drop (length pat) s) else None)"

fun splitn :: "nat \<Rightarrow> nat \<Rightarrow> str \<Rightarrow> str list" where
  "splitn 0 sep s = []"
| "splitn (Suc 0) sep s = [s]"
| "splitn (Suc (Suc n)) sep s =
     (case dropWhile (\<lambda>c. c \<noteq> sep) s of
        [] \<Rightarrow> [s]
      | _ # rest \<Rightarrow> takeWhile (\<lambda>c. c \<noteq> sep) s # splitn (Suc n) sep rest)"

section \<open>Numbers\<close>

definition is_digit :: "nat \<Rightarrow> bool" where
  "is_digit c \<longleftrightarrow> in_range 48 57 c"

fun decimal :: "nat \<Rightarrow> str" where
  "decimal n = (if n < 10 then [48 + n] else decimal (n div 10) @ [48 + n mod 10])"

declare decimal.simps [simp del]

definition digits_value :: "str \<Rightarrow> nat" where
  "digits_value s = foldl (\<lambda>a d. a * 10 + (d - 48)) 0 s"

text \<open>\<open>from_str\<close> at width \<open>w\<close>: an optional plus sign, at least one digit, and no overflow.\<close>

definition parse_uint :: "nat \<Rightarrow> str \<Rightarrow> nat option" where
  "parse_uint w s =
     (let ds = (case s of c # d # ds \<Rightarrow> if c = 43 then d # ds else s | _ \<Rightarrow> s) in
      if ds = [] \<or> \<not> list_all is_digit ds then None
      else if digits_value ds < 2 ^ w then Some (digits_value ds) else None)"

section \<open>UTF-8 round trip\<close>

lemma unat_u8_small: "k < 256 \<Longrightarrow> unat (of_nat k :: u8) = k"
  by (simp add: unat_of_nat_small)

lemma unat_utf8_char:
  assumes "is_scalar n"
  shows "map unat (utf8_char n) = utf8_units n"
proof -
  have "n < 0x110000"
    using assms by (auto simp: is_scalar_def)
  then have "\<forall>k \<in> set (utf8_units n). k < 256"
    by (auto simp: utf8_units_def)
  then show ?thesis
    by (simp add: utf8_char_def unat_u8_small map_idI del: of_nat_add of_nat_numeral)
qed

lemma two_units: "(n div 64) * 64 + n mod 64 = n" for n :: nat
  by simp

lemma upper_units: "n div 4096 * 64 + n div 64 mod 64 = n div 64" for n :: nat
  using div_mult_mod_eq [of "n div 64" 64] by (simp add: div_mult2_eq [of n 64 64, simplified])

lemma top_units: "n div 262144 * 64 + n div 4096 mod 64 = n div 4096" for n :: nat
  using div_mult_mod_eq [of "n div 4096" 64] by (simp add: div_mult2_eq [of n 4096 64, simplified])

lemma three_units: "(n div 4096) * 4096 + n div 64 mod 64 * 64 + n mod 64 = n" for n :: nat
proof -
  have "(n div 4096 * 64 + n div 64 mod 64) * 64 + n mod 64 = n"
    unfolding upper_units by simp
  then show ?thesis
    by (simp add: algebra_simps)
qed

lemma four_units: "(n div 262144) * 262144 + n div 4096 mod 64 * 4096 + n div 64 mod 64 * 64 + n mod 64 = n" for n :: nat
proof -
  have "(n div 262144 * 64 + n div 4096 mod 64) * 4096 + n div 64 mod 64 * 64 + n mod 64 = n"
    unfolding top_units by (rule three_units)
  then show ?thesis
    by (simp add: algebra_simps)
qed

lemma next_char_utf8:
  assumes "is_scalar n"
  shows "next_char (utf8_units n @ bs) = Some (n, length (utf8_units n))"
proof -
  consider "n < 0x80" | "0x80 \<le> n" "n < 0x800" | "0x800 \<le> n" "n < 0x10000" | "0x10000 \<le> n"
    by linarith
  then show ?thesis
  proof cases
    case 1
    then show ?thesis
      by (simp add: next_char_def utf8_units_def)
  next
    case 2
    define q r where "q = n div 64" and "r = n mod 64"
    have "2 \<le> q" "q \<le> 31" "r \<le> 63" "q * 64 + r = n" "utf8_units n = [0xC0 + q, 0x80 + r]"
      using 2 by (auto simp: q_def r_def utf8_units_def)
    then show ?thesis
      by (simp add: next_char_def in_range_def second_ok_def)
  next
    case 3
    define a b c where "a = n div 4096" and "b = n div 64 mod 64" and "c = n mod 64"
    have "a < 16" "a = 0 \<Longrightarrow> 32 \<le> b" "a = 13 \<Longrightarrow> b < 32" "b \<le> 63" "c \<le> 63"
      using 3 assms upper_units [of n] by (auto simp: is_scalar_def a_def b_def c_def intro: less_Suc_eq_le [THEN iffD1])
    moreover have "a * 4096 + b * 64 + c = n" "utf8_units n = [0xE0 + a, 0x80 + b, 0x80 + c]"
      using 3 three_units [of n] by (simp_all add: a_def b_def c_def utf8_units_def)
    ultimately show ?thesis
      by (auto simp: next_char_def in_range_def second_ok_def)
  next
    case 4
    define a b c d where "a = n div 262144" and "b = n div 4096 mod 64" and "c = n div 64 mod 64" and "d = n mod 64"
    have "a \<le> 4" "a = 0 \<Longrightarrow> 16 \<le> b" "a = 4 \<Longrightarrow> b < 16" "b \<le> 63" "c \<le> 63" "d \<le> 63"
      using 4 assms top_units [of n]
      by (auto simp: is_scalar_def a_def b_def c_def d_def intro: less_Suc_eq_le [THEN iffD1])
    moreover have "a * 262144 + b * 4096 + c * 64 + d = n" "utf8_units n = [0xF0 + a, 0x80 + b, 0x80 + c, 0x80 + d]"
      using 4 four_units [of n] by (simp_all add: a_def b_def c_def d_def utf8_units_def)
    ultimately show ?thesis
      by (auto simp: next_char_def in_range_def second_ok_def)
  qed
qed

lemma length_utf8_char [simp]: "length (utf8_char n) = length (utf8_units n)"
  by (simp add: utf8_char_def)

lemma decode_step:
  "is_scalar n \<Longrightarrow> decode_chars (Suc fuel) (utf8_units n @ bs) = map_option (Cons n) (decode_chars fuel bs)"
  using next_char_utf8 [of n bs] by (cases "utf8_units n") (auto simp: utf8_units_def split: if_splits)

lemma decode_as_bytes:
  "list_all is_scalar s \<Longrightarrow> length (as_bytes s) \<le> fuel \<Longrightarrow> decode_chars fuel (map unat (as_bytes s)) = Some s"
proof (induction s arbitrary: fuel)
  case (Cons n s)
  have bytes: "as_bytes (n # s) = utf8_char n @ as_bytes s" and units: "map unat (utf8_char n) = utf8_units n"
    using Cons.prems(1) by (simp_all add: as_bytes_def unat_utf8_char)
  have "1 \<le> length (utf8_units n)"
    by (simp add: utf8_units_def)
  then obtain fuel' where fuel: "fuel = Suc fuel'" "length (as_bytes s) \<le> fuel'"
    using Cons.prems(2) unfolding bytes by (cases fuel) auto
  show ?case
    using Cons.IH [of fuel'] Cons.prems(1) fuel by (simp add: bytes units decode_step)
qed (simp add: as_bytes_def)

lemma from_utf8_as_bytes: "list_all is_scalar s \<Longrightarrow> from_utf8 (as_bytes s) = Some s"
  by (simp add: from_utf8_def decode_as_bytes)

lemma scalar_ascii [simp]: "list_all is_scalar (ascii cs)"
proof -
  have "is_scalar (of_char c)" for c
    by (simp add: is_scalar_def less_trans [OF nat_of_char_less_256])
  then show ?thesis
    by (simp add: ascii_def list_all_iff)
qed

section \<open>Numbers round trip\<close>

lemma digit_code: "k < 10 \<Longrightarrow> is_digit (48 + k)"
  by (simp add: is_digit_def in_range_def)

lemma decimal_digits: "list_all is_digit (decimal n)"
proof (induction n rule: decimal.induct)
  case (1 n)
  then show ?case
    by (subst decimal.simps) (simp add: digit_code)
qed

lemma decimal_nonempty [simp]: "decimal n \<noteq> []"
  by (subst decimal.simps) simp

lemma digits_value_decimal [simp]: "digits_value (decimal n) = n"
proof (induction n rule: decimal.induct)
  case (1 n)
  then show ?case
    by (subst decimal.simps) (auto simp: digits_value_def)
qed

lemma parse_digits:
  "list_all is_digit s \<Longrightarrow> s \<noteq> [] \<Longrightarrow> parse_uint w s = (if digits_value s < 2 ^ w then Some (digits_value s) else None)"
  by (cases s; cases "tl s") (auto simp: parse_uint_def Let_def is_digit_def in_range_def)

lemma parse_decimal: "parse_uint w (decimal n) = (if n < 2 ^ w then Some n else None)"
  by (simp add: parse_digits decimal_digits)

lemma digit_class:
  "is_digit c \<Longrightarrow> \<not> is_whitespace c" "is_digit c \<Longrightarrow> c \<noteq> 32" "is_digit c \<Longrightarrow> is_scalar c" "is_digit c \<Longrightarrow> c < 128"
  by (auto simp: is_digit_def is_whitespace_def in_range_def is_scalar_def)

lemma scalar_decimal: "list_all is_scalar (decimal n)"
  using decimal_digits [of n] digit_class(3) by (auto simp: list_all_iff)

section \<open>Trimming and splitting\<close>

lemma trim_start_keep: "\<not> is_whitespace c \<Longrightarrow> trim_start (c # s) = c # s"
  by (simp add: trim_start_def)

lemma trim_end_append:
  "trim_end (s @ t) = (if list_all is_whitespace t then trim_end s else s @ trim_end t)"
  by (auto simp: trim_end_def list_all_iff dropWhile_append dropWhile_eq_Nil_conv)

lemma trim_end_keep: "list_all (\<lambda>c. \<not> is_whitespace c) s \<Longrightarrow> trim_end s = s"
  by (cases s rule: rev_cases) (simp_all add: trim_end_def)

lemma trim_empty [simp]: "trim_start [] = []" "trim_end [] = []"
  by (simp_all add: trim_start_def trim_end_def)

lemma trim_end_snoc: "\<not> is_whitespace c \<Longrightarrow> trim_end (s @ [c]) = s @ [c]"
  by (simp add: trim_end_def)

lemma trim_end_idem: "trim_end (trim_end s) = trim_end s"
  using hd_dropWhile [of is_whitespace "rev s"]
  by (cases "dropWhile is_whitespace (rev s)") (simp_all add: trim_end_def)

lemma trim_end_Cons: "\<not> is_whitespace c \<Longrightarrow> \<exists>t. trim_end (c # s) = c # t"
  using trim_end_append [of "[c]" s] by (simp add: trim_end_snoc [of c "[]", simplified])

lemma trim_trim_end: "trim (trim_end s) = trim s"
proof -
  define w t where "w = takeWhile is_whitespace s" and "t = dropWhile is_whitespace s"
  have s: "s = w @ t" and w: "list_all is_whitespace w"
    by (auto simp: w_def t_def list_all_iff dest: set_takeWhileD)
  have start: "trim_start (w @ u) = trim_start u" for u
    using w by (simp add: trim_start_def list_all_iff)
  show ?thesis
  proof (cases t)
    case Nil
    then show ?thesis
      using w s trim_end_append [of "[]" w] start [of "[]"] by (simp add: trim_def)
  next
    case (Cons c t')
    then have c: "\<not> is_whitespace c"
      using hd_dropWhile [of is_whitespace s] by (auto simp: t_def)
    then obtain u where u: "trim_end t = c # u"
      using trim_end_Cons Cons by blast
    have "trim_end s = w @ trim_end t"
      using c Cons by (simp add: s trim_end_append)
    then show ?thesis
      using c u trim_end_idem [of t] by (simp add: s Cons trim_def start trim_start_keep)
  qed
qed

lemma trim_Nil_iff: "trim s = [] \<longleftrightarrow> list_all is_whitespace s"
proof -
  have "trim_start s = [] \<longleftrightarrow> list_all is_whitespace s"
    by (auto simp: trim_start_def list_all_iff dropWhile_eq_Nil_conv)
  moreover have "trim_end t = [] \<longleftrightarrow> t = [] " if "t = trim_start s" for t
  proof (cases t)
    case (Cons c t')
    then have "\<not> is_whitespace c"
      using that hd_dropWhile [of is_whitespace s] by (auto simp: trim_start_def)
    then show ?thesis
      using Cons by (auto simp: trim_end_def dropWhile_eq_Nil_conv)
  qed (simp add: trim_end_def)
  ultimately show ?thesis
    by (simp add: trim_def)
qed

lemma splitn_token:
  "list_all (\<lambda>c. c \<noteq> sep) tok \<Longrightarrow> splitn (Suc (Suc n)) sep (tok @ sep # rest) = tok # splitn (Suc n) sep rest"
  by (simp add: list_all_iff takeWhile_append dropWhile_append)

lemma splitn_last: "list_all (\<lambda>c. c \<noteq> sep) tok \<Longrightarrow> splitn (Suc (Suc n)) sep tok = [tok]"
proof -
  assume "list_all (\<lambda>c. c \<noteq> sep) tok"
  then have "dropWhile (\<lambda>c. c \<noteq> sep) tok = []"
    by (simp add: list_all_iff)
  then show ?thesis
    by (simp del: dropWhile_eq_Nil_conv)
qed

end
