(* ===== verification/Ffi.thy ===== *)
theory Ffi
  imports Handshake RustStr
begin

text \<open>
  \<open>gravital-talk-ffi/src/lib.rs\<close>: the C interface around a session.  A handle is the address of a boxed session; \<open>NULL\<close>
  is \<open>None\<close>.  The live boxes and the last error of the thread are the state, and a call returns its status, what it
  writes through its out-pointers and the new state.  The result \<open>None\<close> stands for a call that does not return: it
  dereferences a handle that is not live (undefined behaviour), or the session panics, which aborts the process.
  The runtime is current-threaded, so a call runs its session operation to the end.  Parsing an IP address (standard
  library; \<open>peer_of\<close> also adds the port), the socket and the STUN exchange are arguments.  The last error is kept as its prefix and the error.
\<close>

section \<open>Status codes and configuration\<close>

datatype GsStatus = GS_OK | GS_ERR_NULL_POINTER | GS_ERR_INVALID_ARGUMENT | GS_ERR_IO | GS_ERR_TIMEOUT
  | GS_ERR_HANDSHAKE | GS_ERR_PROTOCOL | GS_ERR_INVALID_STATE | GS_ERR_CLOSED | GS_ERR_BUFFER_TOO_SMALL | GS_ERR_INTERNAL

fun GsStatus_code :: "GsStatus \<Rightarrow> int" where
  "GsStatus_code GS_OK = 0"
| "GsStatus_code GS_ERR_NULL_POINTER = -1"
| "GsStatus_code GS_ERR_INVALID_ARGUMENT = -2"
| "GsStatus_code GS_ERR_IO = -3"
| "GsStatus_code GS_ERR_TIMEOUT = -4"
| "GsStatus_code GS_ERR_HANDSHAKE = -5"
| "GsStatus_code GS_ERR_PROTOCOL = -6"
| "GsStatus_code GS_ERR_INVALID_STATE = -7"
| "GsStatus_code GS_ERR_CLOSED = -8"
| "GsStatus_code GS_ERR_BUFFER_TOO_SMALL = -9"
| "GsStatus_code GS_ERR_INTERNAL = -99"

datatype GsSessionState = GS_STATE_IDLE | GS_STATE_HANDSHAKING | GS_STATE_ACTIVE | GS_STATE_PAUSED
  | GS_STATE_CLOSING | GS_STATE_CLOSED | GS_STATE_ERROR | GS_STATE_RECONNECTING

fun GsSessionState_code :: "GsSessionState \<Rightarrow> u8" where
  "GsSessionState_code GS_STATE_IDLE = 0"
| "GsSessionState_code GS_STATE_HANDSHAKING = 1"
| "GsSessionState_code GS_STATE_ACTIVE = 2"
| "GsSessionState_code GS_STATE_PAUSED = 3"
| "GsSessionState_code GS_STATE_CLOSING = 4"
| "GsSessionState_code GS_STATE_CLOSED = 5"
| "GsSessionState_code GS_STATE_ERROR = 6"
| "GsSessionState_code GS_STATE_RECONNECTING = 7"

fun GsSessionState_from :: "SessionState \<Rightarrow> GsSessionState" where
  "GsSessionState_from S_Idle = GS_STATE_IDLE"
| "GsSessionState_from S_Handshaking = GS_STATE_HANDSHAKING"
| "GsSessionState_from S_Active = GS_STATE_ACTIVE"
| "GsSessionState_from S_Paused = GS_STATE_PAUSED"
| "GsSessionState_from S_Closing = GS_STATE_CLOSING"
| "GsSessionState_from S_Closed = GS_STATE_CLOSED"
| "GsSessionState_from S_Error = GS_STATE_ERROR"
| "GsSessionState_from S_Reconnecting = GS_STATE_RECONNECTING"

record GsConfig =
  gs_sample_rate :: u32
  gs_channels :: u8
  gs_frame_duration_ms :: u8
  gs_max_bitrate :: u32
  gs_codec_preferred :: u8
  gs_capability_flags :: u32
  gs_jitter_buffer_ms :: u16
  gs_mtu :: u32

definition RustConfig_from :: "GsConfig \<Rightarrow> Config" where
  "RustConfig_from c =
     \<lparr>cfg_sample_rate = gs_sample_rate c, cfg_channels = gs_channels c,
      cfg_frame_duration_ms = gs_frame_duration_ms c, cfg_max_bitrate = gs_max_bitrate c,
      cfg_codec_preferred = gs_codec_preferred c, cfg_supported_codecs = [0x01, 0x02],
      cfg_capability_flags = gs_capability_flags c, cfg_jitter_buffer_ms = gs_jitter_buffer_ms c,
      cfg_mtu = unat (gs_mtu c)\<rparr>"

definition GS_ABI_VERSION :: u32 where
  "GS_ABI_VERSION = 1"

definition gs_protocol_version :: u32 where
  "gs_protocol_version = ucast PROTOCOL_VERSION"

text \<open>The result is what is written to \<open>out\<close>; \<open>out\<close> tells whether the pointer is not null.\<close>

definition gs_config_default :: "bool \<Rightarrow> GsStatus \<times> GsConfig option" where
  "gs_config_default out =
     (if \<not> out then (GS_ERR_NULL_POINTER, None)
      else
        let d = Config_default in
        (GS_OK, Some \<lparr>gs_sample_rate = cfg_sample_rate d, gs_channels = cfg_channels d,
           gs_frame_duration_ms = cfg_frame_duration_ms d, gs_max_bitrate = cfg_max_bitrate d,
           gs_codec_preferred = cfg_codec_preferred d, gs_capability_flags = cfg_capability_flags d,
           gs_jitter_buffer_ms = cfg_jitter_buffer_ms d, gs_mtu = of_nat (cfg_mtu d)\<rparr>))"

section \<open>Handles\<close>

datatype ffi_error = FfiText string | FfiTransport string TransportError

record 'a Ffi =
  live :: "nat \<rightharpoonup> 'a Session"
  next_handle :: nat
  last_error :: "ffi_error option"

definition set_last_error :: "ffi_error \<Rightarrow> 'a Ffi \<Rightarrow> 'a Ffi" where
  "set_last_error e f = f\<lparr>last_error := Some e\<rparr>"

definition put_session :: "nat \<Rightarrow> 'a Session \<Rightarrow> 'a Ffi \<Rightarrow> 'a Ffi" where
  "put_session h s f = f\<lparr>live := (live f)(h \<mapsto> s)\<rparr>"

text \<open>\<open>runtime\<close> and \<open>bound\<close> are the outcomes of building the runtime and of binding the socket at the address.\<close>

definition gs_session_create ::
  "(str \<Rightarrow> 'ip option) \<Rightarrow> 'ip \<Rightarrow> bool \<Rightarrow> ('ip \<times> u16 \<Rightarrow> TransportError option) \<Rightarrow> 'a Ffi \<Rightarrow>
   GsConfig option \<Rightarrow> bytes option \<Rightarrow> u16 \<Rightarrow> bool \<Rightarrow> (GsStatus \<times> nat option \<times> 'a Ffi) option" where
  "gs_session_create parse_ip unspecified runtime bind_error f config bind_addr bind_port out_handle =
     (case (config, bind_addr, out_handle) of
        (Some cfg_c, Some addr, True) \<Rightarrow>
          (case from_utf8 addr of
             None \<Rightarrow> Some (GS_ERR_INVALID_ARGUMENT, None, f)
           | Some addr_str \<Rightarrow>
               (case (case parse_ip addr_str of
                        Some ip \<Rightarrow> Some ip
                      | None \<Rightarrow> if addr_str = [] then Some unspecified else None) of
                  None \<Rightarrow> Some (GS_ERR_INVALID_ARGUMENT, None, f)
                | Some ip \<Rightarrow>
                    (if \<not> runtime
                     then Some (GS_ERR_INTERNAL, None, set_last_error (FfiText ''failed to build runtime'') f)
                     else case bind_error (ip, bind_port) of
                       Some e \<Rightarrow> Some (GS_ERR_IO, None, set_last_error (FfiTransport ''bind failed: '' e) f)
                     | None \<Rightarrow>
                         (case Session_new (RustConfig_from cfg_c) of
                            None \<Rightarrow> None
                          | Some s \<Rightarrow>
                              (let h = next_handle f
                               in Some (GS_OK, Some h, f\<lparr>live := (live f)(h \<mapsto> s), next_handle := h + 1\<rparr>))))))
      | _ \<Rightarrow> Some (GS_ERR_NULL_POINTER, None, f))"

definition gs_session_destroy :: "'a Ffi \<Rightarrow> nat option \<Rightarrow> 'a Ffi option" where
  "gs_session_destroy f handle =
     (case handle of
        None \<Rightarrow> Some f
      | Some h \<Rightarrow> (case live f h of None \<Rightarrow> None | Some _ \<Rightarrow> Some (f\<lparr>live := (live f)(h := None)\<rparr>)))"

text \<open>The common frame of the calls on a handle: check the pointers, run \<open>act\<close> on the session.\<close>

definition with_session ::
  "'a Ffi \<Rightarrow> nat option \<Rightarrow> bool \<Rightarrow> 'r \<Rightarrow> (nat \<Rightarrow> 'a Session \<Rightarrow> (GsStatus \<times> 'r \<times> 'a Ffi) option) \<Rightarrow>
   (GsStatus \<times> 'r \<times> 'a Ffi) option" where
  "with_session f handle ptrs_ok none act =
     (case handle of
        None \<Rightarrow> Some (GS_ERR_NULL_POINTER, none, f)
      | Some h \<Rightarrow>
          (if \<not> ptrs_ok then Some (GS_ERR_NULL_POINTER, none, f)
           else case live f h of None \<Rightarrow> None | Some s \<Rightarrow> act h s))"

text \<open>Turning the \<open>Result\<close> of a session operation into a status.\<close>

definition finish ::
  "string \<Rightarrow> GsStatus \<Rightarrow> 'a Ffi \<Rightarrow> nat \<Rightarrow> (TransportError + unit) \<times> 'a Session \<Rightarrow> GsStatus \<times> unit \<times> 'a Ffi" where
  "finish what st f h r =
     (case r of
        (Inr _, s) \<Rightarrow> (GS_OK, (), put_session h s f)
      | (Inl e, s) \<Rightarrow> (st, (), set_last_error (FfiTransport what e) (put_session h s f)))"

section \<open>Session calls\<close>

text \<open>A handshake that the events do not finish is a call that does not return.\<close>

definition handshake_common ::
  "kx \<Rightarrow> (str \<Rightarrow> u16 \<Rightarrow> 'a option) \<Rightarrow> 'a hs_events \<Rightarrow> 'a Ffi \<Rightarrow> nat option \<Rightarrow> bytes option \<Rightarrow> u16 \<Rightarrow>
   role_random \<Rightarrow> (GsStatus \<times> unit \<times> 'a Ffi) option" where
  "handshake_common K peer_of evs f handle peer_addr peer_port role =
     with_session f handle (peer_addr \<noteq> None) () (\<lambda>h s.
       case from_utf8 (the peer_addr) of
         None \<Rightarrow> Some (GS_ERR_INVALID_ARGUMENT, (), f)
       | Some addr_str \<Rightarrow>
           (case peer_of addr_str peer_port of
              None \<Rightarrow> Some (GS_ERR_INVALID_ARGUMENT, (), f)
            | Some peer \<Rightarrow>
                (case handshake K role s peer evs of
                   (Done r, s, _) \<Rightarrow> Some (finish ''handshake: '' GS_ERR_HANDSHAKE f h (r, s))
                 | _ \<Rightarrow> None)))"

definition gs_session_connect ::
  "kx \<Rightarrow> ClientRandom \<Rightarrow> (str \<Rightarrow> u16 \<Rightarrow> 'a option) \<Rightarrow> 'a hs_events \<Rightarrow> 'a Ffi \<Rightarrow> nat option \<Rightarrow>
   bytes option \<Rightarrow> u16 \<Rightarrow> (GsStatus \<times> unit \<times> 'a Ffi) option" where
  "gs_session_connect K rnd peer_of evs f handle peer_addr peer_port =
     handshake_common K peer_of evs f handle peer_addr peer_port (ClientSide rnd)"

definition gs_session_accept ::
  "kx \<Rightarrow> ServerRandom \<Rightarrow> (str \<Rightarrow> u16 \<Rightarrow> 'a option) \<Rightarrow> 'a hs_events \<Rightarrow> 'a Ffi \<Rightarrow> nat option \<Rightarrow>
   bytes option \<Rightarrow> u16 \<Rightarrow> (GsStatus \<times> unit \<times> 'a Ffi) option" where
  "gs_session_accept K rnd peer_of evs f handle peer_addr peer_port =
     handshake_common K peer_of evs f handle peer_addr peer_port (ServerSide rnd)"

definition gs_session_accept_any ::
  "kx \<Rightarrow> ServerRandom list \<Rightarrow> 'a hs_events \<Rightarrow> 'a Ffi \<Rightarrow> nat option \<Rightarrow> (GsStatus \<times> unit \<times> 'a Ffi) option" where
  "gs_session_accept_any K rnds evs f handle =
     with_session f handle True () (\<lambda>h s.
       case handshake_open K rnds s evs of
         (Done (Inr _), s, _) \<Rightarrow> Some (GS_OK, (), put_session h s f)
       | (Done (Inl (PeerClosedError _)), s, _) \<Rightarrow> Some (GS_ERR_CLOSED, (), put_session h s f)
       | (Done (Inl TransportClosed), s, _) \<Rightarrow> Some (GS_ERR_CLOSED, (), put_session h s f)
       | (Done (Inl e), s, _) \<Rightarrow>
           Some (GS_ERR_HANDSHAKE, (), set_last_error (FfiTransport ''accept_any: '' e) (put_session h s f))
       | _ \<Rightarrow> None)"

text \<open>\<open>data\<close> is \<open>None\<close> for a null pointer, which is refused unless the length is 0; then it is read as no bytes
  (\<open>slice::from_raw_parts\<close> does not promise that).\<close>

definition gs_session_send_audio ::
  "aead \<Rightarrow> 'a Env \<Rightarrow> 'a Ffi \<Rightarrow> nat option \<Rightarrow> bytes option \<Rightarrow> nat \<Rightarrow> (GsStatus \<times> unit \<times> 'a Ffi) option" where
  "gs_session_send_audio A env f handle data len =
     with_session f handle (data \<noteq> None \<or> len = 0) () (\<lambda>h s.
       let pl = (case data of Some d \<Rightarrow> take len d | None \<Rightarrow> [])
       in Some (finish ''send_audio: '' GS_ERR_IO f h (send_audio A env s pl)))"

text \<open>\<open>cap\<close> is the value at \<open>len_inout\<close>; the result has the bytes written to \<open>buf\<close> and the new value at
  \<open>len_inout\<close>.\<close>

definition gs_session_recv_audio ::
  "aead \<Rightarrow> bool \<Rightarrow> u64 \<Rightarrow> 'a Env list \<Rightarrow> 'a recv_event list \<Rightarrow> 'a Ffi \<Rightarrow> nat option \<Rightarrow> bool \<Rightarrow> nat option \<Rightarrow>
   (GsStatus \<times> (bytes \<times> nat) option \<times> 'a Ffi) option" where
  "gs_session_recv_audio A oc now envs evs f handle buf len_inout =
     with_session f handle (buf \<and> len_inout \<noteq> None) None (\<lambda>h s.
       let cap = the len_inout in
       case recv_audio A oc now s envs evs of
         None \<Rightarrow> None
       | Some (None, _) \<Rightarrow> None
       | Some (Some (Inl e), s) \<Rightarrow>
           Some (GS_ERR_IO, None, set_last_error (FfiTransport ''recv_audio: '' e) (put_session h s f))
       | Some (Some (Inr frame), s) \<Rightarrow>
           (let n = length (fr_payload frame) in
            if n > cap then Some (GS_ERR_BUFFER_TOO_SMALL, Some ([], n), put_session h s f)
            else Some (GS_OK, Some (fr_payload frame, n), put_session h s f)))"

definition gs_session_close :: "'a Env \<Rightarrow> 'a Ffi \<Rightarrow> nat option \<Rightarrow> (GsStatus \<times> unit \<times> 'a Ffi) option" where
  "gs_session_close env f handle =
     with_session f handle True () (\<lambda>h s. Some (GS_OK, (), put_session h (snd (close_session env s)) f))"

definition gs_session_state :: "'a Ffi \<Rightarrow> nat option \<Rightarrow> bool \<Rightarrow> (GsStatus \<times> GsSessionState option \<times> 'a Ffi) option" where
  "gs_session_state f handle out_state =
     with_session f handle out_state None (\<lambda>h s. Some (GS_OK, Some (GsSessionState_from (sm_state (s_state s))), f))"

definition gs_session_id :: "'a Ffi \<Rightarrow> nat option \<Rightarrow> bool \<Rightarrow> (GsStatus \<times> u32 option \<times> 'a Ffi) option" where
  "gs_session_id f handle out_id = with_session f handle out_id None (\<lambda>h s. Some (GS_OK, Some (s_session_id s), f))"

definition gs_session_local_ssrc :: "'a Ffi \<Rightarrow> nat option \<Rightarrow> bool \<Rightarrow> (GsStatus \<times> u32 option \<times> 'a Ffi) option" where
  "gs_session_local_ssrc f handle out_ssrc = with_session f handle out_ssrc None (\<lambda>h s. Some (GS_OK, Some (local_ssrc s), f))"

definition gs_session_ptt_press :: "'a Env \<Rightarrow> 'a Ffi \<Rightarrow> nat option \<Rightarrow> (GsStatus \<times> unit \<times> 'a Ffi) option" where
  "gs_session_ptt_press env f handle =
     with_session f handle True () (\<lambda>h s. Some (finish ''ptt_press: '' GS_ERR_IO f h (ptt_press env s)))"

definition gs_session_ptt_release :: "'a Env \<Rightarrow> 'a Ffi \<Rightarrow> nat option \<Rightarrow> (GsStatus \<times> unit \<times> 'a Ffi) option" where
  "gs_session_ptt_release env f handle =
     with_session f handle True () (\<lambda>h s. Some (finish ''ptt_release: '' GS_ERR_IO f h (ptt_release env s)))"

definition gs_session_is_peer_ptt_active :: "'a Ffi \<Rightarrow> nat option \<Rightarrow> int option" where
  "gs_session_is_peer_ptt_active f handle =
     (case handle of
        None \<Rightarrow> Some 0
      | Some h \<Rightarrow> (case live f h of None \<Rightarrow> None | Some s \<Rightarrow> Some (if peer_ptt_active s then 1 else 0)))"

definition gs_session_local_port ::
  "(TransportError + u16) \<Rightarrow> 'a Ffi \<Rightarrow> nat option \<Rightarrow> bool \<Rightarrow> (GsStatus \<times> u16 option \<times> 'a Ffi) option" where
  "gs_session_local_port local_addr f handle out_port =
     with_session f handle out_port None (\<lambda>h s.
       case local_addr of
         Inr port \<Rightarrow> Some (GS_OK, Some port, f)
       | Inl e \<Rightarrow> Some (GS_ERR_IO, None, set_last_error (FfiTransport ''local_addr: '' e) f))"

text \<open>\<open>found\<close> is the outcome of the STUN exchange, the address printed; the result is what is written to the buffer.\<close>

definition gs_discover_public_addr ::
  "bool \<Rightarrow> (TransportError + bytes) \<Rightarrow> 'a Ffi \<Rightarrow> bool \<Rightarrow> nat \<Rightarrow> GsStatus \<times> bytes option \<times> 'a Ffi" where
  "gs_discover_public_addr runtime found f out_buf buf_len =
     (if \<not> out_buf \<or> buf_len < 8 then (GS_ERR_NULL_POINTER, None, f)
      else if \<not> runtime then (GS_ERR_INTERNAL, None, set_last_error (FfiText ''runtime'') f)
      else case found of
        Inr s \<Rightarrow>
          (if length s + 1 > buf_len then (GS_ERR_BUFFER_TOO_SMALL, None, f)
           else (GS_OK, Some (s @ [0]), f))
      | Inl e \<Rightarrow> (GS_ERR_TIMEOUT, None, set_last_error (FfiTransport ''STUN: '' e) f))"

definition gs_error_last :: "'a Ffi \<Rightarrow> ffi_error option" where
  "gs_error_last f = last_error f"

definition gs_error_clear :: "'a Ffi \<Rightarrow> 'a Ffi" where
  "gs_error_clear f = f\<lparr>last_error := None\<rparr>"

section \<open>Calls on a handle\<close>

text \<open>One call on a handle: the state before, the handle, the status and the state after.\<close>

inductive ffi_call :: "'a Ffi \<Rightarrow> nat option \<Rightarrow> GsStatus \<Rightarrow> 'a Ffi \<Rightarrow> bool" where
  connect: "gs_session_connect K cr peer_of evs f h addr port = Some (st, r, f') \<Longrightarrow> ffi_call f h st f'"
| accept: "gs_session_accept K sr peer_of evs f h addr port = Some (st, r, f') \<Longrightarrow> ffi_call f h st f'"
| accept_any: "gs_session_accept_any K rnds evs f h = Some (st, r, f') \<Longrightarrow> ffi_call f h st f'"
| send: "gs_session_send_audio A env f h data len = Some (st, r, f') \<Longrightarrow> ffi_call f h st f'"
| recv: "gs_session_recv_audio A oc now envs rs f h buf len_inout = Some (st, w, f') \<Longrightarrow> ffi_call f h st f'"
| close: "gs_session_close env f h = Some (st, r, f') \<Longrightarrow> ffi_call f h st f'"
| state: "gs_session_state f h out = Some (st, w2, f') \<Longrightarrow> ffi_call f h st f'"
| session_id: "gs_session_id f h out = Some (st, w3, f') \<Longrightarrow> ffi_call f h st f'"
| local_ssrc: "gs_session_local_ssrc f h out = Some (st, w3, f') \<Longrightarrow> ffi_call f h st f'"
| press: "gs_session_ptt_press env f h = Some (st, r, f') \<Longrightarrow> ffi_call f h st f'"
| release: "gs_session_ptt_release env f h = Some (st, r, f') \<Longrightarrow> ffi_call f h st f'"
| local_port: "gs_session_local_port la f h out = Some (st, w4, f') \<Longrightarrow> ffi_call f h st f'"

text \<open>What a call on one handle may change: its own session and the last error.\<close>

definition only_handle :: "nat option \<Rightarrow> 'a Ffi \<Rightarrow> 'a Ffi \<Rightarrow> bool" where
  "only_handle handle f f' \<longleftrightarrow> next_handle f' = next_handle f \<and> dom (live f') = dom (live f) \<and>
     (\<forall>j. handle \<noteq> Some j \<longrightarrow> live f' j = live f j)"

lemma only_handle_simps [simp]:
  "only_handle h f f" "only_handle h f (set_last_error e f') = only_handle h f f'"
  by (simp_all add: only_handle_def set_last_error_def)

lemma only_handle_put: "live f h = Some s0 \<Longrightarrow> only_handle (Some h) f (put_session h s f)"
  by (auto simp: only_handle_def put_session_def)

lemma only_handle_finish: "finish what st0 f h r = (st, u, f') \<Longrightarrow> live f h = Some s0 \<Longrightarrow> only_handle (Some h) f f'"
  by (auto simp: finish_def only_handle_put split: prod.splits sum.splits)

lemma with_session_spec:
  assumes "with_session f handle ok none act = Some (st, r, f')"
    and "\<And>h s st r f'. live f h = Some s \<Longrightarrow> act h s = Some (st, r, f') \<Longrightarrow> only_handle (Some h) f f'"
  shows "only_handle handle f f' \<and> (handle = None \<longrightarrow> st = GS_ERR_NULL_POINTER \<and> f' = f)"
  using assms by (auto simp: with_session_def split: option.splits if_splits)

lemma handshake_common_spec:
  "handshake_common K peer_of evs f handle addr port role = Some (st, r, f') \<Longrightarrow>
   only_handle handle f f' \<and> (handle = None \<longrightarrow> st = GS_ERR_NULL_POINTER \<and> f' = f)"
  unfolding handshake_common_def
  by (erule with_session_spec)
     (auto split: option.splits prod.splits outcome.splits dest: only_handle_finish)

lemmas handle_call_defs = gs_session_send_audio_def gs_session_close_def gs_session_ptt_press_def gs_session_ptt_release_def
  gs_session_state_def gs_session_id_def gs_session_local_ssrc_def gs_session_local_port_def

lemma ffi_call_only_handle:
  assumes "ffi_call f handle st f'"
  shows "only_handle handle f f' \<and> (handle = None \<longrightarrow> st = GS_ERR_NULL_POINTER \<and> f' = f)"
  using assms
proof cases
  case connect
  then show ?thesis
    by (simp add: gs_session_connect_def handshake_common_spec)
next
  case accept
  then show ?thesis
    by (simp add: gs_session_accept_def handshake_common_spec)
next
  case accept_any
  then show ?thesis
    unfolding gs_session_accept_any_def
    by (rule with_session_spec) (auto split: prod.splits outcome.splits sum.splits TransportError.splits intro: only_handle_put)
next
  case recv
  then show ?thesis
    unfolding gs_session_recv_audio_def
    by (rule with_session_spec) (auto simp: Let_def split: option.splits prod.splits sum.splits if_splits intro: only_handle_put)
qed (unfold handle_call_defs Let_def,
     (erule with_session_spec; auto dest: only_handle_finish intro: only_handle_put split: sum.splits)+)

text \<open>Calls are confined to their handle.  A call with a null handle reports it and changes nothing.  A call on a handle
  that returns leaves every other session as it was, and neither creates nor frees a handle, whatever the network does
  meanwhile.\<close>

lemma ffi_calls_confined:
  assumes "ffi_call f handle st f'"
  shows "dom (live f') = dom (live f) \<and> (\<forall>j. handle \<noteq> Some j \<longrightarrow> live f' j = live f j) \<and>
    (handle = None \<longrightarrow> st = GS_ERR_NULL_POINTER \<and> f' = f)"
  using ffi_call_only_handle [OF assms] by (simp add: only_handle_def)

definition demo_ffi :: "JitterBuffer \<Rightarrow> nat Ffi" where
  "demo_ffi jb =
     \<lparr>live = [0 \<mapsto> demo_session jb \<lparr>current_bitrate = 64000, min_bitrate = 8000, max_bitrate = 64000\<rparr>], next_handle = 1,
      last_error = None\<rparr>"

lemma ffi_calls_confined_witness:
  "\<forall>jb. \<exists>st f'. gs_session_close (demo_env 1) (demo_ffi jb) (Some 0) = Some (st, (), f') \<and>
     dom (live f') = dom (live (demo_ffi jb)) \<and> live f' 5 = live (demo_ffi jb) 5"
proof
  fix jb
  obtain st f' where c: "gs_session_close (demo_env 1) (demo_ffi jb) (Some 0) = Some (st, (), f')"
    by (simp add: gs_session_close_def with_session_def demo_ffi_def)
  from ffi_calls_confined [OF ffi_call.close [OF c]] c
  show "\<exists>st f'. gs_session_close (demo_env 1) (demo_ffi jb) (Some 0) = Some (st, (), f') \<and>
     dom (live f') = dom (live (demo_ffi jb)) \<and> live f' 5 = live (demo_ffi jb) 5"
    by auto
qed

section \<open>Receiving into a buffer that is too small\<close>

text \<open>A buffer that is too small loses the frame.  When the frame that is next does not fit the caller's buffer, the call
  reports the needed length and writes nothing, but the frame is gone: calling again with a large buffer returns the frame
  after it.\<close>

lemma ffi_small_buffer_loses_frame:
  assumes "live f h = Some s" and "JitterBuffer_pop (s_jitter s) = (jb1, Some f1)"
    and "JitterBuffer_pop jb1 = (jb2, Some f2)"
    and "cap < length (fr_payload f1)" and "length (fr_payload f2) \<le> cap2"
  shows "\<exists>f' f''.
    gs_session_recv_audio A oc now (e1 # envs1) rs1 f (Some h) True (Some cap) =
      Some (GS_ERR_BUFFER_TOO_SMALL, Some ([], length (fr_payload f1)), f') \<and>
    gs_session_recv_audio A oc now2 (e2 # envs2) rs2 f' (Some h) True (Some cap2) =
      Some (GS_OK, Some (fr_payload f2, length (fr_payload f2)), f'') \<and>
    live f'' h = Some (s\<lparr>s_jitter := jb2\<rparr>)"
proof -
  let ?s1 = "s\<lparr>s_jitter := jb1\<rparr>"
  have 1: "recv_audio A oc now s (e1 # envs1) rs1 = Some (Some (Inr f1), ?s1)"
    by (rule recv_audio_ready [OF assms(2)])
  have 2: "recv_audio A oc now2 ?s1 (e2 # envs2) rs2 = Some (Some (Inr f2), ?s1\<lparr>s_jitter := jb2\<rparr>)"
    by (rule recv_audio_ready) (simp add: assms(3))
  show ?thesis
    using assms(1,4,5) 1 2
    by (simp add: gs_session_recv_audio_def with_session_def Let_def put_session_def)
qed

lemma ffi_small_buffer_loses_frame_witness:
  "\<exists>jb f' f''.
    gs_session_recv_audio null_aead True 0 [demo_env 1] [] (demo_ffi jb) (Some 0) True (Some 1) =
      Some (GS_ERR_BUFFER_TOO_SMALL, Some ([], 2), f') \<and>
    gs_session_recv_audio null_aead True 0 [demo_env 2] [] f' (Some 0) True (Some 100) = Some (GS_OK, Some ([3], 1), f'')"
proof -
  let ?f1 = "\<lparr>fr_sequence = 5, fr_timestamp = 0, fr_payload = [1, 2]\<rparr> :: Frame"
  let ?f2 = "\<lparr>fr_sequence = 6, fr_timestamp = 0, fr_payload = [3]\<rparr> :: Frame"
  obtain b where b: "JitterBuffer_new 16 = Some b"
    using new_power [of 4] by auto
  define jb where "jb = fst (push_all JitterBuffer_push b [?f1, ?f2])"
  have "\<forall>i < length [?f1, ?f2]. fr_sequence ([?f1, ?f2] ! i) = 5 + of_nat i"
    by (simp add: less_Suc_eq)
  then have "pop_n JitterBuffer_pop jb (length [?f1, ?f2]) = map Some [?f1, ?f2]"
    using reorder_new [OF b, of "[?f1, ?f2]" 5 "[?f2]"] by (simp add: jb_def)
  then obtain jb1 jb2 where pops: "JitterBuffer_pop jb = (jb1, Some ?f1)" "JitterBuffer_pop jb1 = (jb2, Some ?f2)"
    by (auto split: prod.splits)
  let ?s = "demo_session jb \<lparr>current_bitrate = 64000, min_bitrate = 8000, max_bitrate = 64000\<rparr>"
  have s: "live (demo_ffi jb) 0 = Some ?s" "JitterBuffer_pop (s_jitter ?s) = (jb1, Some ?f1)"
    using pops by (simp_all add: demo_ffi_def demo_session_def)
  have sizes: "1 < length (fr_payload ?f1)" "length (fr_payload ?f2) \<le> 100"
    and lens: "length (fr_payload ?f1) = 2" "length (fr_payload ?f2) = 1" "fr_payload ?f2 = [3]" "length [3 :: u8] = 1"
    by simp_all
  show ?thesis
    using ffi_small_buffer_loses_frame [OF s pops(2) sizes, where A = null_aead and oc = True and now = 0 and
        ?e1.0 = "demo_env 1" and ?envs1.0 = "[]" and ?rs1.0 = "[]" and ?now2.0 = 0 and ?e2.0 = "demo_env 2" and
        ?envs2.0 = "[]" and ?rs2.0 = "[]"]
    unfolding lens by blast
qed

section \<open>Configuration and states across the boundary\<close>

text \<open>Nothing is lost across the C boundary.  The default configuration given to C and passed back is the default
  configuration of the library, and a session state has the same numeric code in the C interface and in the core.\<close>

lemma ffi_defaults_agree:
  "map_option RustConfig_from (snd (gs_config_default True)) = Some Config_default \<and>
   GsSessionState_code (GsSessionState_from s) = SessionState_code s"
  by (cases s) (simp_all add: gs_config_default_def RustConfig_from_def Config_default_def size_consts)

text \<open>A bad configuration aborts the process.  With valid arguments and a working socket, creating a session whose maximal
  bitrate is below 8000 bit/s panics inside the library instead of returning an error status.\<close>

lemma ffi_create_aborts:
  fixes f :: "'a Ffi"
  assumes "from_utf8 addr = Some s" and "parse_ip s = Some ip" and "bind_error (ip, port) = None"
    and "gs_max_bitrate c < 8000"
  shows "gs_session_create parse_ip unspecified True bind_error f (Some c) (Some addr) port True = None"
proof -
  have "(Session_new (RustConfig_from c) :: 'a Session option) = None"
    using assms(4)
    by (simp add: Session_new_def RustConfig_from_def CongestionController_new_def CONGESTION_MIN_BITRATE_def
        u32_clamp_def Let_def not_le split: option.splits)
  then show ?thesis
    using assms(1-3) by (simp add: gs_session_create_def)
qed

lemma ffi_create_aborts_witness:
  "\<forall>jb. gs_session_create (\<lambda>s. Some s) [] True (\<lambda>_. None) (demo_ffi jb) (Some \<lparr>gs_sample_rate = 48000, gs_channels = 1,
     gs_frame_duration_ms = 20, gs_max_bitrate = 6000, gs_codec_preferred = 1, gs_capability_flags = 0,
     gs_jitter_buffer_ms = 40, gs_mtu = 1200\<rparr>) (Some (as_bytes (ascii ''::''))) 9000 True = None"
  by (intro allI ffi_create_aborts [OF from_utf8_as_bytes [OF scalar_ascii]]) simp_all

end
