(* ===== verification/Jni.thy ===== *)
theory Jni
  imports Ffi
begin

text \<open>
  \<open>gravital-talk-ffi/src/jni_bridge.rs\<close>: the calls of the Android app, each a wrapper of one call of the C interface.  A
  handle travels as a \<open>jlong\<close> that is the pointer, with 0 for the null pointer: here the same \<open>nat option\<close> as in \<open>Ffi\<close>.
  What the Java virtual machine answers is an argument: the contents of a string or byte array (\<open>None\<close> when it cannot be
  read), and whether an array or string could be allocated.  A call returns its Java result and the new state; \<open>None\<close> is a
  call that does not return, as in \<open>Ffi\<close>.  The version text and the array of floating-point metrics are not modelled.
\<close>

type_synonym jint = "32 word"

definition status_jint :: "GsStatus \<Rightarrow> jint" where
  "status_jint s = word_of_int (GsStatus_code s)"

text \<open>\<open>CString::new\<close> refuses a string that contains a zero.\<close>

definition c_string :: "str \<Rightarrow> bytes option" where
  "c_string s = (if 0 \<in> set s then None else Some (as_bytes s))"

section \<open>Creating and destroying\<close>

definition jni_config :: "jint \<Rightarrow> jint \<Rightarrow> GsConfig" where
  "jni_config rate chans =
     \<lparr>gs_sample_rate = rate, gs_channels = ucast chans, gs_frame_duration_ms = 20, gs_max_bitrate = 64000,
      gs_codec_preferred = 0x01, gs_capability_flags = 0, gs_jitter_buffer_ms = 60, gs_mtu = 1200\<rparr>"

definition nativeCreate ::
  "(str \<Rightarrow> 'ip option) \<Rightarrow> 'ip \<Rightarrow> bool \<Rightarrow> ('ip \<times> u16 \<Rightarrow> TransportError option) \<Rightarrow> 'a Ffi \<Rightarrow>
   jint \<Rightarrow> jint \<Rightarrow> jint \<Rightarrow> (nat option \<times> 'a Ffi) option" where
  "nativeCreate parse_ip unspecified runtime bind_error f rate chans bind_port =
     (let cfg = jni_config rate chans in
      case c_string (ascii ''0.0.0.0'') of
        None \<Rightarrow> Some (None, f)
      | Some bind \<Rightarrow>
          (case gs_session_create parse_ip unspecified runtime bind_error f (Some cfg) (Some bind) (ucast bind_port) True of
             None \<Rightarrow> None
           | Some (status, handle, f) \<Rightarrow> Some (if status = GS_OK then handle else None, f)))"

definition nativeDestroy :: "'a Ffi \<Rightarrow> nat option \<Rightarrow> 'a Ffi option" where
  "nativeDestroy f handle = (if handle \<noteq> None then gs_session_destroy f handle else Some f)"

section \<open>Calls on a handle\<close>

text \<open>The frame of the calls that return a status: a null handle is answered at once.\<close>

definition status_call :: "'a Ffi \<Rightarrow> nat option \<Rightarrow> (GsStatus \<times> 'w \<times> 'a Ffi) option \<Rightarrow> (jint \<times> 'a Ffi) option" where
  "status_call f handle r =
     (if handle = None then Some (status_jint GS_ERR_NULL_POINTER, f)
      else map_option (\<lambda>(st, _, f). (status_jint st, f)) r)"

definition host_call ::
  "'a Ffi \<Rightarrow> str option \<Rightarrow> (bytes option \<Rightarrow> (GsStatus \<times> unit \<times> 'a Ffi) option) \<Rightarrow> (GsStatus \<times> unit \<times> 'a Ffi) option" where
  "host_call f host call =
     (case host of
        None \<Rightarrow> Some (GS_ERR_INVALID_ARGUMENT, (), f)
      | Some host_str \<Rightarrow>
          (case c_string host_str of
             None \<Rightarrow> Some (GS_ERR_INVALID_ARGUMENT, (), f)
           | Some c_host \<Rightarrow> call (Some c_host)))"

definition nativeConnect ::
  "kx \<Rightarrow> ClientRandom \<Rightarrow> (str \<Rightarrow> u16 \<Rightarrow> 'a option) \<Rightarrow> 'a hs_events \<Rightarrow> 'a Ffi \<Rightarrow> nat option \<Rightarrow> str option \<Rightarrow> jint \<Rightarrow>
   (jint \<times> 'a Ffi) option" where
  "nativeConnect K rnd peer_of evs f handle host port =
     status_call f handle (host_call f host (\<lambda>c_host. gs_session_connect K rnd peer_of evs f handle c_host (ucast port)))"

definition nativeAccept ::
  "kx \<Rightarrow> ServerRandom \<Rightarrow> (str \<Rightarrow> u16 \<Rightarrow> 'a option) \<Rightarrow> 'a hs_events \<Rightarrow> 'a Ffi \<Rightarrow> nat option \<Rightarrow> str option \<Rightarrow> jint \<Rightarrow>
   (jint \<times> 'a Ffi) option" where
  "nativeAccept K rnd peer_of evs f handle peer_host peer_port =
     status_call f handle
       (host_call f peer_host (\<lambda>c_host. gs_session_accept K rnd peer_of evs f handle c_host (ucast peer_port)))"

definition nativeAcceptAny ::
  "kx \<Rightarrow> ServerRandom list \<Rightarrow> 'a hs_events \<Rightarrow> 'a Ffi \<Rightarrow> nat option \<Rightarrow> (jint \<times> 'a Ffi) option" where
  "nativeAcceptAny K rnds evs f handle = status_call f handle (gs_session_accept_any K rnds evs f handle)"

definition nativeSendAudio ::
  "aead \<Rightarrow> 'a Env \<Rightarrow> 'a Ffi \<Rightarrow> nat option \<Rightarrow> bytes option \<Rightarrow> (jint \<times> 'a Ffi) option" where
  "nativeSendAudio A env f handle pcm =
     status_call f handle
       (case pcm of
          None \<Rightarrow> Some (GS_ERR_INVALID_ARGUMENT, (), f)
        | Some bs \<Rightarrow> gs_session_send_audio A env f handle (Some bs) (length bs))"

definition nativeRecvAudio ::
  "aead \<Rightarrow> bool \<Rightarrow> u64 \<Rightarrow> 'a Env list \<Rightarrow> 'a recv_event list \<Rightarrow> bool \<Rightarrow> 'a Ffi \<Rightarrow> nat option \<Rightarrow> (bytes option \<times> 'a Ffi) option" where
  "nativeRecvAudio A oc now envs evs allocated f handle =
     (if handle = None then Some (None, f)
      else case gs_session_recv_audio A oc now envs evs f handle True (Some 4096) of
        None \<Rightarrow> None
      | Some (st, written, f) \<Rightarrow>
          Some (case (st, written) of
                  (GS_OK, Some (bs, len)) \<Rightarrow> if allocated then Some (take len (bs @ replicate (4096 - length bs) 0)) else None
                | _ \<Rightarrow> None, f))"

definition nativePttPress :: "'a Env \<Rightarrow> 'a Ffi \<Rightarrow> nat option \<Rightarrow> (jint \<times> 'a Ffi) option" where
  "nativePttPress env f handle = status_call f handle (gs_session_ptt_press env f handle)"

definition nativePttRelease :: "'a Env \<Rightarrow> 'a Ffi \<Rightarrow> nat option \<Rightarrow> (jint \<times> 'a Ffi) option" where
  "nativePttRelease env f handle = status_call f handle (gs_session_ptt_release env f handle)"

definition nativeIsPeerPttActive :: "'a Ffi \<Rightarrow> nat option \<Rightarrow> jint option" where
  "nativeIsPeerPttActive f handle =
     (if handle = None then Some 0 else map_option word_of_int (gs_session_is_peer_ptt_active f handle))"

definition nativeClose :: "'a Env \<Rightarrow> 'a Ffi \<Rightarrow> nat option \<Rightarrow> (jint \<times> 'a Ffi) option" where
  "nativeClose env f handle = status_call f handle (gs_session_close env f handle)"

text \<open>The calls that return a number and 0 for an error.\<close>

definition nativeGetSessionId :: "'a Ffi \<Rightarrow> nat option \<Rightarrow> (jint \<times> 'a Ffi) option" where
  "nativeGetSessionId f handle =
     (if handle = None then Some (0, f)
      else map_option (\<lambda>(st, w, f). (case (st, w) of (GS_OK, Some sid) \<Rightarrow> sid | _ \<Rightarrow> 0, f)) (gs_session_id f handle True))"

definition nativeGetLocalPort :: "(TransportError + u16) \<Rightarrow> 'a Ffi \<Rightarrow> nat option \<Rightarrow> (jint \<times> 'a Ffi) option" where
  "nativeGetLocalPort local_addr f handle =
     (if handle = None then Some (0, f)
      else map_option (\<lambda>(st, w, f). (case (st, w) of (GS_OK, Some port) \<Rightarrow> ucast port | _ \<Rightarrow> 0, f))
             (gs_session_local_port local_addr f handle True))"

definition nativeDiscoverPublicAddr ::
  "bool \<Rightarrow> (TransportError + bytes) \<Rightarrow> bool \<Rightarrow> 'a Ffi \<Rightarrow> str option \<times> 'a Ffi" where
  "nativeDiscoverPublicAddr runtime found allocated f =
     (case gs_discover_public_addr runtime found f True 64 of
        (GS_OK, Some written, f) \<Rightarrow>
          (case from_utf8 (takeWhile (\<lambda>b. b \<noteq> 0) written) of
             None \<Rightarrow> (None, f)
           | Some s \<Rightarrow> (if allocated then Some s else None, f))
      | (_, _, f) \<Rightarrow> (None, f))"


section \<open>One call and the life of a session\<close>

inductive jni_call :: "'a Ffi \<Rightarrow> nat option \<Rightarrow> 'a Ffi \<Rightarrow> bool" where
  connect: "nativeConnect K cr peer_of evs f h host port = Some (code, f') \<Longrightarrow> jni_call f h f'"
| accept: "nativeAccept K sr peer_of evs f h host port = Some (code, f') \<Longrightarrow> jni_call f h f'"
| accept_any: "nativeAcceptAny K rnds evs f h = Some (code, f') \<Longrightarrow> jni_call f h f'"
| send: "nativeSendAudio A env f h pcm = Some (code, f') \<Longrightarrow> jni_call f h f'"
| recv: "nativeRecvAudio A oc now envs rs allocated f h = Some (bs, f') \<Longrightarrow> jni_call f h f'"
| press: "nativePttPress env f h = Some (code, f') \<Longrightarrow> jni_call f h f'"
| release: "nativePttRelease env f h = Some (code, f') \<Longrightarrow> jni_call f h f'"
| close: "nativeClose env f h = Some (code, f') \<Longrightarrow> jni_call f h f'"
| session_id: "nativeGetSessionId f h = Some (code, f') \<Longrightarrow> jni_call f h f'"
| local_port: "nativeGetLocalPort la f h = Some (code, f') \<Longrightarrow> jni_call f h f'"

lemma status_call_confined:
  assumes "status_call f h r = Some (code, f')" and "\<And>st w g. r = Some (st, w, g) \<Longrightarrow> only_handle h f g"
  shows "only_handle h f f'"
  using assms by (auto simp: status_call_def split: if_splits)

lemma host_call_confined:
  assumes "host_call f host call = Some (st, w, f')" and "\<And>c. call (Some c) = Some (st, w, f') \<Longrightarrow> only_handle h f f'"
  shows "only_handle h f f'"
  using assms by (auto simp: host_call_def split: option.splits)

lemmas ffi_confined = ffi_call_only_handle [THEN conjunct1]

lemma jni_call_only_handle:
  assumes "jni_call f h f'"
  shows "only_handle h f f'"
  using assms
proof cases
  case connect
  then show ?thesis
    by (auto simp: nativeConnect_def elim!: status_call_confined host_call_confined intro: ffi_confined ffi_call.connect)
next
  case accept
  then show ?thesis
    by (auto simp: nativeAccept_def elim!: status_call_confined host_call_confined intro: ffi_confined ffi_call.accept)
next
  case accept_any
  then show ?thesis
    by (auto simp: nativeAcceptAny_def elim!: status_call_confined intro: ffi_confined ffi_call.accept_any)
next
  case send
  then show ?thesis
    by (auto simp: nativeSendAudio_def elim!: status_call_confined intro: ffi_confined ffi_call.send split: option.splits)
next
  case recv
  then show ?thesis
    by (auto simp: nativeRecvAudio_def intro: ffi_confined ffi_call.recv split: if_splits option.splits)
next
  case press
  then show ?thesis
    by (auto simp: nativePttPress_def elim!: status_call_confined intro: ffi_confined ffi_call.press)
next
  case release
  then show ?thesis
    by (auto simp: nativePttRelease_def elim!: status_call_confined intro: ffi_confined ffi_call.release)
next
  case close
  then show ?thesis
    by (auto simp: nativeClose_def elim!: status_call_confined intro: ffi_confined ffi_call.close)
next
  case session_id
  then show ?thesis
    by (auto simp: nativeGetSessionId_def intro: ffi_confined ffi_call.session_id split: if_splits)
next
  case local_port
  then show ?thesis
    by (auto simp: nativeGetLocalPort_def intro: ffi_confined ffi_call.local_port split: if_splits)
qed

lemma jni_calls_only_handle: "(\<lambda>f f'. jni_call f h f')\<^sup>*\<^sup>* f f' \<Longrightarrow> only_handle h f f'"
proof (induction rule: rtranclp_induct)
  case (step g g')
  then show ?case
    using jni_call_only_handle [OF step.hyps(2)] by (simp add: only_handle_def)
qed simp

lemma nativeCreate_cases:
  assumes "nativeCreate parse_ip unspecified runtime bind_error f rate chans port = Some (handle, f')"
  shows "handle = None \<and> live f' = live f \<or>
    (\<exists>s. Session_new (RustConfig_from (jni_config rate chans)) = Some s \<and> handle = Some (next_handle f) \<and>
       live f' = (live f)(next_handle f \<mapsto> s))"
  using assms
  by (auto simp: nativeCreate_def gs_session_create_def set_last_error_def Let_def split: option.splits if_splits)

text \<open>C34: the life of a session of the app.  Creating a session either returns 0 and leaves all sessions as they are, or
  returns a handle that was not in use, with a fresh session of the fixed configuration behind it.  Whatever calls the app
  makes on that handle, it stays valid, and destroying it then succeeds and leaves exactly the sessions there were before
  the creation.\<close>

theorem jni_session_lifecycle:
  fixes f :: "'a Ffi"
  assumes fresh: "\<forall>j \<ge> next_handle f. live f j = None"
    and create: "nativeCreate parse_ip unspecified runtime bind_error f rate chans port = Some (handle, f1)"
  shows "(handle = None \<longrightarrow> live f1 = live f) \<and>
    (\<forall>h f2. handle = Some h \<longrightarrow> (\<lambda>g g'. jni_call g (Some h) g')\<^sup>*\<^sup>* f1 f2 \<longrightarrow>
       live f h = None \<and> live f1 h = Session_new (RustConfig_from (jni_config rate chans)) \<and> h \<in> dom (live f2) \<and>
       (\<exists>f3. nativeDestroy f2 (Some h) = Some f3 \<and> live f3 = live f))"
  using nativeCreate_cases [OF create]
proof (elim disjE exE conjE)
  fix s :: "'a Session"
  assume s: "Session_new (RustConfig_from (jni_config rate chans)) = Some s" "handle = Some (next_handle f)"
    "live f1 = (live f)(next_handle f \<mapsto> s)"
  have "live f h = None \<and> live f1 h = Session_new (RustConfig_from (jni_config rate chans)) \<and> h \<in> dom (live f2) \<and>
       (\<exists>f3. nativeDestroy f2 (Some h) = Some f3 \<and> live f3 = live f)"
    if "handle = Some h" "(\<lambda>g g'. jni_call g (Some h) g')\<^sup>*\<^sup>* f1 f2" for h f2
  proof -
    have "only_handle (Some h) f1 f2"
      using that(2) by (rule jni_calls_only_handle)
    then have "h \<in> dom (live f2)" "\<And>j. j \<noteq> h \<Longrightarrow> live f2 j = live f j"
      using s that(1) by (auto simp: only_handle_def)
    then show ?thesis
      using fresh s that(1) by (auto simp: nativeDestroy_def gs_session_destroy_def fun_eq_iff)
  qed
  then show ?thesis
    using s(2) by blast
qed simp

theorem jni_session_lifecycle_witness:
  "\<forall>jb. \<exists>h f1 f2 f3. nativeCreate (\<lambda>s. Some s) [] True (\<lambda>_. None) (demo_ffi jb) 48000 1 0 = Some (Some h, f1) \<and>
     nativeClose (demo_env 1) f1 (Some h) = Some (0, f2) \<and> nativeDestroy f2 (Some h) = Some f3 \<and>
     live f3 = live (demo_ffi jb)"
proof
  fix jb
  let ?create = "nativeCreate (\<lambda>s. Some s) [] True (\<lambda>_. None) (demo_ffi jb) 48000 1 0"
  have "(Session_new (RustConfig_from (jni_config 48000 1)) :: nat Session option) \<noteq> None"
    using session_creation [of "RustConfig_from (jni_config 48000 1)", where 'a = nat]
    by (auto simp: RustConfig_from_def jni_config_def split: option.splits)
  moreover have "c_string (ascii ''0.0.0.0'') = Some (as_bytes (ascii ''0.0.0.0''))"
    by (simp add: c_string_def ascii_def)
  ultimately obtain f1 where create: "?create = Some (Some 1, f1)"
    by (auto simp: nativeCreate_def gs_session_create_def from_utf8_as_bytes demo_ffi_def)
  have fresh: "\<forall>j \<ge> next_handle (demo_ffi jb). live (demo_ffi jb) j = None"
    by (simp add: demo_ffi_def)
  note life = jni_session_lifecycle [OF fresh create, THEN conjunct2, rule_format, OF refl]
  have "live f1 1 \<noteq> None"
    using life [OF rtranclp.rtrancl_refl] by blast
  then obtain f2 where f2: "nativeClose (demo_env 1) f1 (Some 1) = Some (0, f2)"
    by (auto simp: nativeClose_def status_call_def gs_session_close_def with_session_def status_jint_def)
  have "(\<lambda>g g'. jni_call g (Some 1) g')\<^sup>*\<^sup>* f1 f2"
    using jni_call.close [OF f2] by blast
  with life f2 create show "\<exists>h f1 f2 f3. nativeCreate (\<lambda>s. Some s) [] True (\<lambda>_. None) (demo_ffi jb) 48000 1 0 = Some (Some h, f1) \<and>
     nativeClose (demo_env 1) f1 (Some h) = Some (0, f2) \<and> nativeDestroy f2 (Some h) = Some f3 \<and>
     live f3 = live (demo_ffi jb)"
    by blast
qed

section \<open>The frame of the app\<close>

lemma send_audio_too_long:
  assumes "aead_ok A" and "1172 < length pl"
  shows "\<exists>e s'. send_audio A env s pl = (Inl e, s') \<and> outbox s' = outbox s"
proof -
  have "1176 < length wire" if "seal_payload A k hdr (be32 n @ pl) = Inr wire" for k hdr n wire
    using that assms(2)
    by (auto simp: seal_payload_eq [OF assms(1)] dest: aead_encryptD [OF assms(1)] split: option.splits)
  then show ?thesis
    using assms(2) by (auto simp: send_audio_def send_packet_eq Let_def split: option.splits sum.splits)
qed

text \<open>The app cannot send.  The documented frame of \<open>nativeSendAudio\<close>, 20 ms of 16-bit mono PCM at 48 kHz, has 1920
  bytes, more than any packet carries: on every session and in every state the call returns the I/O error, and no datagram
  goes out.\<close>

lemma jni_frame_never_sent:
  assumes "aead_ok A" and "live f h = Some s" and "length pcm = 48000 * 20 div 1000 * 2"
  shows "\<exists>f' s'. nativeSendAudio A env f (Some h) (Some pcm) = Some (status_jint GS_ERR_IO, f') \<and>
    live f' h = Some s' \<and> outbox s' = outbox s"
proof -
  obtain e s' where "send_audio A env s pcm = (Inl e, s')" "outbox s' = outbox s"
    using send_audio_too_long [OF assms(1), of pcm env s] assms(3) by auto
  then show ?thesis
    using assms(2)
    by (simp add: nativeSendAudio_def status_call_def gs_session_send_audio_def with_session_def finish_def
        set_last_error_def put_session_def)
qed

lemma jni_frame_never_sent_witness:
  "\<forall>jb. \<exists>f'. nativeSendAudio null_aead (demo_env 1) (demo_ffi jb) (Some 0) (Some (replicate 1920 7)) =
     Some (status_jint GS_ERR_IO, f')"
proof
  fix jb
  have "live (demo_ffi jb) 0 \<noteq> None" "length (replicate 1920 (7 :: u8)) = 48000 * 20 div 1000 * 2"
    by (simp_all add: demo_ffi_def)
  then show "\<exists>f'. nativeSendAudio null_aead (demo_env 1) (demo_ffi jb) (Some 0) (Some (replicate 1920 7)) =
     Some (status_jint GS_ERR_IO, f')"
    using jni_frame_never_sent [OF null_aead_ok, of "demo_ffi jb" 0 _ "replicate 1920 7" "demo_env 1"] by blast
qed
end
