(* ===== verification/Rooms.thy ===== *)
theory Rooms
  imports Prelude
begin

unbundle bit_operations_syntax

text \<open>
  \<open>gravital-talk-relay/src/rooms.rs\<close>: room codes and session identifiers.  The system clock and the
  process-wide counter are arguments; strings are lists of ASCII bytes.
\<close>

definition LETTERS :: bytes where
  "LETTERS = [65, 66, 67, 68, 69, 70, 71, 72, 74, 75, 76, 77, 78, 80, 82, 83, 84, 85, 86, 87, 88, 89, 90]"

definition DIGITS :: bytes where
  "DIGITS = [50, 51, 52, 53, 54, 55, 56, 57]"

definition code_seed :: "u64 \<Rightarrow> u64 \<Rightarrow> u64" where
  "code_seed t c = t + c * 6364136223846793005"

definition rng_next :: "u64 \<Rightarrow> u64" where
  "rng_next rng = rng * 6364136223846793005 + 1442695040888963407"

definition rng_byte :: "u64 \<Rightarrow> u8" where
  "rng_byte rng = ucast (drop_bit 33 rng)"

definition pick :: "bytes \<Rightarrow> u64 \<Rightarrow> u8" where
  "pick alphabet rng = alphabet ! unat (rng_byte rng mod of_nat (length alphabet))"

text \<open>\<open>t\<close> is the clock in nanoseconds (0 when it is before the epoch), \<open>c\<close> the counter's value.\<close>

definition generate_code :: "u64 \<Rightarrow> u64 \<Rightarrow> bytes" where
  "generate_code t c =
     (let r1 = rng_next (code_seed t c); r2 = rng_next r1; r3 = rng_next r2; r4 = rng_next r3;
          r5 = rng_next r4; r6 = rng_next r5; r7 = rng_next r6; r8 = rng_next r7
      in [pick LETTERS r1, pick LETTERS r2, pick LETTERS r3, pick LETTERS r4, 45,
          pick DIGITS r5, pick DIGITS r6, pick DIGITS r7, pick DIGITS r8])"

definition is_valid_code :: "bytes \<Rightarrow> bool" where
  "is_valid_code bs =
     (if length bs \<noteq> 9 \<or> bs ! 4 \<noteq> 45 then False
      else list_all (\<lambda>b. b \<in> set LETTERS) (take 4 bs) \<and>
           list_all (\<lambda>b. b \<in> set DIGITS) (drop 5 bs))"

definition generate_session_id :: "u64 \<Rightarrow> u64 \<Rightarrow> u32" where
  "generate_session_id t c =
     (let h = t + c * 2654435761;
          sid = ucast (h XOR drop_bit 32 h)
      in if sid = 0 then 0xDEADBEEF else sid)"

lemma pick_in:
  assumes "0 < length alphabet" and "length alphabet < 256"
  shows "pick alphabet rng \<in> set alphabet"
proof -
  have "unat (of_nat (length alphabet) :: u8) = length alphabet"
    using assms(2) by (simp add: unat_of_nat_small)
  then have "unat (rng_byte rng mod of_nat (length alphabet)) < length alphabet"
    using assms(1) by (simp add: unat_mod_distrib)
  then show ?thesis
    by (simp add: pick_def)
qed

lemma pick_letter: "pick LETTERS rng \<in> set LETTERS"
  by (rule pick_in) (simp_all add: LETTERS_def)

lemma pick_digit: "pick DIGITS rng \<in> set DIGITS"
  by (rule pick_in) (simp_all add: DIGITS_def)

text \<open>Generated room codes are valid and generated session identifiers are usable: for every clock and counter
  value the code passes the validator, and the identifier is not 0, the value the router refuses.\<close>

lemma generated_rooms_valid:
  "is_valid_code (generate_code t c) \<and> generate_session_id t c \<noteq> 0"
proof -
  have "is_valid_code (generate_code t c)"
    using pick_letter pick_digit by (simp add: is_valid_code_def generate_code_def Let_def)
  then show ?thesis
    by (simp add: generate_session_id_def Let_def)
qed

end
