(* ===== verification/Router.thy ===== *)
theory Router
  imports Rooms "HOL-Library.AList"
begin

text \<open>
  \<open>gravital-talk-relay/src/router.rs\<close>: the routing table of the relay and its floor arbitration.
  The concurrent map of sessions is an association list with distinct keys; each operation of the
  code holds the entry's lock throughout, so it is one atomic step here.  The clock is an argument
  (nanoseconds), addresses are an arbitrary type \<open>'a\<close>, and a web-socket channel is its
  identity.  Every reachable router satisfies \<open>router_inv\<close>.
\<close>

section \<open>Data\<close>

definition FLOOR_MAX_HOLD_NANOS :: nat where
  "FLOOR_MAX_HOLD_NANOS = 30 * 10 ^ 9"

datatype 'a SessionEndpoint = Udp 'a | WebSocket nat

fun endpoint_matches :: "'a SessionEndpoint \<Rightarrow> 'a SessionEndpoint \<Rightarrow> bool" where
  "endpoint_matches (Udp a) (Udp b) \<longleftrightarrow> a = b"
| "endpoint_matches (WebSocket a) (WebSocket b) \<longleftrightarrow> a = b"
| "endpoint_matches _ _ \<longleftrightarrow> False"

record 'a RouteEntry =
  peers :: "'a SessionEndpoint list"
  last_activity :: nat
  floor_holder :: "'a option"
  floor_granted_at :: "nat option"

definition RouteEntry_new :: "nat \<Rightarrow> 'a RouteEntry" where
  "RouteEntry_new now = \<lparr>peers = [], last_activity = now, floor_holder = None, floor_granted_at = None\<rparr>"

definition floor_is_free :: "nat \<Rightarrow> 'a RouteEntry \<Rightarrow> bool" where
  "floor_is_free now e =
     (case (floor_holder e, floor_granted_at e) of
        (None, _) \<Rightarrow> True
      | (Some _, Some granted) \<Rightarrow> now - granted > FLOOR_MAX_HOLD_NANOS
      | (Some _, None) \<Rightarrow> False)"

text \<open>The counters of \<open>relay/src/metrics.rs\<close>; \<open>dropped\<close> is labelled by the reason.\<close>

record RelayMetrics =
  packets_in :: nat
  packets_out :: nat
  bytes_in :: nat
  bytes_out :: nat
  active_sessions :: nat
  dropped :: "string \<Rightarrow> nat"
  ws_connections :: int

definition RelayMetrics_new :: RelayMetrics where
  "RelayMetrics_new = \<lparr>packets_in = 0, packets_out = 0, bytes_in = 0, bytes_out = 0,
     active_sessions = 0, dropped = (\<lambda>_. 0), ws_connections = 0\<rparr>"

definition inc_dropped :: "string \<Rightarrow> RelayMetrics \<Rightarrow> RelayMetrics" where
  "inc_dropped reason m = m\<lparr>dropped := (dropped m)(reason := dropped m reason + 1)\<rparr>"

record 'a Router =
  routes :: "(u32 \<times> 'a RouteEntry) list"
  rooms :: "(bytes \<times> u32) list"
  max_sessions :: nat
  max_peers_per_session :: nat
  metrics :: RelayMetrics

definition Router_new :: "nat \<Rightarrow> nat \<Rightarrow> RelayMetrics \<Rightarrow> 'a Router" where
  "Router_new ms mp m = \<lparr>routes = [], rooms = [], max_sessions = ms, max_peers_per_session = mp, metrics = m\<rparr>"

datatype 'a RouteDecision = Broadcast "'a SessionEndpoint list" | Registered | Dropped

datatype 'a FloorDecision =
    Granted "'a SessionEndpoint list"
  | Denied
  | Released "'a SessionEndpoint list"
  | Unknown

section \<open>Routing\<close>

definition drop_packet :: "string \<Rightarrow> 'a Router \<Rightarrow> 'a Router" where
  "drop_packet reason r = r\<lparr>metrics := inc_dropped reason (metrics r)\<rparr>"

definition set_entry :: "u32 \<Rightarrow> 'a RouteEntry \<Rightarrow> 'a Router \<Rightarrow> 'a Router" where
  "set_entry sid e r = r\<lparr>routes := AList.update sid e (routes r)\<rparr>"

definition others_of :: "'a SessionEndpoint \<Rightarrow> 'a SessionEndpoint list \<Rightarrow> 'a SessionEndpoint list" where
  "others_of from ps = filter (\<lambda>p. \<not> endpoint_matches p from) ps"

definition Router_route ::
  "nat \<Rightarrow> 'a Router \<Rightarrow> u32 \<Rightarrow> 'a SessionEndpoint \<Rightarrow> 'a Router \<times> 'a RouteDecision" where
  "Router_route now r sid from =
     (if sid = 0 then (drop_packet ''zero_session'' r, Dropped)
      else case map_of (routes r) sid of
        Some entry \<Rightarrow>
          (let entry = entry\<lparr>last_activity := now\<rparr>;
               r = set_entry sid entry r;
               known = list_ex (\<lambda>p. endpoint_matches p from) (peers entry)
           in if known then
                (let targets = others_of from (peers entry)
                 in (r, if targets = [] then Registered else Broadcast targets))
              else if length (peers entry) \<ge> max_peers_per_session r
                then (drop_packet ''session_full'' r, Dropped)
              else let existing = peers entry;
                       r = set_entry sid (entry\<lparr>peers := peers entry @ [from]\<rparr>) r
                   in (r, if existing = [] then Registered else Broadcast existing))
      | None \<Rightarrow>
          (if length (routes r) \<ge> max_sessions r then (drop_packet ''max_sessions'' r, Dropped)
           else let entry = (RouteEntry_new now)\<lparr>peers := [from]\<rparr>;
                    r = set_entry sid entry r;
                    r = r\<lparr>metrics := (metrics r)\<lparr>active_sessions := length (routes r)\<rparr>\<rparr>
                in (r, Registered)))"

text \<open>\<open>closed\<close> is the set of channels whose receiver is gone.\<close>

definition keep_peer :: "nat set \<Rightarrow> 'a SessionEndpoint \<Rightarrow> bool" where
  "keep_peer closed p = (case p of WebSocket ch \<Rightarrow> ch \<notin> closed | Udp _ \<Rightarrow> True)"

definition evict_idle :: "nat set \<Rightarrow> nat \<Rightarrow> 'a Router \<Rightarrow> nat \<Rightarrow> 'a Router \<times> nat" where
  "evict_idle closed now r max_age_secs =
     (let max_age = max_age_secs * 10 ^ 9;
          cleaned = map (\<lambda>(sid, e). (sid, e\<lparr>peers := filter (keep_peer closed) (peers e)\<rparr>)) (routes r);
          kept = filter (\<lambda>(sid, e). peers e \<noteq> [] \<and> now - last_activity e < max_age) cleaned;
          removed = length cleaned - length kept;
          r = r\<lparr>routes := kept\<rparr>;
          r = (if removed > 0
               then r\<lparr>metrics := (metrics r)\<lparr>active_sessions := length (routes r)\<rparr>\<rparr> else r)
      in (r, removed))"

definition peer_count :: "'a Router \<Rightarrow> u32 \<Rightarrow> nat" where
  "peer_count r sid = (case map_of (routes r) sid of Some e \<Rightarrow> length (peers e) | None \<Rightarrow> 0)"

section \<open>Floor arbitration\<close>

definition floor_request ::
  "nat \<Rightarrow> 'a Router \<Rightarrow> u32 \<Rightarrow> 'a \<Rightarrow> 'a Router \<times> 'a FloorDecision" where
  "floor_request now r sid from =
     (case map_of (routes r) sid of
        None \<Rightarrow> (r, Unknown)
      | Some entry \<Rightarrow>
          (if \<not> list_ex (\<lambda>p. endpoint_matches p (Udp from)) (peers entry) then (r, Unknown)
           else let entry =
                      (if \<not> floor_is_free now entry
                       then (case (floor_holder entry, floor_granted_at entry) of
                               (Some holder, Some granted) \<Rightarrow>
                                 (if now - granted > FLOOR_MAX_HOLD_NANOS
                                  then entry\<lparr>floor_holder := None, floor_granted_at := None\<rparr>
                                  else entry)
                             | _ \<Rightarrow> entry)
                       else entry)
                in if \<not> floor_is_free now entry then (set_entry sid entry r, Denied)
                   else let entry = entry\<lparr>floor_holder := Some from, floor_granted_at := Some now\<rparr>
                        in (set_entry sid entry r, Granted (others_of (Udp from) (peers entry)))))"

definition floor_release ::
  "nat \<Rightarrow> 'a Router \<Rightarrow> u32 \<Rightarrow> 'a \<Rightarrow> 'a Router \<times> 'a FloorDecision" where
  "floor_release now r sid from =
     (case map_of (routes r) sid of
        None \<Rightarrow> (r, Unknown)
      | Some entry \<Rightarrow>
          (let is_holder = (floor_holder entry = Some from \<or> floor_is_free now entry) in
           if \<not> is_holder then (r, Denied)
           else let entry = entry\<lparr>floor_holder := None, floor_granted_at := None\<rparr>
                in (set_entry sid entry r, Released (others_of (Udp from) (peers entry)))))"

definition router_floor_holder :: "'a Router \<Rightarrow> u32 \<Rightarrow> 'a option" where
  "router_floor_holder r sid = (case map_of (routes r) sid of None \<Rightarrow> None | Some e \<Rightarrow> floor_holder e)"

section \<open>Rooms\<close>

definition register_room :: "'a Router \<Rightarrow> bytes \<Rightarrow> u32 \<Rightarrow> 'a Router \<times> bool" where
  "register_room r code sid =
     (if map_of (rooms r) code \<noteq> None then (r, False)
      else (r\<lparr>rooms := AList.update code sid (rooms r)\<rparr>, True))"

definition resolve_room :: "'a Router \<Rightarrow> bytes \<Rightarrow> u32 option" where
  "resolve_room r code = map_of (rooms r) code"

definition remove_room :: "'a Router \<Rightarrow> bytes \<Rightarrow> 'a Router \<times> bool" where
  "remove_room r code =
     (r\<lparr>rooms := AList.delete code (rooms r)\<rparr>, map_of (rooms r) code \<noteq> None)"

definition list_rooms :: "'a Router \<Rightarrow> (bytes \<times> u32 \<times> nat) list" where
  "list_rooms r = map (\<lambda>(code, sid). (code, sid, peer_count r sid)) (rooms r)"

section \<open>The invariant of the routing table\<close>

lemma endpoint_matches_iff [simp]: "endpoint_matches p q \<longleftrightarrow> p = q"
  by (cases p; cases q) simp_all

lemma length_update_alist:
  "length (AList.update k v xs) = (if k \<in> fst ` set xs then length xs else Suc (length xs))"
  by (induction xs) auto

definition entry_inv :: "nat \<Rightarrow> 'a RouteEntry \<Rightarrow> bool" where
  "entry_inv mp e \<longleftrightarrow> distinct (peers e) \<and> peers e \<noteq> [] \<and> length (peers e) \<le> max 1 mp \<and>
     (case floor_holder e of None \<Rightarrow> True | Some h \<Rightarrow> Udp h \<in> set (peers e) \<and> floor_granted_at e \<noteq> None)"

definition router_inv :: "'a Router \<Rightarrow> bool" where
  "router_inv r \<longleftrightarrow> distinct (map fst (routes r)) \<and> map_of (routes r) 0 = None \<and>
     length (routes r) \<le> max_sessions r \<and> active_sessions (metrics r) = length (routes r) \<and>
     (\<forall>sid e. map_of (routes r) sid = Some e \<longrightarrow> entry_inv (max_peers_per_session r) e)"

lemma set_entry_fields [simp]:
  "max_sessions (set_entry sid e r) = max_sessions r" "metrics (set_entry sid e r) = metrics r"
  "max_peers_per_session (set_entry sid e r) = max_peers_per_session r" "rooms (set_entry sid e r) = rooms r"
  "map_of (routes (set_entry sid e r)) = (map_of (routes r))(sid \<mapsto> e)"
  by (simp_all add: set_entry_def update_conv')

lemma set_entry_inv:
  assumes "router_inv r" and "map_of (routes r) sid = Some e0" and "entry_inv (max_peers_per_session r) e"
  shows "router_inv (set_entry sid e r)"
proof -
  have "length (routes (set_entry sid e r)) = length (routes r)"
    using assms(2) by (simp add: set_entry_def length_update_alist image_iff) (metis map_of_SomeD fst_conv)
  moreover have "sid \<noteq> 0"
    using assms by (auto simp: router_inv_def)
  ultimately show ?thesis
    using assms unfolding router_inv_def by (auto simp: set_entry_def distinct_update update_conv')
qed

lemma drop_packet_inv [simp]: "router_inv (drop_packet reason r) = router_inv r"
  by (simp add: router_inv_def drop_packet_def inc_dropped_def)

lemma route_inv:
  assumes inv: "router_inv r"
  shows "router_inv (fst (Router_route now r sid from))"
proof (cases "map_of (routes r) sid")
  case None
  let ?e = "(RouteEntry_new now)\<lparr>peers := [from]\<rparr>"
  have "sid \<notin> fst ` set (routes r)"
    using None by (simp add: map_of_eq_None_iff)
  then have "length (routes (set_entry sid ?e r)) = Suc (length (routes r))"
    by (simp add: set_entry_def length_update_alist)
  moreover have "entry_inv (max_peers_per_session r) ?e"
    by (simp add: entry_inv_def RouteEntry_new_def)
  ultimately show ?thesis
    using inv None
    by (auto simp: Router_route_def Let_def router_inv_def set_entry_def distinct_update update_conv'
        drop_packet_def inc_dropped_def simp del: map_of_eq_Some_iff split: if_splits)
next
  case (Some e)
  let ?e = "e\<lparr>last_activity := now\<rparr>"
  have e: "entry_inv (max_peers_per_session r) e"
    using inv Some by (auto simp: router_inv_def)
  then have "router_inv (set_entry sid ?e r)"
    using inv Some by (intro set_entry_inv) (auto simp: entry_inv_def split: option.splits)
  moreover have "router_inv (set_entry sid (?e\<lparr>peers := peers e @ [from]\<rparr>) (set_entry sid ?e r))"
    if "from \<notin> set (peers e)" "length (peers e) < max_peers_per_session r"
    using e that by (intro set_entry_inv [OF calculation]) (auto simp: entry_inv_def split: option.splits)
  ultimately show ?thesis
    using inv Some by (auto simp: Router_route_def Let_def list_ex_iff)
qed

lemma floor_request_inv:
  assumes inv: "router_inv r"
  shows "router_inv (fst (floor_request now r sid from))"
proof (cases "map_of (routes r) sid")
  case (Some e)
  have e: "entry_inv (max_peers_per_session r) e"
    using inv Some by (auto simp: router_inv_def)
  then have "router_inv (set_entry sid e r)"
    "router_inv (set_entry sid (e\<lparr>floor_holder := None, floor_granted_at := None\<rparr>) r)"
    using inv Some by (auto intro!: set_entry_inv simp: entry_inv_def)
  moreover have "router_inv (set_entry sid (e\<lparr>floor_holder := Some from, floor_granted_at := Some now\<rparr>) r)"
    if "Udp from \<in> set (peers e)"
    using that e inv Some by (intro set_entry_inv) (auto simp: entry_inv_def)
  ultimately show ?thesis
    using inv Some
    by (auto simp: floor_request_def Let_def list_ex_iff floor_is_free_def split: option.splits if_splits)
qed (simp add: floor_request_def inv)

lemma floor_release_inv:
  assumes inv: "router_inv r"
  shows "router_inv (fst (floor_release now r sid from))"
proof (cases "map_of (routes r) sid")
  case (Some e)
  then have "entry_inv (max_peers_per_session r) (e\<lparr>floor_holder := None, floor_granted_at := None\<rparr>)"
    using inv by (auto simp: router_inv_def entry_inv_def)
  then show ?thesis
    using inv Some by (auto simp: floor_release_def Let_def intro: set_entry_inv)
qed (simp add: floor_release_def inv)

lemma clean_entry_inv:
  assumes "entry_inv mp e" and "filter (keep_peer closed) (peers e) \<noteq> []"
  shows "entry_inv mp (e\<lparr>peers := filter (keep_peer closed) (peers e)\<rparr>)"
  using assms order.trans [OF length_filter_le [of "keep_peer closed" "peers e"]]
  by (auto simp: entry_inv_def keep_peer_def split: option.splits)

lemma evict_inv:
  assumes inv: "router_inv r"
  shows "router_inv (fst (evict_idle closed now r age))"
proof -
  define c where "c = map (\<lambda>(sid, e). (sid, e\<lparr>peers := filter (keep_peer closed) (peers e)\<rparr>)) (routes r)"
  define k where "k = filter (\<lambda>(sid, e). peers e \<noteq> [] \<and> now - last_activity e < age * 10 ^ 9) c"
  let ?r = "fst (evict_idle closed now r age)"
  have r: "routes ?r = k" "max_sessions ?r = max_sessions r"
    "max_peers_per_session ?r = max_peers_per_session r"
    "active_sessions (metrics ?r) = (if length c - length k > 0 then length k else active_sessions (metrics r))"
    by (simp_all add: evict_idle_def Let_def c_def k_def)
  have fst_c: "map fst c = map fst (routes r)"
    by (simp add: c_def comp_def split_beta)
  have dist: "distinct (map fst k)"
    unfolding k_def
    by (rule distinct_map_filter) (use inv in \<open>simp only: fst_c router_inv_def\<close>)
  have len: "length k \<le> length (routes r)" "length c = length (routes r)"
    by (simp_all add: k_def c_def)
  have "0 \<notin> fst ` set c"
    using inv arg_cong [OF fst_c, of set] by (simp add: router_inv_def map_of_eq_None_iff)
  then have zero: "map_of k 0 = None"
    by (auto simp: k_def map_of_eq_None_iff)
  have "entry_inv (max_peers_per_session r) e" if mem: "map_of k sid = Some e" for sid e
  proof -
    obtain e0 where e0: "(sid, e0) \<in> set (routes r)" "e = e0\<lparr>peers := filter (keep_peer closed) (peers e0)\<rparr>"
      "peers e \<noteq> []"
      using map_of_SomeD [OF mem] by (auto simp: k_def c_def)
    then have "map_of (routes r) sid = Some e0"
      using inv by (simp add: router_inv_def)
    then show ?thesis
      using inv e0 unfolding router_inv_def by (auto intro!: clean_entry_inv)
  qed
  then show ?thesis
    using inv dist zero len unfolding router_inv_def r by auto
qed

section \<open>Histories of the relay\<close>

datatype 'a router_op =
    OpRoute u32 "'a SessionEndpoint"
  | OpRequest u32 'a
  | OpRelease u32 'a
  | OpEvict "nat set" nat

primrec router_apply :: "nat \<Rightarrow> 'a Router \<Rightarrow> 'a router_op \<Rightarrow> 'a Router \<times> 'a FloorDecision option" where
  "router_apply now r (OpRoute sid ep) = (fst (Router_route now r sid ep), None)"
| "router_apply now r (OpRequest sid a) = (case floor_request now r sid a of (r, d) \<Rightarrow> (r, Some d))"
| "router_apply now r (OpRelease sid a) = (case floor_release now r sid a of (r, d) \<Rightarrow> (r, Some d))"
| "router_apply now r (OpEvict closed age) = (fst (evict_idle closed now r age), None)"

primrec router_run ::
  "'a Router \<Rightarrow> (nat \<times> 'a router_op) list \<Rightarrow> 'a Router \<times> ('a router_op \<times> 'a FloorDecision option) list" where
  "router_run r [] = (r, [])"
| "router_run r (x # xs) =
     (case router_apply (fst x) r (snd x) of
        (r, d) \<Rightarrow> (case router_run r xs of (r, ds) \<Rightarrow> (r, (snd x, d) # ds)))"

lemma router_apply_inv: "router_inv r \<Longrightarrow> router_inv (fst (router_apply now r op))"
  by (cases op) (simp_all add: route_inv floor_request_inv floor_release_inv evict_inv split_beta)

lemma router_run_inv: "router_inv r \<Longrightarrow> router_inv (fst (router_run r ops))"
  by (induction ops arbitrary: r) (simp_all add: router_apply_inv split_beta)

lemma route_limits: "max_peers_per_session (fst (Router_route now r sid ep)) = max_peers_per_session r"
  "max_sessions (fst (Router_route now r sid ep)) = max_sessions r"
  by (simp_all add: Router_route_def Let_def drop_packet_def split: option.splits)

lemma router_apply_limits [simp]:
  "max_peers_per_session (fst (router_apply now r op)) = max_peers_per_session r"
  "max_sessions (fst (router_apply now r op)) = max_sessions r"
  by (cases op; simp add: route_limits floor_request_def floor_release_def evict_idle_def Let_def split_beta
      split: option.splits)+

lemma router_run_limits [simp]:
  "max_peers_per_session (fst (router_run r ops)) = max_peers_per_session r"
  "max_sessions (fst (router_run r ops)) = max_sessions r"
  by (induction ops arbitrary: r) (simp_all add: split_beta)

lemma new_router_inv: "active_sessions m = 0 \<Longrightarrow> router_inv (Router_new ms mp m)"
  by (simp add: router_inv_def Router_new_def)

text \<open>The floor of a session is held by \<open>a\<close> since \<open>t0\<close>.\<close>

definition holds_since :: "'a Router \<Rightarrow> u32 \<Rightarrow> 'a \<Rightarrow> nat \<Rightarrow> bool" where
  "holds_since r sid a t0 \<longleftrightarrow>
     (\<exists>e. map_of (routes r) sid = Some e \<and> floor_holder e = Some a \<and> floor_granted_at e = Some t0)"

lemma holds_busy: "holds_since r sid a t0 \<Longrightarrow> map_of (routes r) sid = Some e \<Longrightarrow> t \<le> t0 + FLOOR_MAX_HOLD_NANOS \<Longrightarrow>
    \<not> floor_is_free t e"
  by (auto simp: holds_since_def floor_is_free_def)

lemma holds_route: "holds_since r sid a t0 \<Longrightarrow> holds_since (fst (Router_route t r sid' ep)) sid a t0"
  by (auto simp: holds_since_def Router_route_def Let_def drop_packet_def split: option.splits if_splits)

lemma holds_request:
  assumes "holds_since r sid a t0" and "t \<le> t0 + FLOOR_MAX_HOLD_NANOS"
  shows "holds_since (fst (floor_request t r sid' b)) sid a t0"
    and "snd (floor_request t r sid b) \<in> {Denied, Unknown}"
  using assms by (auto simp: holds_since_def floor_request_def floor_is_free_def Let_def
      split: option.splits if_splits)

lemma holds_release:
  assumes "holds_since r sid a t0" and "t \<le> t0 + FLOOR_MAX_HOLD_NANOS" and "sid' \<noteq> sid \<or> b \<noteq> a"
  shows "holds_since (fst (floor_release t r sid' b)) sid a t0"
  using assms by (auto simp: holds_since_def floor_release_def floor_is_free_def Let_def split: option.splits)

definition is_evict :: "'a router_op \<Rightarrow> bool" where
  "is_evict op = (case op of OpEvict _ _ \<Rightarrow> True | _ \<Rightarrow> False)"

lemma holds_apply:
  assumes "holds_since r sid a t0" and "t \<le> t0 + FLOOR_MAX_HOLD_NANOS" and "op \<noteq> OpRelease sid a"
    and "\<not> is_evict op"
  shows "holds_since (fst (router_apply t r op)) sid a t0"
    and "op = OpRequest sid b \<Longrightarrow> snd (router_apply t r op) \<noteq> Some (Granted ps)"
proof -
  show "holds_since (fst (router_apply t r op)) sid a t0"
    using assms
    by (cases op) (auto simp: is_evict_def split_beta intro: holds_route holds_request(1) holds_release)
  show "op = OpRequest sid b \<Longrightarrow> snd (router_apply t r op) \<noteq> Some (Granted ps)"
    using holds_request(2) [OF assms(1,2), of b] by (auto simp: split_beta)
qed

lemma holds_run:
  assumes "holds_since r sid a t0"
    and "\<forall>x \<in> set ops. fst x \<le> t0 + FLOOR_MAX_HOLD_NANOS \<and> snd x \<noteq> OpRelease sid a \<and> \<not> is_evict (snd x)"
  shows "holds_since (fst (router_run r ops)) sid a t0 \<and>
    (\<forall>b ps. (OpRequest sid b, Some (Granted ps)) \<notin> set (snd (router_run r ops)))"
  using assms
proof (induction ops arbitrary: r)
  case (Cons x xs)
  have x: "fst x \<le> t0 + FLOOR_MAX_HOLD_NANOS" "snd x \<noteq> OpRelease sid a" "\<not> is_evict (snd x)"
    using Cons.prems(2) by simp_all
  note step = holds_apply [OF Cons.prems(1) x]
  have run: "router_run r (x # xs) = (let y = router_apply (fst x) r (snd x); z = router_run (fst y) xs
      in (fst z, (snd x, snd y) # snd z))"
    by (simp add: split_beta Let_def)
  have "(OpRequest sid b, Some (Granted ps)) \<noteq> (snd x, snd (router_apply (fst x) r (snd x)))" for b ps
  proof
    assume "(OpRequest sid b, Some (Granted ps)) = (snd x, snd (router_apply (fst x) r (snd x)))"
    then have "snd x = OpRequest sid b" "snd (router_apply (fst x) r (snd x)) = Some (Granted ps)"
      by (simp_all only: prod.inject)
    then show False
      using step(2) by blast
  qed
  then show ?case
    using Cons.IH [OF step(1)] Cons.prems(2) unfolding run Let_def by simp
qed simp

section \<open>Properties\<close>



text \<open>C14: one speaker at a time.  Once the relay grants the floor of a session to \<open>a\<close>, then within the next 30
  seconds, whatever other traffic, requests and releases arrive, as long as \<open>a\<close> does not release it and no session is evicted,
  \<open>a\<close> keeps the floor and no request for it is granted, not even to \<open>a\<close> itself.\<close>

theorem floor_mutual_exclusion:
  assumes "floor_request t0 r sid a = (r1, Granted others)"
    and "\<forall>x \<in> set ops. fst x \<le> t0 + FLOOR_MAX_HOLD_NANOS \<and> snd x \<noteq> OpRelease sid a \<and> \<not> is_evict (snd x)"
  shows "router_floor_holder (fst (router_run r1 ops)) sid = Some a \<and>
    (\<forall>b ps. (OpRequest sid b, Some (Granted ps)) \<notin> set (snd (router_run r1 ops)))"
proof -
  have "holds_since r1 sid a t0"
    using assms(1) by (auto simp: floor_request_def holds_since_def Let_def split: option.splits if_splits)
  from holds_run [OF this assms(2)] show ?thesis
    by (auto simp: holds_since_def router_floor_holder_def)
qed

theorem floor_mutual_exclusion_witness:
  "\<exists>r1 others. floor_request 100 (fst (Router_route 90 (Router_new 10 8 RelayMetrics_new) 7 (Udp (1::nat)))) 7 1 =
      (r1, Granted others) \<and>
    router_floor_holder (fst (router_run r1 [(200, OpRoute 7 (Udp 2)), (300, OpRequest 7 2)])) 7 = Some 1"
proof -
  let ?r = "fst (Router_route 90 (Router_new 10 8 RelayMetrics_new) 7 (Udp (1::nat)))"
  obtain r1 others where g: "floor_request 100 ?r 7 1 = (r1, Granted others)"
    by (simp add: Router_route_def Router_new_def floor_request_def floor_is_free_def RouteEntry_new_def
        set_entry_def Let_def)
  have "\<forall>x \<in> set [(200, OpRoute 7 (Udp 2)), (300, OpRequest 7 2)].
      fst x \<le> 100 + FLOOR_MAX_HOLD_NANOS \<and> snd x \<noteq> OpRelease 7 1 \<and> \<not> is_evict (snd x)"
    by (simp add: FLOOR_MAX_HOLD_NANOS_def is_evict_def)
  from floor_mutual_exclusion [OF g this] g show ?thesis by blast
qed

text \<open>Broadcasts reach exactly the other peers.  When the router answers a datagram with a list of targets, the
  sender is registered in the session, the list has no duplicates, and it consists of exactly the other peers
  of the session; a datagram for session 0 is dropped.\<close>

lemma broadcast_exactly_others:
  assumes "router_inv r" and "Router_route now r sid from = (r', Broadcast targets)"
  shows "\<exists>e. map_of (routes r') sid = Some e \<and> from \<in> set (peers e) \<and> distinct targets \<and>
    set targets = set (peers e) - {from} \<and> targets \<noteq> [] \<and> sid \<noteq> 0"
proof -
  obtain e where e: "map_of (routes r) sid = Some e" and "sid \<noteq> 0"
    using assms(2) by (auto simp: Router_route_def Let_def split: option.splits if_splits)
  moreover have "distinct (peers e)"
    using assms(1) e by (auto simp: router_inv_def entry_inv_def)
  ultimately show ?thesis
    using assms(2)
    by (auto simp: Router_route_def Let_def others_of_def list_ex_iff split: if_splits)
qed

lemma broadcast_exactly_others_witness:
  "\<exists>r' targets. Router_route 6 (fst (Router_route 5 (Router_new 10 8 RelayMetrics_new) 7 (Udp (1::nat)))) 7 (Udp 2) =
     (r', Broadcast targets) \<and> set targets = {Udp 1}"
proof -
  let ?r = "fst (Router_route 5 (Router_new 10 8 RelayMetrics_new) 7 (Udp (1::nat)))"
  have inv: "router_inv ?r"
    by (intro route_inv new_router_inv) (simp add: RelayMetrics_new_def)
  have r1: "?r = Router_new 10 8 (RelayMetrics_new\<lparr>active_sessions := 1\<rparr>)
      \<lparr>routes := [(7, (RouteEntry_new 5)\<lparr>peers := [Udp 1]\<rparr>)]\<rparr>"
    by (simp add: Router_route_def Router_new_def set_entry_def Let_def RelayMetrics_new_def)
  define e where "e = \<lparr>peers = [Udp 1, Udp (2::nat)], last_activity = 6, floor_holder = None,
      floor_granted_at = None\<rparr>"
  have "\<exists>r'. Router_route 6 ?r 7 (Udp 2) = (r', Broadcast [Udp 1]) \<and> map_of (routes r') 7 = Some e"
    unfolding r1 by (simp add: Router_route_def Router_new_def RouteEntry_new_def set_entry_def Let_def e_def)
  then obtain r' where r': "Router_route 6 ?r 7 (Udp 2) = (r', Broadcast [Udp 1])" "map_of (routes r') 7 = Some e"
    by blast
  from broadcast_exactly_others [OF inv r'(1)] r'(2) have "set [Udp 1] = set (peers e) - {Udp 2}"
    by (metis option.inject)
  then show ?thesis
    using r'(1) by (intro exI [of _ r'] exI [of _ "[Udp 1]"]) simp
qed

text \<open>Room codes resolve to what was registered.  A registration succeeds exactly when the code is new; afterwards
  the code resolves to the registered session and every other code to what it did before; removing it
  makes it unknown.\<close>

lemma room_registry:
  "(register_room r code sid = (r', ok) \<longrightarrow>
     ok = (resolve_room r code = None) \<and>
     (\<forall>c. resolve_room r' c = (if c = code \<and> ok then Some sid else resolve_room r c))) \<and>
   resolve_room (fst (remove_room r code)) c = (if c = code then None else resolve_room r c) \<and>
   snd (remove_room r code) = (resolve_room r code \<noteq> None)"
  by (auto simp: register_room_def resolve_room_def remove_room_def update_conv' delete_conv')

lemma room_registry_witness:
  "resolve_room (fst (register_room (Router_new 1 1 RelayMetrics_new) [65] 9)) [65] = Some 9"
  using room_registry [of "Router_new 1 1 RelayMetrics_new" "[65]" 9
      "fst (register_room (Router_new 1 1 RelayMetrics_new) [65] 9)"
      "snd (register_room (Router_new 1 1 RelayMetrics_new) [65] 9)"]
  by (simp add: Router_new_def resolve_room_def register_room_def)

end
