(* ===== verification/Automaton.thy ===== *)
theory Automaton
  imports Main
begin

text \<open>
  Programs that react to events: the contract of a step function with an invariant, and of one that also records its
  outputs.  What holds of every run follows once, from what holds of one step.
\<close>

locale automaton =
  fixes inv :: "'s \<Rightarrow> bool" and step :: "'s \<Rightarrow> 'e \<Rightarrow> 's"
  assumes step_inv: "inv s \<Longrightarrow> inv (step s e)"
begin

lemma run_inv: "inv s \<Longrightarrow> inv (foldl step s es)"
  by (induction es arbitrary: s) (simp_all add: step_inv)

text \<open>A fact that the steps of certain events keep is kept by a run of such events.\<close>

lemma run_keeps:
  assumes "\<And>s e. inv s \<Longrightarrow> ok e \<Longrightarrow> P s \<Longrightarrow> P (step s e)" and "inv s" and "\<forall>e \<in> set es. ok e" and "P s"
  shows "P (foldl step s es)"
  using assms(2-4) by (induction es arbitrary: s) (simp_all add: assms(1) step_inv)

end

locale reporting_automaton = automaton inv step for inv :: "'s \<Rightarrow> bool" and step :: "'s \<Rightarrow> 'e \<Rightarrow> 's" +
  fixes out :: "'s \<Rightarrow> 'o list" and allowed :: "'e \<Rightarrow> 'o \<Rightarrow> bool"
  assumes step_out: "inv s \<Longrightarrow> \<exists>os. out (step s e) = out s @ os \<and> (\<forall>y \<in> set os. allowed e y)"
begin

lemma run_out:
  "inv s \<Longrightarrow> \<exists>os. out (foldl step s es) = out s @ os \<and> (\<forall>y \<in> set os. \<exists>e \<in> set es. allowed e y)"
proof (induction es arbitrary: s)
  case (Cons e es)
  obtain os where os: "out (step s e) = out s @ os" "\<forall>y \<in> set os. allowed e y"
    using step_out [OF Cons.prems] by blast
  obtain os' where "out (foldl step (step s e) es) = out (step s e) @ os'" "\<forall>y \<in> set os'. \<exists>e \<in> set es. allowed e y"
    using Cons.IH [OF step_inv [OF Cons.prems]] by blast
  then show ?case
    using os by (intro exI [of _ "os @ os'"]) auto
qed simp

end

end
