(* ===== verification/Relay.thy ===== *)
theory Relay
  imports Router Packet Message Automaton
begin

text \<open>
  \<open>gravital-talk-relay/src/udp.rs\<close> and \<open>ws.rs\<close>: what the relay does with one datagram from the UDP
  socket or one binary message of a web socket.  A step sees the clock, what the socket answers to each send
  (\<open>None\<close> is an error, otherwise the number of bytes) and which web-socket channels have lost their
  receiver; what it hands to a socket or channel is appended to \<open>sent\<close>.  A datagram is already cut to the
  receive buffer.
\<close>

section \<open>State\<close>

record 'a Relay =
  router :: "'a Router"
  sent :: "('a SessionEndpoint \<times> bytes) list"

record 'a RelayEnv =
  re_now :: nat
  re_send :: "bytes \<Rightarrow> 'a \<Rightarrow> nat option"
  re_closed :: "nat set"

definition update_metrics :: "(RelayMetrics \<Rightarrow> RelayMetrics) \<Rightarrow> 'a Relay \<Rightarrow> 'a Relay" where
  "update_metrics f s = s\<lparr>router := (router s)\<lparr>metrics := f (metrics (router s))\<rparr>\<rparr>"

definition count_in :: "nat \<Rightarrow> RelayMetrics \<Rightarrow> RelayMetrics" where
  "count_in n m = m\<lparr>packets_in := packets_in m + 1, bytes_in := bytes_in m + n\<rparr>"

definition count_out :: "nat \<Rightarrow> RelayMetrics \<Rightarrow> RelayMetrics" where
  "count_out n m = m\<lparr>packets_out := packets_out m + 1, bytes_out := bytes_out m + n\<rparr>"

definition hand_over :: "'a SessionEndpoint \<Rightarrow> bytes \<Rightarrow> 'a Relay \<Rightarrow> 'a Relay" where
  "hand_over target d s = s\<lparr>sent := sent s @ [(target, d)]\<rparr>"

section \<open>Forwarding\<close>

definition forward_to :: "'a RelayEnv \<Rightarrow> bytes \<Rightarrow> 'a Relay \<Rightarrow> 'a SessionEndpoint \<Rightarrow> 'a Relay" where
  "forward_to env d s target =
     (let s = hand_over target d s in
      case target of
        Udp addr \<Rightarrow>
          (case re_send env d addr of
             Some n \<Rightarrow> update_metrics (count_out n) s
           | None \<Rightarrow> update_metrics (inc_dropped ''send_error'') s)
      | WebSocket ch \<Rightarrow>
          (if ch \<in> re_closed env then update_metrics (inc_dropped ''ws_disconnected'') s
           else update_metrics (count_out (length d)) s))"

text \<open>The variant of \<open>ws.rs\<close> does not count a failed UDP send.\<close>

definition ws_forward :: "'a RelayEnv \<Rightarrow> bytes \<Rightarrow> 'a Relay \<Rightarrow> 'a SessionEndpoint \<Rightarrow> 'a Relay" where
  "ws_forward env d s target =
     (let s = hand_over target d s in
      case target of
        Udp addr \<Rightarrow>
          (case re_send env d addr of
             Some n \<Rightarrow> update_metrics (count_out n) s
           | None \<Rightarrow> s)
      | WebSocket ch \<Rightarrow>
          (if ch \<in> re_closed env then update_metrics (inc_dropped ''ws_disconnected'') s
           else update_metrics (count_out (length d)) s))"

section \<open>Floor messages\<close>

definition send_floor_packet ::
  "'a RelayEnv \<Rightarrow> MessageType \<Rightarrow> u32 \<Rightarrow> bytes \<Rightarrow> 'a \<Rightarrow> 'a Relay \<Rightarrow> 'a Relay" where
  "send_floor_packet env msg sid ssrc_payload to s =
     (case PacketBuilder_encode (PacketHeader_new (MessageType_code msg) sid 0 0) ssrc_payload (replicate 64 0) of
        Inl _ \<Rightarrow> s
      | Inr (out, n) \<Rightarrow>
          (let s = hand_over (Udp to) (take n out) s in
           case re_send env (take n out) to of
             Some k \<Rightarrow> update_metrics (count_out k) s
           | None \<Rightarrow> s))"

definition send_floor_msg :: "'a RelayEnv \<Rightarrow> MessageType \<Rightarrow> u32 \<Rightarrow> 'a \<Rightarrow> 'a Relay \<Rightarrow> 'a Relay" where
  "send_floor_msg env msg sid to s = send_floor_packet env msg sid (be32 sid) to s"

definition send_floor_msg_to ::
  "'a RelayEnv \<Rightarrow> MessageType \<Rightarrow> u32 \<Rightarrow> 'a Relay \<Rightarrow> 'a SessionEndpoint \<Rightarrow> 'a Relay" where
  "send_floor_msg_to env msg sid s target =
     (case PacketBuilder_encode (PacketHeader_new (MessageType_code msg) sid 0 0) (be32 sid) (replicate 64 0) of
        Inl _ \<Rightarrow> s
      | Inr (out, n) \<Rightarrow> forward_to env (take n out) s target)"

section \<open>One UDP datagram\<close>

definition handle_floor_request :: "'a RelayEnv \<Rightarrow> 'a Relay \<Rightarrow> u32 \<Rightarrow> 'a \<Rightarrow> 'a Relay" where
  "handle_floor_request env s sid from =
     (let s = s\<lparr>router := fst (Router_route (re_now env) (router s) sid (Udp from))\<rparr> in
      case floor_request (re_now env) (router s) sid from of
        (r, decision) \<Rightarrow>
          (let s = s\<lparr>router := r\<rparr> in
           case decision of
             Granted others \<Rightarrow>
               foldl (send_floor_msg_to env FloorTaken sid) (send_floor_msg env FloorGrant sid from s) others
           | Denied \<Rightarrow> send_floor_msg env FloorDeny sid from s
           | _ \<Rightarrow> s))"

definition handle_floor_release :: "'a RelayEnv \<Rightarrow> 'a Relay \<Rightarrow> u32 \<Rightarrow> 'a \<Rightarrow> 'a Relay" where
  "handle_floor_release env s sid from =
     (case floor_release (re_now env) (router s) sid from of
        (r, decision) \<Rightarrow>
          (let s = s\<lparr>router := r\<rparr> in
           case decision of
             Released others \<Rightarrow> foldl (send_floor_msg_to env FloorRelease sid) s others
           | _ \<Rightarrow> s))"

definition route_datagram :: "'a RelayEnv \<Rightarrow> 'a Relay \<Rightarrow> u32 \<Rightarrow> 'a SessionEndpoint \<Rightarrow> 'a Relay \<times> 'a RouteDecision" where
  "route_datagram env s sid from =
     (case Router_route (re_now env) (router s) sid from of (r, d) \<Rightarrow> (s\<lparr>router := r\<rparr>, d))"

definition udp_datagram :: "'a RelayEnv \<Rightarrow> 'a Relay \<Rightarrow> bytes \<Rightarrow> 'a \<Rightarrow> 'a Relay" where
  "udp_datagram env s d from =
     (let s = update_metrics (count_in (length d)) s in
      case PacketView_decode d of
        Inl _ \<Rightarrow> update_metrics (inc_dropped ''malformed'') s
      | Inr view \<Rightarrow>
          (let sid = session_id (header view) in
           case MessageType_from_code (msg_type (header view)) of
             Inr FloorRequest \<Rightarrow> handle_floor_request env s sid from
           | Inr FloorRelease \<Rightarrow> handle_floor_release env s sid from
           | _ \<Rightarrow>
               (case route_datagram env s sid (Udp from) of
                  (s, Broadcast targets) \<Rightarrow> foldl (forward_to env d) s targets
                | (s, _) \<Rightarrow> s)))"

section \<open>One web-socket message\<close>

definition ws_message :: "'a RelayEnv \<Rightarrow> 'a Relay \<Rightarrow> bytes \<Rightarrow> nat \<Rightarrow> 'a Relay" where
  "ws_message env s d ch =
     (let s = update_metrics (count_in (length d)) s in
      case PacketView_decode d of
        Inl _ \<Rightarrow> update_metrics (inc_dropped ''malformed'') s
      | Inr view \<Rightarrow>
          (case route_datagram env s (session_id (header view)) (WebSocket ch) of
             (s, Broadcast targets) \<Rightarrow> foldl (ws_forward env d) s targets
           | (s, _) \<Rightarrow> s))"

section \<open>What the forwarding loops send\<close>

definition floor_packet :: "MessageType \<Rightarrow> u32 \<Rightarrow> bytes" where
  "floor_packet msg sid = packet_bytes (PacketHeader_new (MessageType_code msg) sid 0 0) (be32 sid)"

text \<open>Two relays with the same routing table and gauges (their counters may differ).\<close>

definition same_table :: "'a Relay \<Rightarrow> 'a Relay \<Rightarrow> bool" where
  "same_table s s' \<longleftrightarrow> (\<exists>m. router s' = (router s)\<lparr>metrics := m\<rparr> \<and>
     active_sessions m = active_sessions (metrics (router s)) \<and> ws_connections m = ws_connections (metrics (router s)))"

lemma same_table_refl [simp]: "same_table s s"
  unfolding same_table_def by (rule exI [of _ "metrics (router s)"]) simp

lemma same_table_trans: "same_table s t \<Longrightarrow> same_table t u \<Longrightarrow> same_table s u"
  unfolding same_table_def by auto

lemma same_table_metrics:
  "same_table s (update_metrics (count_out n) s')" "same_table s (update_metrics (inc_dropped x) s')"
  "same_table s (update_metrics (count_in n) s')" "same_table s (hand_over t d s')" if "same_table s s'"
  using that by (auto simp: same_table_def update_metrics_def count_out_def count_in_def inc_dropped_def hand_over_def)

lemma same_tableD: "same_table s s' \<Longrightarrow> routes (router s') = routes (router s)"
  "same_table s s' \<Longrightarrow> router_inv (router s') = router_inv (router s)"
  by (auto simp: same_table_def router_inv_def)

lemma sent_simps [simp]:
  "sent (update_metrics f s) = sent s" "sent (hand_over t d s) = sent s @ [(t, d)]"
  by (simp_all add: update_metrics_def hand_over_def)

lemma forward_to_spec: "same_table s (forward_to env d s t) \<and> sent (forward_to env d s t) = sent s @ [(t, d)]"
  by (auto simp: forward_to_def Let_def same_table_metrics split: SessionEndpoint.splits option.splits)

lemma ws_forward_spec: "same_table s (ws_forward env d s t) \<and> sent (ws_forward env d s t) = sent s @ [(t, d)]"
  by (auto simp: ws_forward_def Let_def same_table_metrics split: SessionEndpoint.splits option.splits)

lemma send_floor_msg_to_eq: "send_floor_msg_to env msg sid s t = forward_to env (floor_packet msg sid) s t"
  by (simp add: send_floor_msg_to_def PacketBuilder_encode_eq floor_packet_def)

lemma send_floor_msg_spec:
  "same_table s (send_floor_msg env msg sid to s) \<and>
   sent (send_floor_msg env msg sid to s) = sent s @ [(Udp to, floor_packet msg sid)]"
  by (auto simp: send_floor_msg_def send_floor_packet_def PacketBuilder_encode_eq floor_packet_def Let_def
      same_table_metrics split: option.splits)

lemma foldl_sends:
  assumes "\<And>s t. same_table s (f s t) \<and> sent (f s t) = sent s @ [(t, d)]"
  shows "same_table s (foldl f s ts) \<and> sent (foldl f s ts) = sent s @ map (\<lambda>t. (t, d)) ts"
proof (induction ts arbitrary: s)
  case (Cons t ts)
  then show ?case
    using assms [of s t] same_table_trans [of s "f s t" "foldl f (f s t) ts"] by simp
qed simp

lemma forward_all:
  "same_table s (foldl (forward_to env d) s ts)" "sent (foldl (forward_to env d) s ts) = sent s @ map (\<lambda>t. (t, d)) ts"
  "same_table s (foldl (ws_forward env d) s ts)" "sent (foldl (ws_forward env d) s ts) = sent s @ map (\<lambda>t. (t, d)) ts"
  "same_table s (foldl (send_floor_msg_to env msg sid) s ts)"
  "sent (foldl (send_floor_msg_to env msg sid) s ts) = sent s @ map (\<lambda>t. (t, floor_packet msg sid)) ts"
  using foldl_sends [of "forward_to env d" d s ts] foldl_sends [of "ws_forward env d" d s ts]
    foldl_sends [of "send_floor_msg_to env msg sid" "floor_packet msg sid" s ts]
  by (simp_all add: forward_to_spec ws_forward_spec send_floor_msg_to_eq)

section \<open>Routing of one datagram\<close>

text \<open>The other peers of a session, if the sender is one of them.\<close>

definition fellows :: "'a Router \<Rightarrow> u32 \<Rightarrow> 'a SessionEndpoint \<Rightarrow> 'a SessionEndpoint set" where
  "fellows r sid from =
     (case map_of (routes r) sid of
        None \<Rightarrow> {}
      | Some e \<Rightarrow> (if from \<in> set (peers e) then set (peers e) - {from} else {}))"

definition targets_of :: "'a RouteDecision \<Rightarrow> 'a SessionEndpoint list" where
  "targets_of d = (case d of Broadcast ts \<Rightarrow> ts | _ \<Rightarrow> [])"

lemma route_targets:
  assumes "router_inv r" and "Router_route now r sid ep = (r', d)"
  shows "distinct (targets_of d) \<and> set (targets_of d) = fellows r' sid ep"
proof (cases "map_of (routes r) sid")
  case None
  moreover have "map_of (routes r) 0 = None"
    using assms(1) by (simp add: router_inv_def)
  ultimately show ?thesis
    using assms(2)
    by (auto simp: Router_route_def Let_def drop_packet_def fellows_def targets_of_def split: if_splits)
next
  case (Some e)
  then have e: "distinct (peers e)" "peers e \<noteq> []" "sid \<noteq> 0"
    using assms(1) by (auto simp: router_inv_def entry_inv_def)
  show ?thesis
  proof (cases "ep \<in> set (peers e)")
    case True
    then have "r' = set_entry sid (e\<lparr>last_activity := now\<rparr>) r" "targets_of d = others_of ep (peers e)"
      using assms(2) Some e(3) by (auto simp: Router_route_def Let_def list_ex_iff targets_of_def split: if_splits)
    then show ?thesis
      using e(1) True by (auto simp: fellows_def others_of_def)
  next
    case False
    show ?thesis
    proof (cases "length (peers e) \<ge> max_peers_per_session r")
      case True
      then have "r' = drop_packet ''session_full'' (set_entry sid (e\<lparr>last_activity := now\<rparr>) r)" "targets_of d = []"
        using False assms(2) Some e(3) by (simp_all add: Router_route_def Let_def list_ex_iff targets_of_def)
      then show ?thesis
        using False by (simp add: fellows_def drop_packet_def)
    next
      case room: False
      then have "map_of (routes r') sid = Some (e\<lparr>last_activity := now, peers := peers e @ [ep]\<rparr>)"
        "targets_of d = peers e"
        using False assms(2) Some e(2,3) by (auto simp: Router_route_def Let_def list_ex_iff targets_of_def)
      then show ?thesis
        using False e(1) by (auto simp: fellows_def)
    qed
  qed
qed

lemma count_in_table: "same_table s (update_metrics (count_in n) s)"
  by (rule same_table_metrics(3)) simp

lemma route_datagram_spec:
  assumes "router_inv (router s)" and "route_datagram env s sid ep = (s1, d)"
  shows "router_inv (router s1) \<and> sent s1 = sent s \<and> distinct (targets_of d) \<and>
    set (targets_of d) = fellows (router s1) sid ep"
proof -
  obtain r' where r': "Router_route (re_now env) (router s) sid ep = (r', d)" and s1: "s1 = s\<lparr>router := r'\<rparr>"
    using assms(2) by (auto simp: route_datagram_def split: prod.splits)
  then show ?thesis
    using route_inv [OF assms(1), of "re_now env" sid ep] route_targets [OF assms(1) r'] by simp
qed

lemma fellows_cong: "routes r = routes r' \<Longrightarrow> fellows r = fellows r'"
  by (simp add: fellows_def fun_eq_iff)

lemma broadcast_spec:
  assumes inv: "router_inv (router s)" and r: "route_datagram env s sid ep = (s1, dec)"
    and f: "\<And>s t. same_table s (f s t) \<and> sent (f s t) = sent s @ [(t, d)]"
    and s': "s' = foldl f s1 (targets_of dec)"
  shows "router_inv (router s') \<and> (\<exists>ts. sent s' = sent s @ map (\<lambda>t. (t, d)) ts \<and> distinct ts \<and>
    set ts = fellows (router s') sid ep)"
proof -
  note r1 = route_datagram_spec [OF inv r]
  have f': "same_table s1 s'" "sent s' = sent s1 @ map (\<lambda>t. (t, d)) (targets_of dec)"
    using foldl_sends [of f d s1 "targets_of dec"] f unfolding s' by simp_all
  show ?thesis
    using r1 f' same_tableD [OF f'(1)] fellows_cong [of "router s'" "router s1"] by auto
qed

section \<open>Properties\<close>


text \<open>A relay that knows one UDP peer, for examples.\<close>

definition demo_relay :: "nat Relay" where
  "demo_relay = \<lparr>router = fst (Router_route 5 (Router_new 10 8 RelayMetrics_new) 7 (Udp 1)), sent = []\<rparr>"

definition demo_relay_env :: "nat RelayEnv" where
  "demo_relay_env = \<lparr>re_now = 100, re_send = (\<lambda>d a. Some (length d)), re_closed = {}\<rparr>"

lemma demo_relay_inv: "router_inv (router demo_relay)"
  by (simp add: demo_relay_def route_inv new_router_inv RelayMetrics_new_def)

lemma demo_relay_routes: "map_of (routes (router demo_relay)) 7 = Some ((RouteEntry_new 5)\<lparr>peers := [Udp 1]\<rparr>)"
  "max_peers_per_session (router demo_relay) = 8"
  by (simp_all add: demo_relay_def Router_route_def Router_new_def Let_def)

lemma demo_packet:
  "PacketView_decode (packet_bytes (PacketHeader_new c 7 0 0) [1, 2]) =
     Inr \<lparr>header = PacketHeader_new c 7 0 0, payload = [1, 2]\<rparr>"
  by (simp add: PacketView_decode_packet_bytes header_wf_def PacketHeader_new_def)


section \<open>Floor requests\<close>

text \<open>The answers to a floor request.\<close>

definition floor_answer :: "'a RelayEnv \<Rightarrow> u32 \<Rightarrow> 'a \<Rightarrow> 'a Relay \<Rightarrow> 'a FloorDecision \<Rightarrow> 'a Relay" where
  "floor_answer env sid a s decision =
     (case decision of
        Granted others \<Rightarrow> foldl (send_floor_msg_to env FloorTaken sid) (send_floor_msg env FloorGrant sid a s) others
      | Denied \<Rightarrow> send_floor_msg env FloorDeny sid a s
      | _ \<Rightarrow> s)"

lemma floor_answer_spec:
  "same_table s (floor_answer env sid a s dec)"
  "sent (floor_answer env sid a s dec) = sent s @
     (case dec of
        Granted others \<Rightarrow> (Udp a, floor_packet FloorGrant sid) # map (\<lambda>t. (t, floor_packet FloorTaken sid)) others
      | Denied \<Rightarrow> [(Udp a, floor_packet FloorDeny sid)]
      | _ \<Rightarrow> [])"
proof -
  note grant = send_floor_msg_spec [of s env FloorGrant sid a] and deny = send_floor_msg_spec [of s env FloorDeny sid a]
  note taken = forward_all(5,6) [where s = "send_floor_msg env FloorGrant sid a s" and env = env and msg = FloorTaken and sid = sid]
  show "same_table s (floor_answer env sid a s dec)"
    using grant deny same_table_trans [OF conjunct1 [OF grant] taken(1)] by (cases dec) (simp_all add: floor_answer_def)
  show "sent (floor_answer env sid a s dec) = sent s @
     (case dec of
        Granted others \<Rightarrow> (Udp a, floor_packet FloorGrant sid) # map (\<lambda>t. (t, floor_packet FloorTaken sid)) others
      | Denied \<Rightarrow> [(Udp a, floor_packet FloorDeny sid)]
      | _ \<Rightarrow> [])"
    using grant deny taken(2) by (cases dec) (simp_all add: floor_answer_def)
qed

lemma udp_floor_request:
  assumes "PacketView_decode d = Inr view" and "MessageType_from_code (msg_type (header view)) = Inr FloorRequest"
    and "s1 = update_metrics (count_in (length d)) s" and "sid = session_id (header view)"
    and "floor_request (re_now env) (fst (Router_route (re_now env) (router s1) sid (Udp a))) sid a = (r2, dec)"
  shows "udp_datagram env s d a = floor_answer env sid a (s1\<lparr>router := r2\<rparr>) dec"
  using assms
  by (simp add: udp_datagram_def handle_floor_request_def floor_answer_def Let_def split: FloorDecision.splits)

text \<open>The relay arbitrates the floor.  A floor request never reaches the other peers.  If its sender is (or becomes) a
  member of the session, it gets exactly one answer: when the floor is free, a grant, every other member is told that the
  floor is taken, and the sender is the holder afterwards; when it is not, a denial, and the holder does not change.  A
  sender that is not admitted gets no answer.  The messages carry the session identifier as payload.\<close>

lemma relay_floor_request:
  assumes "router_inv (router s)" and "PacketView_decode d = Inr view"
    and "MessageType_from_code (msg_type (header view)) = Inr FloorRequest"
  shows "let sid = session_id (header view); s' = udp_datagram env s d a;
             r1 = fst (Router_route (re_now env) (router s) sid (Udp a)) in
    router_inv (router s') \<and>
    (case map_of (routes r1) sid of
       None \<Rightarrow> sent s' = sent s
     | Some e \<Rightarrow>
         (if Udp a \<notin> set (peers e) then sent s' = sent s
          else if floor_is_free (re_now env) e
          then sent s' = sent s @ (Udp a, floor_packet FloorGrant sid) #
                 map (\<lambda>t. (t, floor_packet FloorTaken sid)) (others_of (Udp a) (peers e)) \<and>
               router_floor_holder (router s') sid = Some a
          else sent s' = sent s @ [(Udp a, floor_packet FloorDeny sid)] \<and>
               router_floor_holder (router s') sid = floor_holder e))"
proof -
  let ?s = "update_metrics (count_in (length d)) s" and ?sid = "session_id (header view)"
  let ?r = "fst (Router_route (re_now env) (router ?s) ?sid (Udp a))"
  let ?r1 = "fst (Router_route (re_now env) (router s) ?sid (Udp a))"
  have inv: "router_inv ?r"
    using assms(1) same_tableD(2) [OF count_in_table] by (intro route_inv) blast
  have routes: "routes ?r = routes ?r1"
    by (simp add: Router_route_def Let_def update_metrics_def drop_packet_def set_entry_def split: option.splits)
  obtain r2 dec where req: "floor_request (re_now env) ?r ?sid a = (r2, dec)"
    by force
  have inv2: "router_inv r2"
    using floor_request_inv [OF inv, of "re_now env" ?sid a] req by simp
  define s2 where "s2 = ?s\<lparr>router := r2\<rparr>"
  have s2: "sent s2 = sent s" "router s2 = r2"
    by (simp_all add: s2_def)
  have step: "udp_datagram env s d a = floor_answer env ?sid a s2 dec"
    unfolding s2_def using udp_floor_request [OF assms(2,3) refl refl req] .
  note table = floor_answer_spec(1) [where s = s2 and env = env and sid = ?sid and a = a and dec = dec, folded step]
  note out = floor_answer_spec(2) [where s = s2 and env = env and sid = ?sid and a = a and dec = dec, folded step]
  have holder: "router_floor_holder (router (udp_datagram env s d a)) ?sid = router_floor_holder r2 ?sid"
    using same_tableD(1) [OF table] s2(2) by (simp add: router_floor_holder_def)
  have "router_inv (router (udp_datagram env s d a))"
    using same_tableD(2) [OF table] s2(2) inv2 by simp
  moreover have "case map_of (routes ?r) ?sid of
       None \<Rightarrow> dec = Unknown
     | Some e \<Rightarrow>
         (if Udp a \<notin> set (peers e) then dec = Unknown
          else if floor_is_free (re_now env) e
          then dec = Granted (others_of (Udp a) (peers e)) \<and> router_floor_holder r2 ?sid = Some a
          else dec = Denied \<and> router_floor_holder r2 ?sid = floor_holder e)"
    using req
    by (auto simp: floor_request_def Let_def list_ex_iff router_floor_holder_def floor_is_free_def
        split: option.splits if_splits)
  ultimately show ?thesis
    using out s2(1) holder unfolding Let_def routes by (auto split: option.splits)
qed

lemma relay_floor_request_witness:
  "sent (udp_datagram demo_relay_env demo_relay (packet_bytes (PacketHeader_new 0x40 7 0 0) [1, 2]) 2) =
     [(Udp 2, floor_packet FloorGrant 7), (Udp 1, floor_packet FloorTaken 7)]"
proof -
  let ?view = "\<lparr>header = PacketHeader_new 0x40 7 0 0, payload = [1, 2]\<rparr> :: PacketView"
  have mt: "MessageType_from_code (msg_type (header ?view)) = Inr FloorRequest"
    using MessageType_from_code_code [of FloorRequest] by (simp add: PacketHeader_new_def)
  define e where "e = (RouteEntry_new 5 :: nat RouteEntry)\<lparr>last_activity := 100, peers := [Udp 1, Udp 2]\<rparr>"
  have e: "map_of (routes (fst (Router_route 100 (router demo_relay) 7 (Udp 2)))) 7 = Some e"
    using demo_relay_routes by (simp add: Router_route_def Let_def RouteEntry_new_def e_def)
  have "floor_is_free 100 e" "peers e = [Udp 1, Udp 2]"
    by (simp_all add: e_def RouteEntry_new_def floor_is_free_def)
  with relay_floor_request [OF demo_relay_inv demo_packet mt, where env = demo_relay_env and a = 2] e
  have "sent (udp_datagram demo_relay_env demo_relay (packet_bytes (PacketHeader_new 0x40 7 0 0) [1, 2]) 2) =
      sent demo_relay @ (Udp 2, floor_packet FloorGrant 7) #
        map (\<lambda>t. (t, floor_packet FloorTaken 7)) (others_of (Udp 2) [Udp 1, Udp 2])"
    by (simp add: Let_def demo_relay_env_def PacketHeader_new_def)
  then show ?thesis
    by (simp add: others_of_def demo_relay_def)
qed

section \<open>Runs of the relay\<close>

datatype 'a relay_event = UdpIn bytes 'a | WsIn bytes nat

fun relay_step :: "'a Relay \<Rightarrow> 'a RelayEnv \<times> 'a relay_event \<Rightarrow> 'a Relay" where
  "relay_step s (env, UdpIn d a) = udp_datagram env s d a"
| "relay_step s (env, WsIn d ch) = ws_message env s d ch"

text \<open>What one event may cause to be sent: the datagram itself, to others than its sender, or a floor message.\<close>

fun event_output :: "'a relay_event \<Rightarrow> 'a SessionEndpoint \<times> bytes \<Rightarrow> bool" where
  "event_output (UdpIn d a) (t, b) \<longleftrightarrow> b = d \<and> t \<noteq> Udp a \<or> (\<exists>m sid. b = floor_packet m sid \<and>
     m \<in> {FloorGrant, FloorTaken, FloorDeny, FloorRelease})"
| "event_output (WsIn d ch) (t, b) \<longleftrightarrow> b = d \<and> t \<noteq> WebSocket ch"

lemma fellows_self: "from \<notin> fellows r sid from"
  by (simp add: fellows_def split: option.splits)

lemma malformed_spec:
  assumes "PacketView_decode d = Inl err"
  shows "udp_datagram env s d a = update_metrics (inc_dropped ''malformed'') (update_metrics (count_in (length d)) s)"
    and "ws_message env s d ch = update_metrics (inc_dropped ''malformed'') (update_metrics (count_in (length d)) s)"
  using assms by (simp_all add: udp_datagram_def ws_message_def Let_def)

lemma ws_message_spec:
  assumes "router_inv (router s)" and "PacketView_decode d = Inr view"
  shows "router_inv (router (ws_message env s d ch)) \<and>
    (\<exists>ts. sent (ws_message env s d ch) = sent s @ map (\<lambda>t. (t, d)) ts \<and> WebSocket ch \<notin> set ts)"
proof -
  let ?s = "update_metrics (count_in (length d)) s" and ?sid = "session_id (header view)"
  have inv: "router_inv (router ?s)"
    using assms(1) same_tableD(2) [OF count_in_table] by blast
  obtain s2 dec where r: "route_datagram env ?s ?sid (WebSocket ch) = (s2, dec)"
    by force
  have "ws_message env s d ch = foldl (ws_forward env d) s2 (targets_of dec)"
    using assms(2) r by (simp add: ws_message_def Let_def targets_of_def split: RouteDecision.splits)
  from broadcast_spec [OF inv r ws_forward_spec this] show ?thesis
    using fellows_self [of "WebSocket ch"] by auto
qed

lemma udp_message_spec:
  assumes inv: "router_inv (router s)" and view: "PacketView_decode d = Inr view"
  shows "router_inv (router (udp_datagram env s d a)) \<and>
    (\<exists>out. sent (udp_datagram env s d a) = sent s @ out \<and> (\<forall>x \<in> set out. event_output (UdpIn d a) x))"
proof -
  let ?s = "update_metrics (count_in (length d)) s" and ?sid = "session_id (header view)"
  let ?mt = "MessageType_from_code (msg_type (header view))"
  have inv1: "router_inv (router ?s)"
    using inv same_tableD(2) [OF count_in_table] by blast
  consider "?mt = Inr FloorRequest" | "?mt = Inr FloorRelease" | "?mt \<noteq> Inr FloorRequest" "?mt \<noteq> Inr FloorRelease"
    by blast
  then show ?thesis
  proof cases
    case 1
    let ?r = "fst (Router_route (re_now env) (router ?s) ?sid (Udp a))"
    obtain r2 dec where req: "floor_request (re_now env) ?r ?sid a = (r2, dec)"
      by force
    have inv2: "router_inv r2"
      using floor_request_inv [OF route_inv [OF inv1], of "re_now env" "re_now env" ?sid "Udp a" ?sid a] req by simp
    have step: "udp_datagram env s d a = floor_answer env ?sid a (?s\<lparr>router := r2\<rparr>) dec"
      by (rule udp_floor_request [OF view 1 refl refl req])
    show ?thesis
      using floor_answer_spec [where s = "?s\<lparr>router := r2\<rparr>" and env = env and sid = ?sid and a = a and dec = dec, folded step] inv2
      by (cases dec) (auto simp: same_tableD)
  next
    case 2
    obtain r2 dec where req: "floor_release (re_now env) (router ?s) ?sid a = (r2, dec)"
      by force
    have inv2: "router_inv r2"
      using floor_release_inv [OF inv1, of "re_now env" ?sid a] req by simp
    note all = forward_all(5,6) [where s = "?s\<lparr>router := r2\<rparr>" and env = env and msg = FloorRelease and sid = ?sid]
    show ?thesis
      using view 2 req inv2 same_tableD(2) [OF all(1)] all(2)
      by (cases dec) (auto simp: udp_datagram_def handle_floor_release_def Let_def)
  next
    case 3
    obtain s1 dec where r: "route_datagram env ?s ?sid (Udp a) = (s1, dec)"
      by force
    have "udp_datagram env s d a = foldl (forward_to env d) s1 (targets_of dec)"
      using view 3 r
      by (auto simp: udp_datagram_def Let_def targets_of_def split: sum.splits MessageType.splits RouteDecision.splits)
    from broadcast_spec [OF inv1 r forward_to_spec this] show ?thesis
      using fellows_self [of "Udp a"] by auto
  qed
qed

lemma relay_step_spec:
  assumes "router_inv (router s)"
  shows "router_inv (router (relay_step s x)) \<and>
    (\<exists>out. sent (relay_step s x) = sent s @ out \<and> (\<forall>y \<in> set out. event_output (snd x) y))"
proof -
  obtain env ev where x: "x = (env, ev)"
    by force
  have bad: "router_inv (router (update_metrics (inc_dropped ''malformed'') (update_metrics (count_in n) s)))" for n
    using assms same_tableD(2) [OF same_table_metrics(2) [OF count_in_table]] by blast
  show ?thesis
  proof (cases ev)
    case (UdpIn d a)
    then show ?thesis
      using udp_message_spec [OF assms, of d _ env a] malformed_spec(1) [of d _ env s a] bad
      by (cases "PacketView_decode d") (simp_all add: x)
  next
    case (WsIn d ch)
    show ?thesis
    proof (cases "PacketView_decode d")
      case (Inl err)
      then show ?thesis
        using malformed_spec(2) [OF Inl, of env s ch] bad WsIn by (simp add: x)
    next
      case (Inr view)
      then show ?thesis
        using ws_message_spec [OF assms Inr, of env ch] WsIn x by auto
    qed
  qed
qed

interpretation relay_io: reporting_automaton "\<lambda>s. router_inv (router s)" relay_step sent "\<lambda>x. event_output (snd x)"
  by unfold_locales (use relay_step_spec in blast)+

text \<open>The front ends never invent or echo traffic.  In every run from an empty relay, over any sequence of UDP datagrams and
  web-socket messages, valid or not, the routing table stays well-formed, and everything that is sent is either an
  unmodified received datagram, going to somebody else than its sender, or one of the relay's four floor messages.\<close>

lemma relay_run_safe:
  fixes xs :: "('a RelayEnv \<times> 'a relay_event) list"
  assumes "active_sessions m = 0"
  shows "let s = foldl relay_step \<lparr>router = Router_new ms mp m, sent = []\<rparr> xs in
    router_inv (router s) \<and> (\<forall>y \<in> set (sent s). \<exists>x \<in> set xs. event_output (snd x) y)"
proof -
  have start: "router_inv (router (\<lparr>router = Router_new ms mp m, sent = []\<rparr> :: 'a Relay))"
    using new_router_inv [OF assms] by simp
  show ?thesis
    using relay_io.run_inv [OF start, of xs] relay_io.run_out [OF start, of xs] by (auto simp: Let_def)
qed

text \<open>Malformed input is only counted.  A datagram or web-socket message that is not a valid packet changes neither the
  routing table nor the rooms, causes nothing to be sent, and is counted as received and as dropped for being
  malformed.\<close>

lemma relay_malformed_dropped:
  assumes "PacketView_decode d = Inl err" and "s' \<in> {udp_datagram env s d a, ws_message env s d ch}"
  shows "sent s' = sent s \<and> routes (router s') = routes (router s) \<and> rooms (router s') = rooms (router s) \<and>
    packets_in (metrics (router s')) = packets_in (metrics (router s)) + 1 \<and>
    bytes_in (metrics (router s')) = bytes_in (metrics (router s)) + length d \<and>
    dropped (metrics (router s')) = (dropped (metrics (router s)))
      (''malformed'' := dropped (metrics (router s)) ''malformed'' + 1)"
proof -
  have "s' = update_metrics (inc_dropped ''malformed'') (update_metrics (count_in (length d)) s)"
    using assms malformed_spec [OF assms(1)] by auto
  then show ?thesis
    by (simp add: update_metrics_def inc_dropped_def count_in_def)
qed

lemma relay_malformed_dropped_witness:
  "sent (udp_datagram demo_relay_env demo_relay [1, 2, 3] 9) = sent demo_relay"
proof -
  have "PacketView_decode [1, 2, 3] = Inl TooShort"
    by (simp add: PacketView_decode_def size_consts)
  from relay_malformed_dropped [OF this, of "udp_datagram demo_relay_env demo_relay [1, 2, 3] 9"]
  show ?thesis by blast
qed

end
