(* ===== verification/RelayedHandshake.thy ===== *)
theory RelayedHandshake
  imports Handshake Relay
begin

text \<open>
  The handshake of the transport against the relay: the client side of \<open>session.rs\<close> sends its hello with session 0, and
  the routing table of \<open>router.rs\<close> refuses session 0.
\<close>

definition silent :: "'a hs_event \<Rightarrow> bool" where
  "silent ev \<longleftrightarrow> (case ev of HsDeadline \<Rightarrow> True | HsRecv (RecvData d a) \<Rightarrow> False | HsRecv _ \<Rightarrow> True | HsClose \<Rightarrow> False)"

definition hello_datagram :: "bytes \<Rightarrow> bool" where
  "hello_datagram d \<longleftrightarrow>
     (\<exists>seq now pl. d = control_packet HandshakeClientHello 0 seq now pl \<and> length pl \<le> 1176)"

lemma hello_dropped:
  assumes "hello_datagram d"
  shows "sent (udp_datagram env r d a) = sent r \<and> routes (router (udp_datagram env r d a)) = routes (router r)"
proof -
  obtain seq now pl where d: "d = control_packet HandshakeClientHello 0 seq now pl" "length pl \<le> 1176"
    using assms by (auto simp: hello_datagram_def)
  let ?h = "PacketHeader_new (MessageType_code HandshakeClientHello) 0 seq now"
  have "PacketView_decode d = Inr \<lparr>header = ?h, payload = pl\<rparr>"
    unfolding d(1) control_packet_def using d(2)
    by (subst PacketView_decode_packet_bytes) (simp_all add: header_wf_def PacketHeader_new_def)
  moreover have "MessageType_from_code (msg_type ?h) = Inr HandshakeClientHello"
    using MessageType_from_code_code [of HandshakeClientHello] by (simp add: PacketHeader_new_def)
  ultimately show ?thesis
    by (simp add: udp_datagram_def route_datagram_def Router_route_def drop_packet_def update_metrics_def
        PacketHeader_new_def Let_def)
qed

text \<open>Only hellos were handed to the transport.\<close>

definition hellos_only :: "'a \<Rightarrow> 'a Session \<Rightarrow> 'a Session \<Rightarrow> bool" where
  "hellos_only p s s' \<longleftrightarrow> (\<exists>ds. outbox s' = outbox s @ map (Pair p) ds \<and> (\<forall>d \<in> set ds. hello_datagram d))"

lemma hellos_only_same: "outbox s' = outbox s \<Longrightarrow> hellos_only p s s'"
  unfolding hellos_only_def by (intro exI [of _ "[]"]) simp

lemma hellos_only_trans: "hellos_only p s t \<Longrightarrow> hellos_only p t u \<Longrightarrow> hellos_only p s u"
  unfolding hellos_only_def by (elim exE) (rule_tac x = "ds @ dsa" in exI, auto)

lemma hello_sent:
  assumes "send_control env s HandshakeClientHello 0 pl p = (r, s')"
  shows "hellos_only p s s'"
proof (cases "outbox s' = outbox s")
  case False
  let ?d = "control_packet HandshakeClientHello 0 (tx_sequence s) (env_now env) pl"
  have "outbox s' = outbox s @ [(p, ?d)]" "length pl \<le> 1176"
    using assms False
    by (auto simp: send_control_def send_packet_eq transport_send_def count_sent_def control_packet_def Let_def
        split: if_splits sum.splits)
  then show ?thesis
    unfolding hellos_only_def by (intro exI [of _ "[?d]"]) (auto simp: hello_datagram_def)
qed (rule hellos_only_same)

lemma client_loop_silent:
  assumes "client_loop K rnd s p pl n waiting evs = (out, s', rest)" and "\<forall>x \<in> set evs. silent (snd x)"
  shows "(\<forall>u. out \<noteq> Done (Inr u)) \<and> hellos_only p s s'"
  using assms
proof (induction K rnd s p pl n waiting evs rule: client_loop.induct)
  case (2 K rnd s p pl n waiting env ev evs)
  obtain r s1 where r: "(if waiting then (Inr (), s) else send_control env s HandshakeClientHello 0 pl p) = (r, s1)"
    by force
  have s1: "hellos_only p s s1"
    using r hello_sent by (auto simp: hellos_only_same split: if_splits)
  have IH: "(\<forall>u. out \<noteq> Done (Inr u)) \<and> hellos_only p s s'"
    if "ev = HsRecv x" "r = Inr ()" "client_loop K rnd s1 p pl (next_attempt n) False evs = (out, s', rest)"
      "\<not> next_attempt n > 6" "\<forall>d a. x \<noteq> RecvData d a" for x
    using that "2.prems"(2) "2.IH" r s1 hellos_only_trans by (cases x) fastforce+
  show ?case
    using "2.prems" r s1 IH
    by (auto simp: silent_def split: sum.splits hs_event.splits recv_event.splits if_splits)
qed (simp add: hellos_only_same)

lemma handshake_client_silent:
  assumes "handshake_client K rnd s p evs = (out, s', rest)" and "\<forall>x \<in> set evs. silent (snd x)"
  shows "(\<forall>u. out \<noteq> Done (Inr u)) \<and> hellos_only p s s'"
proof (cases "ClientHello_encode (client_hello_msg K rnd (s_config s)) (replicate ClientHello_SIZE 0)")
  case (Inr pl)
  then show ?thesis
    using assms client_loop_silent [of K rnd s p pl 0 False evs out s' rest] by (simp add: handshake_client_def)
qed (use assms in \<open>auto simp: handshake_client_def hellos_only_same\<close>)

lemma advance_outbox: "advance ev m s = (r, s') \<Longrightarrow> outbox s' = outbox s"
  by (auto simp: advance_def split: prod.splits sum.splits)

text \<open>C27: no call can start through the relay.  As long as nothing arrives, the client's handshake does not succeed, and
  every datagram it hands to the transport is a hello of session 0.  A relay that receives such a datagram, in whatever
  state and from whatever address, forwards nothing, answers nothing and does not register the sender.  So a client whose
  peer is the relay never gets an answer.\<close>

theorem handshake_blocked_by_relay:
  assumes "handshake K (ClientSide rnd) s p evs = (out, s', rest)" and "\<forall>x \<in> set evs. silent (snd x)"
  shows "out \<noteq> Done (Inr ()) \<and>
    (\<exists>ds. outbox s' = outbox s @ map (Pair p) ds \<and>
       (\<forall>d \<in> set ds. \<forall>env r a. sent (udp_datagram env r d a) = sent r \<and>
          routes (router (udp_datagram env r d a)) = routes (router r)))"
proof -
  obtain r s1 where start: "advance StartConnect ''cannot start handshake'' (s\<lparr>s_peer := Some p\<rparr>) = (r, s1)"
    by force
  have s1: "outbox s1 = outbox s"
    using advance_outbox [OF start] by simp
  have "out \<noteq> Done (Inr ()) \<and> hellos_only p s s'"
  proof (cases r)
    case Inl
    then show ?thesis
      using assms(1) start s1 by (auto simp: handshake_def hellos_only_same)
  next
    case Inr
    obtain out1 s2 rest1 where client: "handshake_client K rnd s1 p evs = (out1, s2, rest1)"
      by (cases "handshake_client K rnd s1 p evs")
    have "\<forall>u. out1 \<noteq> Done (Inr u)" "hellos_only p s s2"
      using handshake_client_silent [OF client assms(2)] s1 by (simp_all add: hellos_only_def)
    then show ?thesis
      using assms(1) start Inr client
      by (auto simp: handshake_def hellos_only_def transition_state_def split: outcome.splits sum.splits)
  qed
  then show ?thesis
    unfolding hellos_only_def by (auto simp: hello_dropped)
qed

theorem handshake_blocked_by_relay_witness:
  "\<exists>out s' rest ds. handshake demo_kx (ClientSide demo_cr) idle_session 20
       [(demo_env 1, HsRecv RecvTimeout), (demo_env 2, HsDeadline)] = (out, s', rest) \<and> out \<noteq> Done (Inr ()) \<and>
     outbox s' = outbox idle_session @ map (Pair 20) ds \<and>
     (\<forall>d \<in> set ds. sent (udp_datagram demo_relay_env demo_relay d 3) = sent demo_relay)"
proof -
  let ?evs = "[(demo_env 1, HsRecv RecvTimeout), (demo_env 2, HsDeadline)] :: nat hs_events"
  obtain out s' rest where hs: "handshake demo_kx (ClientSide demo_cr) idle_session 20 ?evs = (out, s', rest)"
    by (cases "handshake demo_kx (ClientSide demo_cr) idle_session 20 ?evs")
  have "\<forall>x \<in> set ?evs. silent (snd x)"
    by (simp add: silent_def)
  from handshake_blocked_by_relay [OF hs this, where 'b = nat] hs show ?thesis
    by blast
qed

end
