(* ===== verification/Fragment.thy ===== *)
theory Fragment
  imports Wire
begin

text \<open>
  \<open>gravital-talk-core/src/fragment.rs\<close>: the fragment sub-header (an instance of \<open>wire_codec\<close>) and
  the reassembler.  The reassembler is refined against its abstract meaning, the map from fragment
  index to the first payload received for it.
\<close>

section \<open>Fragment sub-header\<close>

record FragmentHeader =
  index :: u16
  total :: u16

definition FragmentHeader_SIZE :: nat where
  "FragmentHeader_SIZE = FRAGMENT_SUBHEADER_SIZE"

definition FragmentHeader_encode :: "FragmentHeader \<Rightarrow> bytes \<Rightarrow> Error + bytes" where
  "FragmentHeader_encode h buf =
     (if length buf < FragmentHeader_SIZE then Inl BufferTooSmall
      else Inr (let buf = write_at 0 (be16 (index h)) buf;
                    buf = write_at 2 (be16 (total h)) buf
                in buf))"

definition FragmentHeader_decode :: "bytes \<Rightarrow> Error + FragmentHeader" where
  "FragmentHeader_decode buf =
     (if length buf < FragmentHeader_SIZE then Inl MalformedPayload
      else let i = rd16 0 buf; t = rd16 2 buf in
        if t = 0 \<or> t > MAX_FRAGMENTS then Inl TooManyFragments
        else if i \<ge> t then Inl FragmentOutOfRange
        else Inr \<lparr>index = i, total = t\<rparr>)"

definition FragmentHeader_wf :: "FragmentHeader \<Rightarrow> bool" where
  "FragmentHeader_wf h \<longleftrightarrow> total h \<noteq> 0 \<and> total h \<le> MAX_FRAGMENTS \<and> index h < total h"

definition FragmentHeader_layout :: "FragmentHeader \<Rightarrow> bytes" where
  "FragmentHeader_layout h = be16 (index h) @ be16 (total h)"

lemmas FragmentHeader_defs = FragmentHeader_SIZE_def FragmentHeader_encode_def
  FragmentHeader_decode_def FragmentHeader_wf_def FragmentHeader_layout_def size_consts Let_def

lemma FragmentHeader_decode_sound:
  "FragmentHeader_decode buf = Inr m \<Longrightarrow>
     FragmentHeader_wf m \<and> take FragmentHeader_SIZE buf = FragmentHeader_layout m"
  by (auto simp: FragmentHeader_defs wire_sound not_less not_le
      simp flip: numeral_2_eq_2 split: if_splits)

interpretation fragment_header: wire_codec FragmentHeader_SIZE MalformedPayload
  FragmentHeader_wf FragmentHeader_layout FragmentHeader_encode FragmentHeader_decode
  by unfold_locales
     (auto dest: FragmentHeader_decode_sound,
      auto simp: FragmentHeader_defs wire not_less not_le simp del: append_Cons)

section \<open>Reassembler\<close>

record FragmentReassembler =
  expected_total :: u16
  buffers :: "bytes option list"
  received :: u16

definition FragmentReassembler_new :: "u16 \<Rightarrow> Error + FragmentReassembler" where
  "FragmentReassembler_new t =
     (if t = 0 \<or> t > MAX_FRAGMENTS then Inl TooManyFragments
      else Inr \<lparr>expected_total = t, buffers = replicate (unat t) None, received = 0\<rparr>)"

definition FragmentReassembler_insert ::
  "FragmentReassembler \<Rightarrow> u16 \<Rightarrow> bytes \<Rightarrow> Error + FragmentReassembler" where
  "FragmentReassembler_insert r i pl =
     (if i \<ge> expected_total r then Inl FragmentOutOfRange
      else if buffers r ! unat i \<noteq> None then Inl DuplicateFragment
      else Inr (r\<lparr>buffers := (buffers r)[unat i := Some pl], received := received r + 1\<rparr>))"

definition is_complete :: "FragmentReassembler \<Rightarrow> bool" where
  "is_complete r \<longleftrightarrow> received r = expected_total r"

definition FragmentReassembler_finish :: "FragmentReassembler \<Rightarrow> Error + bytes" where
  "FragmentReassembler_finish r =
     (if \<not> is_complete r then Inl IncompleteReassembly
      else Inr (foldl (@) [] (List.map_filter id (buffers r))))"

text \<open>A caller that keeps inserting, whatever each insertion answers.\<close>

primrec insert_all :: "FragmentReassembler \<Rightarrow> (u16 \<times> bytes) list \<Rightarrow> FragmentReassembler" where
  "insert_all r [] = r"
| "insert_all r (x # xs) =
     insert_all (case FragmentReassembler_insert r (fst x) (snd x) of Inl _ \<Rightarrow> r | Inr r' \<Rightarrow> r') xs"

section \<open>Refinement to a map from index to payload\<close>

definition filled :: "bytes option list \<Rightarrow> nat" where
  "filled bs = length (filter (\<lambda>b. b \<noteq> None) bs)"

definition reassembler_abs :: "FragmentReassembler \<Rightarrow> (nat \<rightharpoonup> bytes) \<Rightarrow> bool" where
  "reassembler_abs r m \<longleftrightarrow>
     expected_total r \<noteq> 0 \<and> expected_total r \<le> MAX_FRAGMENTS \<and>
     buffers r = map m [0..<unat (expected_total r)] \<and>
     received r = of_nat (filled (buffers r))"

lemma filled_update:
  "i < length bs \<Longrightarrow> bs ! i = None \<Longrightarrow> filled (bs[i := Some x]) = Suc (filled bs)"
  unfolding filled_def
  by (induction bs arbitrary: i) (auto simp: nth_Cons split: nat.splits)

lemma filled_le: "filled bs \<le> length bs"
  by (simp add: filled_def)

lemma filled_all: "filled bs = length bs \<longleftrightarrow> None \<notin> set bs"
proof (induction bs)
  case (Cons b bs)
  then show ?case
    using length_filter_le [of "\<lambda>b. b \<noteq> None" bs]
    by (cases b) (auto simp: filled_def simp del: length_filter_le)
qed (simp add: filled_def)

lemma foldl_append: "foldl (@) acc xss = acc @ concat xss"
  by (induction xss arbitrary: acc) simp_all

lemma concat_filled: "None \<notin> set bs \<Longrightarrow> foldl (@) [] (List.map_filter id bs) = concat (map the bs)"
proof -
  assume "None \<notin> set bs"
  then have "List.map_filter id bs = map the bs"
  proof (induction bs)
    case (Cons b bs)
    then show ?case by (cases b) (simp_all add: map_filter_simps)
  qed (simp add: map_filter_simps)
  then show ?thesis
    using foldl_append [of "[]"] by simp
qed

lemma new_abs: "FragmentReassembler_new t = Inr r \<Longrightarrow> reassembler_abs r Map.empty \<and> expected_total r = t"
  by (auto simp: FragmentReassembler_new_def reassembler_abs_def filled_def map_replicate_const
      split: if_splits)

lemma map_upt_update: "i < n \<Longrightarrow> (map m [0..<n])[i := x] = map (m(i := x)) [0..<n]"
  by (rule nth_equalityI) (auto simp: nth_list_update)

lemma insert_abs:
  assumes "reassembler_abs r m"
  shows "FragmentReassembler_insert r i pl =
     (if i \<ge> expected_total r then Inl FragmentOutOfRange
      else if m (unat i) \<noteq> None then Inl DuplicateFragment
      else Inr (r\<lparr>buffers := (buffers r)[unat i := Some pl], received := received r + 1\<rparr>))"
proof -
  have "buffers r ! unat i = m (unat i)" if "i < expected_total r"
    using assms that by (simp add: reassembler_abs_def word_less_nat_alt)
  then show ?thesis
    by (auto simp: FragmentReassembler_insert_def not_le)
qed

lemma insert_abs_step:
  assumes "reassembler_abs r m" and "FragmentReassembler_insert r i pl = Inr r'"
  shows "reassembler_abs r' (m(unat i \<mapsto> pl)) \<and> expected_total r' = expected_total r"
proof -
  have ok: "i < expected_total r" "m (unat i) = None"
    and r': "r' = r\<lparr>buffers := (buffers r)[unat i := Some pl], received := received r + 1\<rparr>"
    using assms by (auto simp: insert_abs split: if_splits)
  then have i: "unat i < unat (expected_total r)"
    by (simp add: word_less_nat_alt)
  moreover have "filled ((buffers r)[unat i := Some pl]) = Suc (filled (buffers r))"
    using assms(1) ok(2) i by (intro filled_update) (simp_all add: reassembler_abs_def)
  ultimately show ?thesis
    using assms(1) unfolding reassembler_abs_def r' by (simp add: map_upt_update)
qed

lemma finish_abs:
  assumes "reassembler_abs r m"
  shows "FragmentReassembler_finish r =
     (if \<forall>i < unat (expected_total r). m i \<noteq> None
      then Inr (concat (map (the \<circ> m) [0..<unat (expected_total r)]))
      else Inl IncompleteReassembly)"
proof -
  let ?n = "unat (expected_total r)"
  have len: "length (buffers r) = ?n" and small: "?n \<le> 16"
    using assms by (auto simp: reassembler_abs_def MAX_FRAGMENTS_def word_le_nat_alt)
  have "filled (buffers r) \<le> 16"
    using filled_le [of "buffers r"] len small by simp
  then have "is_complete r \<longleftrightarrow> filled (buffers r) = ?n"
    using assms small unfolding is_complete_def reassembler_abs_def
    by (simp add: of_nat_eq_word_iff)
  also have "\<dots> \<longleftrightarrow> None \<notin> set (buffers r)"
    using filled_all [of "buffers r"] len by simp
  also have "\<dots> \<longleftrightarrow> (\<forall>i < ?n. m i \<noteq> None)"
    using assms by (force simp: reassembler_abs_def)
  finally have compl: "is_complete r \<longleftrightarrow> (\<forall>i < ?n. m i \<noteq> None)" .
  have "None \<notin> set (map m [0..<?n])" if "\<forall>i < ?n. m i \<noteq> None"
    using that by force
  with compl show ?thesis
    using assms by (simp add: FragmentReassembler_finish_def concat_filled reassembler_abs_def)
qed

lemma reassembler_abs_cong:
  "reassembler_abs r m \<Longrightarrow> (\<And>i. i < unat (expected_total r) \<Longrightarrow> m i = m' i) \<Longrightarrow> reassembler_abs r m'"
  by (auto simp: reassembler_abs_def)

text \<open>The first payload inserted for an index stays; later ones are refused as duplicates.\<close>

lemma insert_all_abs:
  assumes "reassembler_abs r m"
  shows "reassembler_abs (insert_all r ops)
           (\<lambda>i. case m i of Some p \<Rightarrow> Some p | None \<Rightarrow> map_of ops (of_nat i)) \<and>
         expected_total (insert_all r ops) = expected_total r"
  using assms
proof (induction ops arbitrary: r m)
  case Nil
  then show ?case
    by (auto elim!: reassembler_abs_cong split: option.splits)
next
  case (Cons x ops)
  obtain i pl where x: "x = (i, pl)" by force
  let ?n = "unat (expected_total r)"
  have small: "?n \<le> 16"
    using Cons.prems by (simp add: reassembler_abs_def MAX_FRAGMENTS_def word_le_nat_alt)
  have idx: "i = of_nat j \<longleftrightarrow> unat i = j" if "j < ?n" for j
    using that small of_nat_eq_word_iff [of j i] by auto
  show ?case
  proof (cases "FragmentReassembler_insert r i pl")
    case (Inl e)
    then have "unat i < ?n \<Longrightarrow> m (unat i) \<noteq> None"
      using Cons.prems by (auto simp: insert_abs word_le_nat_alt split: if_splits)
    then show ?thesis
      using Cons.IH [OF Cons.prems] Inl
      by (auto simp: x idx elim!: reassembler_abs_cong split: option.splits)
  next
    case (Inr r')
    have step: "reassembler_abs r' (m(unat i \<mapsto> pl))" "expected_total r' = expected_total r"
      using insert_abs_step [OF Cons.prems Inr] by simp_all
    have "m (unat i) = None"
      using Inr Cons.prems by (auto simp: insert_abs split: if_splits)
    then show ?thesis
      using Cons.IH [OF step(1)] step(2) Inr
      by (auto simp: x idx elim!: reassembler_abs_cong split: option.splits)
  qed
qed

section \<open>Properties\<close>

text \<open>The fragment sub-header codec is exact: the decoder accepts a buffer as a header exactly when the
  total is between 1 and 16, the index below the total, and encoding the header into the buffer changes nothing.\<close>

lemma fragment_header_exact:
  "FragmentHeader_decode buf = Inr h \<longleftrightarrow>
     total h \<noteq> 0 \<and> total h \<le> MAX_FRAGMENTS \<and> index h < total h \<and> 4 \<le> length buf \<and>
     FragmentHeader_encode h buf = Inr buf"
  using fragment_header.decode_iff [of buf h] by (auto simp: FragmentHeader_wf_def FragmentHeader_defs)

text \<open>C24: reassembly.  Start a reassembler for \<open>t\<close> fragments and insert any sequence of fragments, in any
  order, with duplicates and out-of-range indices among them.  Finishing succeeds exactly when every index below
  \<open>t\<close> occurred, and the frame is then the concatenation, in index order, of the first payload
  received for each index; otherwise it reports an incomplete reassembly.\<close>

theorem reassembly_correct:
  assumes "FragmentReassembler_new t = Inr r"
  shows "FragmentReassembler_finish (insert_all r ops) =
     (if \<forall>i < unat t. of_nat i \<in> fst ` set ops
      then Inr (concat (map (\<lambda>i. the (map_of ops (of_nat i))) [0..<unat t]))
      else Inl IncompleteReassembly)"
proof -
  have abs: "reassembler_abs (insert_all r ops) (\<lambda>i. map_of ops (of_nat i))"
    and t: "expected_total (insert_all r ops) = t"
    using new_abs [OF assms] insert_all_abs [of r Map.empty ops] by simp_all
  show ?thesis
    using finish_abs [OF abs] by (simp add: t map_of_eq_None_iff comp_def)
qed

theorem reassembly_correct_witness:
  "\<exists>r. FragmentReassembler_new 3 = Inr r \<and>
     FragmentReassembler_finish (insert_all r [(2, [5]), (0, [1, 2]), (2, [9]), (7, [8]), (1, [3, 4])])
       = Inr [1, 2, 3, 4, 5]"
proof -
  let ?r = "\<lparr>expected_total = 3, buffers = [None, None, None], received = 0\<rparr>"
  let ?ops = "[(2, [5]), (0, [1, 2]), (2, [9]), (7, [8]), (1, [3, 4])]"
  have new: "FragmentReassembler_new 3 = Inr ?r"
    by code_simp
  have "\<forall>i < 3. (of_nat i :: u16) \<in> fst ` set ?ops"
    by (auto simp: numeral_3_eq_3 less_Suc_eq)
  then show ?thesis
    using new reassembly_correct [OF new, of ?ops] by (simp add: upt_rec)
qed

end
