(* ===== verification/Floor.thy ===== *)
theory Floor
  imports Wire
begin

text \<open>
  \<open>gravital-talk-core/src/floor.rs\<close>: the push-to-talk floor controller and its payload (an
  instance of \<open>wire_codec\<close>).  The accepted events of a controller are an inductive relation; the
  invariant ties the state and the recorded holder to the last accepted event.
\<close>

section \<open>Controller\<close>

definition FLOOR_TIMEOUT_MS :: u64 where
  "FLOOR_TIMEOUT_MS = 30000"

datatype FloorState =
    F_Idle
  | F_Requested
  | F_Granted
  | F_Released

datatype FloorEvent =
    F_Request
  | F_Grant
  | F_Deny
  | F_Release
  | F_Taken
  | F_Timeout
  | F_Reset

record FloorTransitionError =
  fte_from :: FloorState
  fte_event :: FloorEvent

record FloorController =
  fc_state :: FloorState
  holder_ssrc :: u32
  max_transmit_ms :: u64

definition FloorController_new :: "u64 \<Rightarrow> FloorController" where
  "FloorController_new max_ms = \<lparr>fc_state = F_Idle, holder_ssrc = 0, max_transmit_ms = max_ms\<rparr>"

definition FloorController_default :: FloorController where
  "FloorController_default = FloorController_new FLOOR_TIMEOUT_MS"

definition is_available :: "FloorController \<Rightarrow> bool" where
  "is_available c \<longleftrightarrow> fc_state c = F_Idle \<or> fc_state c = F_Released"

definition is_granted :: "FloorController \<Rightarrow> bool" where
  "is_granted c \<longleftrightarrow> fc_state c = F_Granted"

definition is_holder :: "FloorController \<Rightarrow> u32 \<Rightarrow> bool" where
  "is_holder c ssrc \<longleftrightarrow> fc_state c = F_Granted \<and> holder_ssrc c = ssrc"

text \<open>The arms of \<open>transition\<close> give the next state and the new holder; \<open>None\<close> for the holder leaves
  it alone.\<close>

definition floor_next :: "FloorState \<Rightarrow> FloorEvent \<Rightarrow> u32 \<Rightarrow> (FloorState \<times> u32 option) option" where
  "floor_next s ev ssrc = (case (s, ev) of
       (F_Idle, F_Request) \<Rightarrow> Some (F_Requested, Some ssrc)
     | (F_Idle, F_Reset) \<Rightarrow> Some (F_Idle, None)
     | (F_Idle, F_Grant) \<Rightarrow> Some (F_Granted, Some ssrc)
     | (F_Requested, F_Grant) \<Rightarrow> Some (F_Granted, Some ssrc)
     | (F_Requested, F_Deny) \<Rightarrow> Some (F_Idle, Some 0)
     | (F_Requested, F_Taken) \<Rightarrow> Some (F_Granted, Some ssrc)
     | (F_Requested, F_Reset) \<Rightarrow> Some (F_Idle, Some 0)
     | (F_Requested, F_Timeout) \<Rightarrow> Some (F_Idle, Some 0)
     | (F_Granted, F_Release) \<Rightarrow> Some (F_Released, Some 0)
     | (F_Granted, F_Timeout) \<Rightarrow> Some (F_Released, Some 0)
     | (F_Granted, F_Taken) \<Rightarrow> Some (F_Granted, Some ssrc)
     | (F_Granted, F_Reset) \<Rightarrow> Some (F_Idle, Some 0)
     | (F_Released, F_Reset) \<Rightarrow> Some (F_Idle, Some 0)
     | (F_Released, F_Release) \<Rightarrow> Some (F_Idle, Some 0)
     | (F_Released, F_Request) \<Rightarrow> Some (F_Requested, Some ssrc)
     | (F_Released, F_Grant) \<Rightarrow> Some (F_Granted, Some ssrc)
     | _ \<Rightarrow> None)"

definition FloorController_transition ::
  "FloorController \<Rightarrow> FloorEvent \<Rightarrow> u32 \<Rightarrow> (FloorTransitionError + FloorState) \<times> FloorController" where
  "FloorController_transition c ev ssrc =
     (case floor_next (fc_state c) ev ssrc of
        None \<Rightarrow> (Inl \<lparr>fte_from = fc_state c, fte_event = ev\<rparr>, c)
      | Some (next, None) \<Rightarrow> (Inr next, c\<lparr>fc_state := next\<rparr>)
      | Some (next, Some h) \<Rightarrow> (Inr next, c\<lparr>holder_ssrc := h, fc_state := next\<rparr>))"

definition floor_step :: "FloorController \<Rightarrow> FloorEvent \<Rightarrow> u32 \<Rightarrow> FloorController" where
  "floor_step c ev ssrc = snd (FloorController_transition c ev ssrc)"

text \<open>The accepted events of a controller created with a given timeout, latest first.\<close>

inductive floor_trace :: "FloorController \<Rightarrow> (FloorEvent \<times> u32) list \<Rightarrow> bool" where
  start: "floor_trace (FloorController_new t) []"
| step: "floor_trace c log \<Longrightarrow> FloorController_transition c ev ssrc = (Inr s, c') \<Longrightarrow>
    floor_trace c' ((ev, ssrc) # log)"

section \<open>Payload\<close>

record FloorPayload =
  fp_ssrc :: u32

definition FloorPayload_SIZE :: nat where
  "FloorPayload_SIZE = 4"

definition FloorPayload_encode :: "FloorPayload \<Rightarrow> bytes \<Rightarrow> Error + bytes" where
  "FloorPayload_encode m buf =
     (if length buf < FloorPayload_SIZE then Inl BufferTooSmall
      else Inr (write_at 0 (be32 (fp_ssrc m)) buf))"

definition FloorPayload_decode :: "bytes \<Rightarrow> Error + FloorPayload" where
  "FloorPayload_decode buf =
     (if length buf < FloorPayload_SIZE then Inl MalformedPayload
      else Inr \<lparr>fp_ssrc = rd32 0 buf\<rparr>)"

definition FloorPayload_layout :: "FloorPayload \<Rightarrow> bytes" where
  "FloorPayload_layout m = be32 (fp_ssrc m)"

lemmas FloorPayload_defs = FloorPayload_SIZE_def FloorPayload_encode_def FloorPayload_decode_def
  FloorPayload_layout_def

lemma FloorPayload_decode_sound:
  "FloorPayload_decode buf = Inr m \<Longrightarrow> take FloorPayload_SIZE buf = FloorPayload_layout m"
  by (auto simp: FloorPayload_defs wire_sound split: if_splits)

interpretation floor_payload: wire_codec FloorPayload_SIZE MalformedPayload "\<lambda>_. True"
  FloorPayload_layout FloorPayload_encode FloorPayload_decode
  by unfold_locales
     (auto dest: FloorPayload_decode_sound, simp_all add: FloorPayload_defs wire)

section \<open>Who holds the floor\<close>

definition floor_inv :: "FloorController \<Rightarrow> (FloorEvent \<times> u32) list \<Rightarrow> bool" where
  "floor_inv c log = (case fc_state c of
       F_Idle \<Rightarrow> holder_ssrc c = 0
     | F_Released \<Rightarrow> holder_ssrc c = 0
     | F_Requested \<Rightarrow> (\<exists>log'. log = (F_Request, holder_ssrc c) # log')
     | F_Granted \<Rightarrow> (\<exists>ev log'. ev \<in> {F_Grant, F_Taken} \<and> log = (ev, holder_ssrc c) # log'))"

lemma transition_inv:
  assumes "floor_inv c log" and "FloorController_transition c ev ssrc = (Inr s, c')"
  shows "floor_inv c' ((ev, ssrc) # log)"
  using assms
  by (cases "fc_state c"; cases ev)
     (auto simp: FloorController_transition_def floor_next_def floor_inv_def)

lemma floor_trace_inv: "floor_trace c log \<Longrightarrow> floor_inv c log"
proof (induction rule: floor_trace.induct)
  case (start t)
  then show ?case
    by (simp add: floor_inv_def FloorController_new_def)
qed (rule transition_inv)

lemma transition_total:
  "FloorController_transition c ev ssrc = (Inl e, c') \<Longrightarrow>
     c' = c \<and> fte_from e = fc_state c \<and> fte_event e = ev"
  by (auto simp: FloorController_transition_def split: option.splits prod.splits)

lemmas floor_step_defs = floor_step_def FloorController_transition_def floor_next_def

section \<open>Properties\<close>

text \<open>The floor controller's record of the holder.  In every state reached by accepted events, an available
  floor (idle or released) has no holder; a requested floor stores the participant of the request, which is the
  last accepted event; and a granted floor is held by exactly the participant named in the last accepted
  event, which is a grant or a take-over.\<close>

lemma floor_holder_is_last_grant:
  assumes "floor_trace c log"
  shows "(is_available c \<longrightarrow> holder_ssrc c = 0) \<and>
         (fc_state c = F_Requested \<longrightarrow> (\<exists>log'. log = (F_Request, holder_ssrc c) # log')) \<and>
         (is_holder c ssrc \<longrightarrow> (\<exists>log'. log = (F_Grant, ssrc) # log' \<or> log = (F_Taken, ssrc) # log'))"
  using floor_trace_inv [OF assms]
  by (auto simp: floor_inv_def is_available_def is_holder_def)

lemma floor_holder_is_last_grant_witness:
  "\<exists>c log'. is_holder c 7 \<and> [(F_Grant, 7), (F_Request, 7)] = (F_Grant, 7) # log'"
proof -
  have "floor_trace \<lparr>fc_state = F_Requested, holder_ssrc = 7, max_transmit_ms = 5\<rparr> [(F_Request, 7)]"
    by (rule floor_trace.step [OF floor_trace.start [of 5]])
       (simp add: FloorController_new_def FloorController_transition_def floor_next_def)
  then have "floor_trace \<lparr>fc_state = F_Granted, holder_ssrc = 7, max_transmit_ms = 5\<rparr>
      [(F_Grant, 7), (F_Request, 7)]"
    by (rule floor_trace.step) (simp add: FloorController_transition_def floor_next_def)
  from floor_holder_is_last_grant [OF this, of 7] show ?thesis
    by (intro exI [of _ "\<lparr>fc_state = F_Granted, holder_ssrc = 7, max_transmit_ms = 5\<rparr>"])
       (auto simp: is_holder_def)
qed

text \<open>The floor's payload codec is exact, and a floor is never stuck: from every state a reset makes the floor
  available with no holder, and a grant of an available or requested floor makes the named participant, and
  nobody else, the holder.\<close>

lemma floor_never_stuck:
  "(FloorPayload_decode buf = Inr m \<longleftrightarrow> 4 \<le> length buf \<and> FloorPayload_encode m buf = Inr buf) \<and>
   fc_state (floor_step c F_Reset x) = F_Idle \<and>
   (fc_state c \<noteq> F_Idle \<longrightarrow> holder_ssrc (floor_step c F_Reset x) = 0) \<and>
   (fc_state c \<noteq> F_Granted \<longrightarrow> (is_holder (floor_step c F_Grant a) b \<longleftrightarrow> b = a)) \<and>
   (fc_state c = F_Granted \<longrightarrow> floor_step c F_Grant a = c \<and> is_holder (floor_step c F_Taken a) a)"
proof -
  have "FloorPayload_decode buf = Inr m \<longleftrightarrow> 4 \<le> length buf \<and> FloorPayload_encode m buf = Inr buf"
    using floor_payload.decode_iff [of buf m] by (simp add: FloorPayload_SIZE_def)
  then show ?thesis
    by (cases "fc_state c") (auto simp: floor_step_defs is_holder_def)
qed

lemma floor_never_stuck_witness:
  "is_holder (floor_step (FloorController_new 30000) F_Grant 9) 9 \<and>
   \<not> is_holder (floor_step (FloorController_new 30000) F_Grant 9) 8"
  using floor_never_stuck [of "[]" _ "FloorController_new 30000" 0 9 9]
    floor_never_stuck [of "[]" _ "FloorController_new 30000" 0 9 8]
  by (simp add: FloorController_new_def)

end
