(* ===== verification/Identity.thy ===== *)
theory Identity
  imports Message
begin

text \<open>
  \<open>gravital-talk-core/src/identity.rs\<close>: challenge-response authentication.  The signature scheme
  (ed25519-dalek) is a parameter; \<open>ed25519_ok\<close> is its documented correctness.  Both builds are
  modelled: with the feature \<open>identity\<close>, and the stub without it.
\<close>

section \<open>Payloads\<close>

record AuthChallengePayload =
  acp_nonce :: bytes

definition AuthChallengePayload_SIZE :: nat where
  "AuthChallengePayload_SIZE = 32"

definition AuthChallengePayload_encode :: "AuthChallengePayload \<Rightarrow> bytes \<Rightarrow> Error + bytes" where
  "AuthChallengePayload_encode m buf =
     (if length buf < AuthChallengePayload_SIZE then Inl BufferTooSmall
      else Inr (write_at 0 (acp_nonce m) buf))"

definition AuthChallengePayload_decode :: "bytes \<Rightarrow> Error + AuthChallengePayload" where
  "AuthChallengePayload_decode buf =
     (if length buf < AuthChallengePayload_SIZE then Inl MalformedPayload
      else Inr \<lparr>acp_nonce = subslice 0 32 buf\<rparr>)"

definition AuthChallengePayload_wf :: "AuthChallengePayload \<Rightarrow> bool" where
  "AuthChallengePayload_wf m \<longleftrightarrow> length (acp_nonce m) = 32"

record AuthResponsePayload =
  arp_public_key :: bytes
  arp_signature :: bytes

definition AuthResponsePayload_SIZE :: nat where
  "AuthResponsePayload_SIZE = 96"

definition AuthResponsePayload_encode :: "AuthResponsePayload \<Rightarrow> bytes \<Rightarrow> Error + bytes" where
  "AuthResponsePayload_encode m buf =
     (if length buf < AuthResponsePayload_SIZE then Inl BufferTooSmall
      else Inr (let buf = write_at 0 (arp_public_key m) buf;
                    buf = write_at 32 (arp_signature m) buf
                in buf))"

definition AuthResponsePayload_decode :: "bytes \<Rightarrow> Error + AuthResponsePayload" where
  "AuthResponsePayload_decode buf =
     (if length buf < AuthResponsePayload_SIZE then Inl MalformedPayload
      else Inr \<lparr>arp_public_key = subslice 0 32 buf, arp_signature = subslice 32 96 buf\<rparr>)"

definition AuthResponsePayload_wf :: "AuthResponsePayload \<Rightarrow> bool" where
  "AuthResponsePayload_wf m \<longleftrightarrow> length (arp_public_key m) = 32 \<and> length (arp_signature m) = 64"

definition AuthResponsePayload_layout :: "AuthResponsePayload \<Rightarrow> bytes" where
  "AuthResponsePayload_layout m = arp_public_key m @ arp_signature m"

lemmas AuthChallengePayload_defs = AuthChallengePayload_SIZE_def AuthChallengePayload_encode_def
  AuthChallengePayload_decode_def AuthChallengePayload_wf_def

lemmas AuthResponsePayload_defs = AuthResponsePayload_SIZE_def AuthResponsePayload_encode_def
  AuthResponsePayload_decode_def AuthResponsePayload_wf_def AuthResponsePayload_layout_def

interpretation challenge_payload: wire_codec AuthChallengePayload_SIZE MalformedPayload
  AuthChallengePayload_wf acp_nonce AuthChallengePayload_encode AuthChallengePayload_decode
  by unfold_locales (auto simp: AuthChallengePayload_defs wire take_eq_subslice split: if_splits)

interpretation response_payload: wire_codec AuthResponsePayload_SIZE MalformedPayload
  AuthResponsePayload_wf AuthResponsePayload_layout
  AuthResponsePayload_encode AuthResponsePayload_decode
  by unfold_locales
     (auto simp: AuthResponsePayload_defs wire take_eq_subslice subslice_join split: if_splits)

section \<open>Identities\<close>

text \<open>The operations of the signature crate that the code calls.  A signing key is its 32 secret bytes
  (\<open>SigningKey::from_bytes\<close> and \<open>to_bytes\<close> are inverse).\<close>

record ed25519 =
  ed_public :: "bytes \<Rightarrow> bytes"
  ed_sign :: "bytes \<Rightarrow> bytes \<Rightarrow> bytes"
  ed_key_valid :: "bytes \<Rightarrow> bool"
  ed_signature_valid :: "bytes \<Rightarrow> bool"
  ed_verify :: "bytes \<Rightarrow> bytes \<Rightarrow> bytes \<Rightarrow> bool"

definition ed25519_ok :: "ed25519 \<Rightarrow> bool" where
  "ed25519_ok E \<longleftrightarrow> (\<forall>sk msg. length sk = 32 \<longrightarrow>
     length (ed_public E sk) = 32 \<and> length (ed_sign E sk msg) = 64 \<and>
     ed_key_valid E (ed_public E sk) \<and> ed_signature_valid E (ed_sign E sk msg) \<and>
     ed_verify E (ed_public E sk) msg (ed_sign E sk msg))"

record IdentityPublic =
  ip_bytes :: bytes

definition IdentityPublic_verify :: "ed25519 \<Rightarrow> IdentityPublic \<Rightarrow> bytes \<Rightarrow> bytes \<Rightarrow> bool" where
  "IdentityPublic_verify E self message signature_bytes =
     (if \<not> ed_key_valid E (ip_bytes self) then False
      else if \<not> ed_signature_valid E signature_bytes then False
      else ed_verify E (ip_bytes self) message signature_bytes)"

record Identity =
  signing_key :: bytes

definition Identity_from_bytes :: "bytes \<Rightarrow> Identity" where
  "Identity_from_bytes secret_bytes = \<lparr>signing_key = secret_bytes\<rparr>"

definition Identity_to_bytes :: "Identity \<Rightarrow> bytes" where
  "Identity_to_bytes self = signing_key self"

definition Identity_public :: "ed25519 \<Rightarrow> Identity \<Rightarrow> IdentityPublic" where
  "Identity_public E self = \<lparr>ip_bytes = ed_public E (signing_key self)\<rparr>"

definition Identity_sign :: "ed25519 \<Rightarrow> Identity \<Rightarrow> bytes \<Rightarrow> bytes" where
  "Identity_sign E self message = ed_sign E (signing_key self) message"

definition respond_to_challenge :: "ed25519 \<Rightarrow> Identity \<Rightarrow> bytes \<Rightarrow> AuthResponsePayload" where
  "respond_to_challenge E self nonce =
     \<lparr>arp_public_key = ip_bytes (Identity_public E self), arp_signature = Identity_sign E self nonce\<rparr>"

text \<open>The build without the feature: nothing verifies, and every identity has the same public key.\<close>

definition stub_verify :: "IdentityPublic \<Rightarrow> bytes \<Rightarrow> bytes \<Rightarrow> bool" where
  "stub_verify self message signature_bytes \<longleftrightarrow> False"

definition stub_generate :: Identity where
  "stub_generate = \<lparr>signing_key = replicate 32 0\<rparr>"

definition stub_public :: "Identity \<Rightarrow> IdentityPublic" where
  "stub_public self = \<lparr>ip_bytes = replicate 32 0\<rparr>"

definition stub_sign :: "Identity \<Rightarrow> bytes \<Rightarrow> bytes" where
  "stub_sign self message = replicate 64 0"

definition stub_respond_to_challenge :: "Identity \<Rightarrow> bytes \<Rightarrow> AuthResponsePayload" where
  "stub_respond_to_challenge self nonce =
     \<lparr>arp_public_key = replicate 32 0, arp_signature = replicate 64 0\<rparr>"

text \<open>A concrete scheme for examples: the key signs by repeating itself.\<close>

definition echo_ed25519 :: ed25519 where
  "echo_ed25519 = \<lparr>ed_public = id, ed_sign = (\<lambda>sk msg. sk @ sk), ed_key_valid = (\<lambda>_. True),
     ed_signature_valid = (\<lambda>_. True), ed_verify = (\<lambda>pk msg sig. sig = pk @ pk)\<rparr>"

lemma echo_ed25519_ok: "ed25519_ok echo_ed25519"
  by (simp add: ed25519_ok_def echo_ed25519_def)

section \<open>Properties\<close>

text \<open>Challenge and response across the wire.  The server's challenge and the client's response survive
  encoding into any large enough buffers and decoding, and the decoded signature verifies under the
  decoded public key for the decoded nonce, which is the identity's own public key.\<close>

lemma challenge_response_accepted:
  assumes "ed25519_ok E" and "length sk = 32" and "length nonce = 32"
    and "32 \<le> length buf" and "96 \<le> length buf'"
  shows "\<exists>b c b' r. AuthChallengePayload_encode \<lparr>acp_nonce = nonce\<rparr> buf = Inr b \<and>
     AuthChallengePayload_decode b = Inr c \<and>
     AuthResponsePayload_encode (respond_to_challenge E (Identity_from_bytes sk) (acp_nonce c)) buf' = Inr b' \<and>
     AuthResponsePayload_decode b' = Inr r \<and>
     \<lparr>ip_bytes = arp_public_key r\<rparr> = Identity_public E (Identity_from_bytes sk) \<and>
     IdentityPublic_verify E \<lparr>ip_bytes = arp_public_key r\<rparr> nonce (arp_signature r)"
proof -
  let ?r = "respond_to_challenge E (Identity_from_bytes sk) nonce"
  note defs = respond_to_challenge_def Identity_public_def Identity_sign_def Identity_from_bytes_def
  have "AuthResponsePayload_wf ?r"
    using assms by (simp add: AuthResponsePayload_wf_def defs ed25519_ok_def)
  then obtain b' where "AuthResponsePayload_encode ?r buf' = Inr b'" "AuthResponsePayload_decode b' = Inr ?r"
    using response_payload.roundtrip assms(5) unfolding AuthResponsePayload_SIZE_def by blast
  moreover obtain b where "AuthChallengePayload_encode \<lparr>acp_nonce = nonce\<rparr> buf = Inr b"
    "AuthChallengePayload_decode b = Inr \<lparr>acp_nonce = nonce\<rparr>"
    using challenge_payload.roundtrip [of "\<lparr>acp_nonce = nonce\<rparr>" buf] assms(3,4)
    by (auto simp: AuthChallengePayload_SIZE_def AuthChallengePayload_wf_def)
  moreover have "IdentityPublic_verify E \<lparr>ip_bytes = arp_public_key ?r\<rparr> nonce (arp_signature ?r)"
    using assms by (simp add: IdentityPublic_verify_def defs ed25519_ok_def)
  ultimately show ?thesis
    by (fastforce simp: defs)
qed

lemma challenge_response_accepted_witness:
  "\<exists>b' r. AuthResponsePayload_encode
       (respond_to_challenge echo_ed25519 (Identity_from_bytes (replicate 32 7)) (replicate 32 1))
       (replicate 96 0) = Inr b' \<and>
     AuthResponsePayload_decode b' = Inr r \<and>
     IdentityPublic_verify echo_ed25519 \<lparr>ip_bytes = arp_public_key r\<rparr> (replicate 32 1) (arp_signature r)"
  using challenge_response_accepted [OF echo_ed25519_ok, of "replicate 32 7" "replicate 32 1"
      "replicate 32 0" "replicate 96 0"]
  by (auto simp: AuthChallengePayload_defs wire subslice_def)

end
