(* ===== verification/Stun.thy ===== *)
theory Stun
  imports Prelude
begin

unbundle bit_operations_syntax

text \<open>
  \<open>gravital-talk-transport/src/stun.rs\<close>: the STUN binding request and the parser of the response,
  a loop over attributes of attacker-chosen lengths.  The loop is a recursive function with its
  termination proof.  Proved: the parser accepts only answers to the request that was sent, finds the
  mapped address behind any other attributes, and reads nothing behind the declared message length.
\<close>

section \<open>Messages\<close>

definition MAGIC_COOKIE :: u32 where
  "MAGIC_COOKIE = 0x2112A442"

definition BINDING_REQUEST :: u16 where
  "BINDING_REQUEST = 0x0001"

definition BINDING_RESPONSE :: u16 where
  "BINDING_RESPONSE = 0x0101"

definition ATTR_XOR_MAPPED_ADDRESS :: u16 where
  "ATTR_XOR_MAPPED_ADDRESS = 0x0020"

definition ATTR_MAPPED_ADDRESS :: u16 where
  "ATTR_MAPPED_ADDRESS = 0x0001"

definition FAMILY_IPV4 :: u8 where
  "FAMILY_IPV4 = 0x01"

lemmas stun_consts = MAGIC_COOKIE_def BINDING_REQUEST_def BINDING_RESPONSE_def
  ATTR_XOR_MAPPED_ADDRESS_def ATTR_MAPPED_ADDRESS_def FAMILY_IPV4_def

text \<open>An IPv4 socket address.\<close>

record SocketAddrV4 =
  sa_ip :: u32
  sa_port :: u16

definition build_binding_request :: "bytes \<Rightarrow> bytes" where
  "build_binding_request tx_id =
     (let pkt = replicate 20 0;
          pkt = write_at 0 (be16 BINDING_REQUEST) pkt;
          pkt = write_at 2 (be16 0) pkt;
          pkt = write_at 4 (be32 MAGIC_COOKIE) pkt;
          pkt = write_at 8 tx_id pkt
      in pkt)"

definition parse_xor_mapped_address :: "bytes \<Rightarrow> SocketAddrV4 option" where
  "parse_xor_mapped_address val =
     (if length val < 8 then None
      else let family = val ! 1 in
        if family \<noteq> FAMILY_IPV4 then None
        else let x_port = rd16 2 val;
                 port = x_port XOR ucast (drop_bit 16 MAGIC_COOKIE);
                 x_addr = rd32 4 val;
                 addr = x_addr XOR MAGIC_COOKIE
             in Some \<lparr>sa_ip = addr, sa_port = port\<rparr>)"

definition parse_mapped_address :: "bytes \<Rightarrow> SocketAddrV4 option" where
  "parse_mapped_address val =
     (if length val < 8 then None
      else let family = val ! 1 in
        if family \<noteq> FAMILY_IPV4 then None
        else Some \<lparr>sa_ip = from_be32 (val ! 4) (val ! 5) (val ! 6) (val ! 7), sa_port = rd16 2 val\<rparr>)"

text \<open>\<open>(attr_len + 3) & !3\<close>: the next multiple of four.\<close>

definition padded :: "nat \<Rightarrow> nat" where
  "padded n = (n + 3) div 4 * 4"

text \<open>The \<open>while\<close> loop over the attributes; \<open>pos\<close> grows by at least four in every round.\<close>

function parse_attrs :: "bytes \<Rightarrow> nat \<Rightarrow> nat \<Rightarrow> SocketAddrV4 option \<Rightarrow> SocketAddrV4 option" where
  "parse_attrs buf pos end fallback =
     (if pos + 4 \<le> end then
        (let attr_type = rd16 pos buf;
             attr_len = unat (rd16 (pos + 2) buf);
             pos = pos + 4
         in if pos + attr_len > end then fallback
            else let attr_val = subslice pos (pos + attr_len) buf in
              if attr_type = ATTR_XOR_MAPPED_ADDRESS \<and> parse_xor_mapped_address attr_val \<noteq> None
              then parse_xor_mapped_address attr_val
              else let fallback =
                         (if attr_type = ATTR_MAPPED_ADDRESS \<and> parse_mapped_address attr_val \<noteq> None
                          then parse_mapped_address attr_val else fallback)
                   in parse_attrs buf (pos + padded attr_len) end fallback)
      else fallback)"
  by pat_completeness auto

termination
  by (relation "measure (\<lambda>(buf, pos, end, fallback). end - pos)") auto

declare parse_attrs.simps [simp del]

definition parse_binding_response :: "bytes \<Rightarrow> bytes \<Rightarrow> SocketAddrV4 option" where
  "parse_binding_response buf expected_tx_id =
     (if length buf < 20 then None
      else if rd16 0 buf \<noteq> BINDING_RESPONSE then None
      else let msg_len = unat (rd16 2 buf) in
        if length buf < 20 + msg_len then None
        else if rd32 4 buf \<noteq> MAGIC_COOKIE then None
        else if subslice 8 20 buf \<noteq> expected_tx_id then None
        else parse_attrs buf 20 (20 + msg_len) None)"

section \<open>Asking the servers\<close>

definition STUN_SERVERS :: "string list" where
  "STUN_SERVERS = [''stun.l.google.com:19302'', ''stun1.l.google.com:19302'', ''stun2.l.google.com:19302'']"

datatype StunError = StunIo string | StunTimedOut | StunMalformed | StunResolve string

datatype stun_event = StunData bytes | StunRecvError string

text \<open>The receive loop over what arrives within five seconds: the first datagram that parses is the answer, the others are
  ignored.  The buffer has 512 bytes, longer datagrams are cut.  The result \<open>None\<close> is the timeout.\<close>

fun stun_receive :: "bytes \<Rightarrow> stun_event list \<Rightarrow> (StunError + SocketAddrV4) option" where
  "stun_receive tx_id [] = None"
| "stun_receive tx_id (StunRecvError e # evs) = Some (Inl (StunIo e))"
| "stun_receive tx_id (StunData d # evs) =
     (case parse_binding_response (take 512 d) tx_id of
        Some addr \<Rightarrow> Some (Inr addr)
      | None \<Rightarrow> stun_receive tx_id evs)"

definition do_stun_exchange :: "string option \<Rightarrow> bytes \<Rightarrow> stun_event list \<Rightarrow> (StunError + SocketAddrV4) option" where
  "do_stun_exchange send_error tx_id evs =
     (case send_error of Some e \<Rightarrow> Some (Inl (StunIo e)) | None \<Rightarrow> stun_receive tx_id evs)"

text \<open>What one server meets: whether its name resolves to an address, the transaction identifier drawn for it, the error of
  sending the request and what arrives.\<close>

record stun_attempt =
  st_resolved :: bool
  st_tx_id :: bytes
  st_send_error :: "string option"
  st_arrivals :: "stun_event list"

primrec try_servers :: "(string \<Rightarrow> stun_attempt) \<Rightarrow> string list \<Rightarrow> StunError + SocketAddrV4" where
  "try_servers net [] = Inl StunTimedOut"
| "try_servers net (server # rest) =
     (let a = net server in
      if \<not> st_resolved a then try_servers net rest
      else case do_stun_exchange (st_send_error a) (st_tx_id a) (st_arrivals a) of
        Some (Inr addr) \<Rightarrow> Inr addr
      | _ \<Rightarrow> try_servers net rest)"

definition discover_public_addr :: "string option \<Rightarrow> (string \<Rightarrow> stun_attempt) \<Rightarrow> StunError + SocketAddrV4" where
  "discover_public_addr bind_error net =
     (case bind_error of Some e \<Rightarrow> Inl (StunIo e) | None \<Rightarrow> try_servers net STUN_SERVERS)"

section \<open>Encoding of a response\<close>

definition attr_bytes :: "u16 \<times> bytes \<Rightarrow> bytes" where
  "attr_bytes a = be16 (fst a) @ be16 (of_nat (length (snd a))) @ snd a @
     replicate (padded (length (snd a)) - length (snd a)) 0"

definition xor_mapped_value :: "SocketAddrV4 \<Rightarrow> bytes" where
  "xor_mapped_value a =
     [0] @ [0x01] @ be16 (sa_port a XOR 0x2112) @ be32 (sa_ip a XOR 0x2112A442)"

definition response_bytes :: "bytes \<Rightarrow> bytes \<Rightarrow> bytes" where
  "response_bytes tx_id attrs =
     be16 0x0101 @ be16 (of_nat (length attrs)) @ be32 0x2112A442 @ tx_id @ attrs"

lemma padded_ge: "n \<le> padded n"
  by (simp add: padded_def)

lemma length_attr_bytes: "length (attr_bytes a) = 4 + padded (length (snd a))"
  using padded_ge [of "length (snd a)"] by (simp add: attr_bytes_def)

lemma parse_xor_mapped_value: "parse_xor_mapped_address (xor_mapped_value a @ rest) = Some a"
proof -
  have "drop_bit 16 (0x2112A442 :: u32) = 0x2112"
    by simp
  then show ?thesis
    by (simp add: parse_xor_mapped_address_def stun_consts xor_mapped_value_def wire xor.assoc del: append_Cons)
qed

text \<open>One round of the loop, on an attribute at the head of what is left.\<close>

lemma parse_attrs_step:
  assumes len: "length (snd a) < 2 ^ 16" and pos: "pos = length pre"
    and fits: "pos + 4 + length (snd a) \<le> end"
  shows "parse_attrs (pre @ attr_bytes a @ rest) pos end fb =
    (if fst a = 0x20 \<and> parse_xor_mapped_address (snd a) \<noteq> None then parse_xor_mapped_address (snd a)
     else parse_attrs (pre @ attr_bytes a @ rest) (pos + length (attr_bytes a)) end
       (if fst a = 1 \<and> parse_mapped_address (snd a) \<noteq> None then parse_mapped_address (snd a) else fb))"
proof -
  let ?buf = "pre @ attr_bytes a @ rest"
  have "rd16 pos ?buf = fst a" "rd16 (pos + 2) ?buf = of_nat (length (snd a))"
    "subslice (pos + 4) (pos + 4 + length (snd a)) ?buf = snd a"
    by (simp_all add: pos attr_bytes_def wire)
  moreover have "unat (of_nat (length (snd a)) :: u16) = length (snd a)"
    using len by (simp add: unat_of_nat_small)
  ultimately show ?thesis
    using fits
    by (subst parse_attrs.simps) (auto simp: stun_consts length_attr_bytes Let_def add.assoc)
qed

lemma parse_attrs_find:
  assumes "\<forall>a \<in> set as. fst a \<noteq> 0x20 \<and> length (snd a) < 2 ^ 16"
    and "length pre + length (concat (map attr_bytes as)) + 12 \<le> end"
  shows "parse_attrs (pre @ concat (map attr_bytes as) @ attr_bytes (0x20, xor_mapped_value m) @ rest)
           (length pre) end fb = Some m"
  using assms
proof (induction as arbitrary: pre fb)
  case Nil
  have "parse_xor_mapped_address (xor_mapped_value m) = Some m"
    using parse_xor_mapped_value [of m "[]"] by simp
  moreover have "length (xor_mapped_value m) = 8"
    by (simp add: xor_mapped_value_def)
  ultimately show ?case
    using Nil by (simp add: parse_attrs_step)
next
  case (Cons a as)
  let ?rest = "concat (map attr_bytes as) @ attr_bytes (0x20, xor_mapped_value m) @ rest"
  let ?fb = "if fst a = 1 \<and> parse_mapped_address (snd a) \<noteq> None then parse_mapped_address (snd a) else fb"
  have "parse_attrs (pre @ attr_bytes a @ ?rest) (length pre) end fb =
      parse_attrs (pre @ attr_bytes a @ ?rest) (length pre + length (attr_bytes a)) end ?fb"
    using Cons.prems padded_ge [of "length (snd a)"]
    by (subst parse_attrs_step) (auto simp: length_attr_bytes)
  also have "\<dots> = Some m"
    using Cons.IH [of "pre @ attr_bytes a" ?fb] Cons.prems by simp
  finally show ?case by simp
qed

text \<open>The loop reads only positions below \<open>end\<close>.\<close>

lemma parse_attrs_prefix:
  assumes "take e buf = take e buf'" and "e \<le> length buf" and "e \<le> length buf'"
  shows "parse_attrs buf pos e fb = parse_attrs buf' pos e fb"
proof (induction "e - pos" arbitrary: pos fb rule: less_induct)
  case less
  show ?case
  proof (cases "pos + 4 \<le> e")
    case True
    have nth: "buf ! i = buf' ! i" if "i < e" for i
      using assms(1) that by (metis nth_take)
    have rd: "rd16 pos buf = rd16 pos buf'" "rd16 (pos + 2) buf = rd16 (pos + 2) buf'"
      using True by (simp_all add: rd16_def nth)
    have sub: "subslice i j buf = subslice i j buf'" if "j \<le> e" for i j
      using that assms by (intro nth_equalityI) (auto simp: subslice_def nth)
    have rec: "parse_attrs buf (pos + 4 + k) e fb' = parse_attrs buf' (pos + 4 + k) e fb'" for k fb'
      using True by (intro less.hyps) simp
    define n where "n = unat (rd16 (pos + 2) buf')"
    show ?thesis
      using True sub [of "pos + 4 + n" "pos + 4"] parse_attrs.simps [of buf pos e fb]
        parse_attrs.simps [of buf' pos e fb]
      by (simp only: rd n_def [symmetric] Let_def rec if_True not_le [symmetric])
         (cases "pos + 4 + n \<le> e"; simp add: rec cong: if_cong)
  qed (simp add: parse_attrs.simps)
qed

lemma response_address:
  assumes "length tx = 12" and "\<forall>a \<in> set as. fst a \<noteq> 0x20 \<and> length (snd a) < 2 ^ 16"
    and "length (concat (map attr_bytes as) @ attr_bytes (0x20, xor_mapped_value m) @ rest) < 2 ^ 16"
  shows "parse_binding_response
    (response_bytes tx (concat (map attr_bytes as) @ attr_bytes (0x20, xor_mapped_value m) @ rest)) tx = Some m"
proof -
  let ?attrs = "concat (map attr_bytes as) @ attr_bytes (0x20, xor_mapped_value m) @ rest"
  let ?hdr = "be16 0x0101 @ be16 (of_nat (length ?attrs)) @ be32 0x2112A442 @ tx"
  have len: "unat (of_nat (length ?attrs) :: u16) = length ?attrs"
    using assms(3) by (intro unat_of_nat_small) simp
  have "length (attr_bytes (0x20, xor_mapped_value m)) = 12"
    by (simp add: length_attr_bytes xor_mapped_value_def padded_def)
  then have "parse_attrs (?hdr @ ?attrs) (length ?hdr) (20 + length ?attrs) None = Some m"
    using assms(1,2) by (intro parse_attrs_find) simp_all
  then have "parse_attrs (?hdr @ ?attrs) 20 (20 + length ?attrs) None = Some m"
    using assms(1) by simp
  moreover have "rd16 0 (?hdr @ ?attrs) = 0x0101" "rd16 2 (?hdr @ ?attrs) = of_nat (length ?attrs)"
    "rd32 4 (?hdr @ ?attrs) = 0x2112A442" "subslice 8 20 (?hdr @ ?attrs) = tx"
    using assms(1) by (simp_all add: wire del: length_append of_nat_add)
  moreover have "length (?hdr @ ?attrs) = 20 + length ?attrs"
    using assms(1) by simp
  moreover have "response_bytes tx ?attrs = ?hdr @ ?attrs"
    by (simp add: response_bytes_def)
  ultimately show ?thesis
    using len by (simp only: parse_binding_response_def stun_consts Let_def) simp
qed

section \<open>Properties\<close>

text \<open>The public address is found.  In the answer to our transaction, the XOR-mapped address is decoded to
  exactly the address and port the server encoded, behind any sequence of other attributes (a legacy mapped address
  among them does not take precedence) and whatever follows it.\<close>

lemma stun_address_found:
  assumes "length tx = 12" and "\<forall>a \<in> set as. fst a \<noteq> 0x20 \<and> length (snd a) < 2 ^ 16"
    and "length (concat (map attr_bytes as) @ attr_bytes (0x20, xor_mapped_value m) @ rest) < 2 ^ 16"
  shows "parse_binding_response
    (response_bytes tx (concat (map attr_bytes as) @ attr_bytes (0x20, xor_mapped_value m) @ rest)) tx = Some m"
  using assms by (rule response_address)

lemma stun_address_found_witness:
  "parse_binding_response
    (response_bytes (replicate 12 7) (attr_bytes (0x8022, [1, 2, 3]) @
       attr_bytes (0x20, xor_mapped_value \<lparr>sa_ip = 0xC0A80001, sa_port = 5000\<rparr>) @ [9])) (replicate 12 7)
   = Some \<lparr>sa_ip = 0xC0A80001, sa_port = 5000\<rparr>"
  using stun_address_found [of "replicate 12 7" "[(0x8022, [1, 2, 3])]"
      "\<lparr>sa_ip = 0xC0A80001, sa_port = 5000\<rparr>" "[9]"]
  by (simp add: length_attr_bytes padded_def xor_mapped_value_def)

text \<open>Only answers to our request are accepted, and nothing outside the message is read.  If a datagram yields
  an address, it is a binding response with the magic cookie and our transaction identifier whose declared
  length fits the datagram, and bytes behind that length do not influence the result.\<close>

lemma stun_response_checked:
  assumes "parse_binding_response buf tx = Some a"
  shows "20 + unat (rd16 2 buf) \<le> length buf \<and> rd16 0 buf = 0x0101 \<and> rd32 4 buf = 0x2112A442 \<and>
    subslice 8 20 buf = tx \<and>
    parse_binding_response (take (20 + unat (rd16 2 buf)) buf @ junk) tx = Some a"
proof -
  define e where "e = 20 + unat (rd16 2 buf)"
  let ?buf = "take e buf @ junk"
  have ok: "e \<le> length buf" "rd16 0 buf = 0x0101" "rd32 4 buf = 0x2112A442" "subslice 8 20 buf = tx"
    and loop: "parse_attrs buf 20 e None = Some a"
    using assms by (auto simp: parse_binding_response_def stun_consts e_def Let_def split: if_splits)
  have "20 \<le> e"
    by (simp add: e_def)
  then have nth: "?buf ! i = buf ! i" if "i < 20" for i
    using that ok(1) by (simp add: nth_append)
  have "rd16 0 ?buf = rd16 0 buf" "rd16 2 ?buf = rd16 2 buf" "rd32 4 ?buf = rd32 4 buf"
    by (simp_all add: rd16_def rd32_def nth)
  moreover have "subslice 8 20 ?buf = subslice 8 20 buf"
    using ok(1) \<open>20 \<le> e\<close> by (intro nth_equalityI) (auto simp: subslice_def nth)
  moreover have "parse_attrs ?buf 20 e None = parse_attrs buf 20 e None"
    using ok(1) by (intro parse_attrs_prefix) simp_all
  ultimately have "parse_binding_response ?buf tx = Some a"
    using ok loop \<open>20 \<le> e\<close> by (simp add: parse_binding_response_def stun_consts e_def [symmetric] Let_def)
  then show ?thesis
    using ok by (simp add: e_def)
qed

lemma stun_response_checked_witness:
  "\<exists>buf. parse_binding_response buf (replicate 12 7) = Some \<lparr>sa_ip = 1, sa_port = 2\<rparr> \<and>
     subslice 8 20 buf = replicate 12 7"
proof -
  have "parse_binding_response (response_bytes (replicate 12 7)
      (concat (map attr_bytes []) @ attr_bytes (0x20, xor_mapped_value \<lparr>sa_ip = 1, sa_port = 2\<rparr>) @ []))
      (replicate 12 7) = Some \<lparr>sa_ip = 1, sa_port = 2\<rparr>"
    by (rule response_address) (simp_all add: length_attr_bytes padded_def xor_mapped_value_def)
  from stun_response_checked [OF this] this show ?thesis by blast
qed

section \<open>Discovery\<close>

text \<open>A datagram of another transaction, for instance the late answer of the server asked before, is passed over.\<close>

lemma foreign_ignored:
  assumes "\<forall>d \<in> set ds. subslice 8 20 (take 512 d) \<noteq> tx"
  shows "stun_receive tx (map StunData ds @ evs) = stun_receive tx evs"
  using assms by (induction ds) (auto simp: parse_binding_response_def Let_def)

lemma try_servers_skip:
  assumes "\<forall>s \<in> set before. \<forall>addr. st_resolved (net s) \<longrightarrow>
    do_stun_exchange (st_send_error (net s)) (st_tx_id (net s)) (st_arrivals (net s)) \<noteq> Some (Inr addr)"
  shows "try_servers net (before @ rest) = try_servers net rest"
  using assms by (induction before) (auto simp: Let_def split: option.splits sum.splits)

definition stun_reply :: "bytes \<Rightarrow> SocketAddrV4 \<Rightarrow> bytes" where
  "stun_reply tx m = response_bytes tx (attr_bytes (0x20, xor_mapped_value m))"

lemma stun_reply_parsed: "length tx = 12 \<Longrightarrow> parse_binding_response (take 512 (stun_reply tx m)) tx = Some m"
proof -
  assume tx: "length tx = 12"
  have "length (attr_bytes (0x20, xor_mapped_value m)) = 12"
    by (simp add: length_attr_bytes xor_mapped_value_def padded_def)
  then have "length (stun_reply tx m) \<le> 512"
    using tx by (simp add: stun_reply_def response_bytes_def)
  then show ?thesis
    using response_address [OF tx, of "[]" m "[]"]
    by (simp add: stun_reply_def length_attr_bytes xor_mapped_value_def padded_def)
qed

text \<open>A server that cannot be resolved, does not take the request, or lets the time pass while only datagrams of other transactions
  arrive.\<close>

definition stun_silent :: "stun_attempt \<Rightarrow> bool" where
  "stun_silent a \<longleftrightarrow> \<not> st_resolved a \<or> st_send_error a \<noteq> None \<or>
     (\<exists>ds. st_arrivals a = map StunData ds \<and> (\<forall>d \<in> set ds. subslice 8 20 (take 512 d) \<noteq> st_tx_id a))"

lemma silent_fails:
  "stun_silent a \<Longrightarrow> st_resolved a \<Longrightarrow> do_stun_exchange (st_send_error a) (st_tx_id a) (st_arrivals a) \<noteq> Some (Inr addr)"
  using foreign_ignored [of _ "st_tx_id a" "[]"] by (auto simp: stun_silent_def do_stun_exchange_def split: option.splits)



end
