(* ===== verification/AudioIo.thy ===== *)
theory AudioIo
  imports Codec
begin

text \<open>
  The callbacks of \<open>gravital-talk-io/src/capture.rs\<close> and \<open>playback.rs\<close>: cutting captured samples into frames and feeding
  the output device from a queue.  The devices are outside.  A channel is open or closed during a callback, and what is
  sent is returned.  The conversion of a float sample is an argument; signed samples are their words.
\<close>

record StreamConfig =
  sc_sample_rate :: u32
  sc_channels :: u8
  sc_frame_duration_ms :: u8

definition StreamConfig_default :: StreamConfig where
  "StreamConfig_default = \<lparr>sc_sample_rate = 48000, sc_channels = 1, sc_frame_duration_ms = 10\<rparr>"

definition samples_per_frame :: "StreamConfig \<Rightarrow> nat" where
  "samples_per_frame c = unat (sc_sample_rate c) * unat (sc_frame_duration_ms c) div 1000 * unat (sc_channels c)"

section \<open>Capture\<close>

text \<open>The result has the frames sent and the accumulator; \<open>None\<close> is a loop that does not end.\<close>

partial_function (option) push_i16_loop :: "bool \<Rightarrow> nat \<Rightarrow> i16 list \<Rightarrow> i16 list list \<Rightarrow> (i16 list list \<times> i16 list) option" where
  "push_i16_loop open_tx per_frame accum sent =
     (if length accum < per_frame then Some (sent, accum)
      else
        let rest = drop per_frame accum; frame = take per_frame accum in
        if \<not> open_tx then Some (sent, rest)
        else push_i16_loop open_tx per_frame rest (sent @ [frame]))"

definition push_i16 :: "bool \<Rightarrow> nat \<Rightarrow> i16 list \<Rightarrow> i16 list \<Rightarrow> (i16 list list \<times> i16 list) option" where
  "push_i16 open_tx per_frame accum data = push_i16_loop open_tx per_frame (accum @ data) []"

text \<open>The variants that convert push one sample at a time; a full accumulator is sent and emptied.\<close>

fun push_converted :: "('s \<Rightarrow> i16) \<Rightarrow> bool \<Rightarrow> nat \<Rightarrow> i16 list \<Rightarrow> 's list \<Rightarrow> i16 list list \<Rightarrow> i16 list list \<times> i16 list" where
  "push_converted conv open_tx per_frame accum [] sent = (sent, accum)"
| "push_converted conv open_tx per_frame accum (x # xs) sent =
     (let accum = accum @ [conv x] in
      if length accum \<ge> per_frame
      then if open_tx then push_converted conv open_tx per_frame [] xs (sent @ [accum]) else (sent, [])
      else push_converted conv open_tx per_frame accum xs sent)"

definition push_f32 :: "('f \<Rightarrow> i16) \<Rightarrow> bool \<Rightarrow> nat \<Rightarrow> i16 list \<Rightarrow> 'f list \<Rightarrow> i16 list list \<times> i16 list" where
  "push_f32 clip_scale open_tx per_frame accum data = push_converted clip_scale open_tx per_frame accum data []"

definition push_u16 :: "bool \<Rightarrow> nat \<Rightarrow> i16 list \<Rightarrow> u16 list \<Rightarrow> i16 list list \<times> i16 list" where
  "push_u16 open_tx per_frame accum data = push_converted (\<lambda>u. u - 0x8000) open_tx per_frame accum data []"

section \<open>Playback\<close>

definition pump :: "i16 list \<Rightarrow> i16 list \<Rightarrow> i16 list" where
  "pump queue frame = queue @ frame"

fun pull_converted :: "(i16 option \<Rightarrow> 's) \<Rightarrow> nat \<Rightarrow> i16 list \<Rightarrow> 's list \<times> i16 list" where
  "pull_converted conv 0 queue = ([], queue)"
| "pull_converted conv (Suc n) queue =
     (case (case queue of [] \<Rightarrow> (None, []) | s # queue \<Rightarrow> (Some s, queue)) of
        (s, queue) \<Rightarrow> (case pull_converted conv n queue of (data, queue) \<Rightarrow> (conv s # data, queue)))"

definition pull_i16 :: "nat \<Rightarrow> i16 list \<Rightarrow> i16 list \<times> i16 list" where
  "pull_i16 n queue = pull_converted (\<lambda>s. case s of Some s \<Rightarrow> s | None \<Rightarrow> 0) n queue"

definition pull_u16 :: "nat \<Rightarrow> i16 list \<Rightarrow> u16 list \<times> i16 list" where
  "pull_u16 n queue =
     pull_converted (\<lambda>s. ucast (scast (case s of Some s \<Rightarrow> s | None \<Rightarrow> 0) + 0x8000 :: u32)) n queue"

definition pull_f32 :: "(i16 \<Rightarrow> 'f) \<Rightarrow> 'f \<Rightarrow> nat \<Rightarrow> i16 list \<Rightarrow> 'f list \<times> i16 list" where
  "pull_f32 scale zero n queue = pull_converted (\<lambda>s. case s of Some s \<Rightarrow> scale s | None \<Rightarrow> zero) n queue"

section \<open>The loops\<close>

text \<open>Frames of equal size cut from a stream, with a remainder.\<close>

definition framed :: "nat \<Rightarrow> 'a list \<Rightarrow> 'a list list \<times> 'a list \<Rightarrow> bool" where
  "framed k xs r \<longleftrightarrow> concat (fst r) @ snd r = xs \<and> (\<forall>f \<in> set (fst r). length f = k) \<and> length (snd r) < k"

lemma push_i16_loop_framed:
  assumes "0 < k"
  shows "\<exists>frames rest. push_i16_loop True k accum sent = Some (sent @ frames, rest) \<and> framed k accum (frames, rest)"
proof (induction "length accum" arbitrary: accum sent rule: less_induct)
  case less
  show ?case
  proof (cases "length accum < k")
    case True
    then show ?thesis
      by (subst push_i16_loop.simps) (simp add: framed_def)
  next
    case False
    then have "length (drop k accum) < length accum"
      using assms by simp
    from less [OF this, of "sent @ [take k accum]"] obtain frames rest where
      r: "push_i16_loop True k (drop k accum) ((sent @ [take k accum])) = Some ((sent @ [take k accum]) @ frames, rest)"
        "framed k (drop k accum) (frames, rest)"
      by blast
    have "push_i16_loop True k accum sent = Some (sent @ take k accum # frames, rest)"
      using False r(1) by (subst push_i16_loop.simps) simp
    moreover have "framed k accum (take k accum # frames, rest)"
      using False r(2) by (simp add: framed_def)
    ultimately show ?thesis
      by blast
  qed
qed

lemma push_converted_framed:
  "length accum < k \<Longrightarrow>
   \<exists>frames rest. push_converted conv True k accum xs sent = (sent @ frames, rest) \<and> framed k (accum @ map conv xs) (frames, rest)"
proof (induction xs arbitrary: accum sent)
  case (Cons x xs)
  show ?case
  proof (cases "length (accum @ [conv x]) < k")
    case True
    then show ?thesis
      using Cons.IH [OF True, of sent] by (simp add: Let_def)
  next
    case False
    obtain frames rest where r: "push_converted conv True k [] xs (sent @ [accum @ [conv x]]) = ((sent @ [accum @ [conv x]]) @ frames, rest)"
      "framed k ([] @ map conv xs) (frames, rest)"
      using Cons.IH [of "[]" "sent @ [accum @ [conv x]]"] Cons.prems by auto
    have "framed k (accum @ map conv (x # xs)) ((accum @ [conv x]) # frames, rest)"
      using r(2) False Cons.prems by (auto simp: framed_def)
    then show ?thesis
      using r(1) False by (simp add: Let_def)
  qed
qed (simp add: framed_def)

lemma framed_unique:
  assumes "framed k xs (fs, r)" and "framed k xs (fs', r')"
  shows "fs = fs' \<and> r = r'"
  using assms
proof (induction fs arbitrary: xs fs')
  case Nil
  then show ?case
    by (cases fs') (auto simp: framed_def)
next
  case (Cons f fs)
  then obtain g gs where g: "fs' = g # gs"
    by (cases fs') (auto simp: framed_def)
  have "f @ concat fs @ r = xs" "g @ concat gs @ r' = xs" "length f = k" "length g = k"
    using Cons.prems by (simp_all add: framed_def g)
  then have "f = g" "concat fs @ r = drop k xs" "concat gs @ r' = drop k xs"
    by (auto simp: append_eq_conv_conj)
  then show ?case
    using Cons.IH [of "drop k xs" gs] Cons.prems by (simp add: framed_def g)
qed

lemma pull_spec:
  "pull_converted conv n queue =
     (map (conv \<circ> Some) (take n queue) @ replicate (n - length queue) (conv None), drop n queue)"
  by (induction n arbitrary: queue) (auto split: list.splits)

section \<open>Properties\<close>

text \<open>A sequence of capture callbacks with the channel open.\<close>

primrec capture_all :: "nat \<Rightarrow> i16 list \<Rightarrow> i16 list list \<Rightarrow> (i16 list list \<times> i16 list) option" where
  "capture_all k accum [] = Some ([], accum)"
| "capture_all k accum (data # chunks) =
     (case push_i16 True k accum data of
        None \<Rightarrow> None
      | Some (frames, accum) \<Rightarrow>
          (case capture_all k accum chunks of
             None \<Rightarrow> None
           | Some (later, accum) \<Rightarrow> Some (frames @ later, accum)))"

lemma push_i16_framed:
  "0 < k \<Longrightarrow> \<exists>frames rest. push_i16 True k accum data = Some (frames, rest) \<and> framed k (accum @ data) (frames, rest)"
  using push_i16_loop_framed [of k "accum @ data" "[]"] by (simp add: push_i16_def)

lemma capture_all_framed:
  assumes "0 < k"
  shows "length accum < k \<Longrightarrow>
    \<exists>frames rest. capture_all k accum chunks = Some (frames, rest) \<and> framed k (accum @ concat chunks) (frames, rest)"
proof (induction chunks arbitrary: accum)
  case (Cons data chunks)
  obtain fs acc where 1: "push_i16 True k accum data = Some (fs, acc)" "framed k (accum @ data) (fs, acc)"
    using push_i16_framed [OF assms] by blast
  then have "length acc < k"
    by (simp add: framed_def)
  from Cons.IH [OF this] obtain gs rest where 2: "capture_all k acc chunks = Some (gs, rest)" "framed k (acc @ concat chunks) (gs, rest)"
    by blast
  have "accum @ concat (data # chunks) = concat fs @ (acc @ concat chunks)"
    using 1(2) by (simp add: framed_def)
  then have "framed k (accum @ concat (data # chunks)) (fs @ gs, rest)"
    using 1(2) 2(2) by (auto simp: framed_def)
  then show ?case
    using 1(1) 2(1) by simp
qed (simp add: framed_def)

lemma push_converted_same:
  assumes "0 < k" and "length accum < k"
  shows "push_i16 True k accum (map conv ys) = Some (push_converted conv True k accum ys [])"
proof -
  obtain fs r fs' r' where "push_i16 True k accum (map conv ys) = Some (fs, r)" "push_converted conv True k accum ys [] = (fs', r')"
    and framed: "framed k (accum @ map conv ys) (fs, r)" "framed k (accum @ map conv ys) (fs', r')"
    using push_i16_framed [OF assms(1)] push_converted_framed [OF assms(2), of conv ys "[]"] by fastforce
  then show ?thesis
    using framed_unique [OF framed] by simp
qed

lemma narrow_add: "(ucast (a + b :: u32) :: u16) = ucast a + ucast b"
proof transfer
  fix a b :: int
  have "take_bit 16 (take_bit 32 a + take_bit 32 b) = take_bit 16 (take_bit 16 (take_bit 32 a) + take_bit 16 (take_bit 32 b))"
    by (rule take_bit_add [symmetric])
  then show "take_bit LENGTH(16) (take_bit LENGTH(32) (a + b)) = take_bit LENGTH(16) (take_bit LENGTH(32) a + take_bit LENGTH(32) b)"
    by (simp add: take_bit_add)
qed

lemma narrow_signed: "(ucast (scast w :: u32) :: u16) = w" for w :: i16
  by (rule bit_word_eqI) (simp add: bit_unsigned_iff bit_signed_iff)

text \<open>C39: captured audio is cut into frames without loss.  However the device splits the stream into callbacks, the frames
  sent, all of the configured size, followed by the samples still waiting are exactly the captured samples in order, and
  fewer than one frame is waiting.  The callbacks that convert from unsigned or float samples deliver the same frames as
  the plain one does for the converted samples.\<close>

theorem capture_framing:
  assumes "0 < k"
  shows "(\<exists>frames rest. capture_all k [] chunks = Some (frames, rest) \<and> concat frames @ rest = concat chunks \<and>
      (\<forall>f \<in> set frames. length f = k) \<and> length rest < k) \<and>
    (length accum < k \<longrightarrow>
       push_i16 True k accum (map (\<lambda>u. u - 0x8000) us) = Some (push_u16 True k accum us) \<and>
       push_i16 True k accum (map clip_scale xs) = Some (push_f32 clip_scale True k accum xs))"
  using capture_all_framed [OF assms, of "[]" chunks] assms
    push_converted_same [OF assms, of accum "\<lambda>u. u - 0x8000" us] push_converted_same [OF assms, of accum clip_scale xs]
  by (auto simp: push_u16_def push_f32_def framed_def)

theorem capture_framing_witness:
  "capture_all 2 [] [[1], [2, 3], [], [4]] = Some ([[1, 2], [3, 4]], [])"
proof -
  obtain frames rest where r: "capture_all 2 [] [[1], [2, 3], [], [4]] = Some (frames, rest)"
    "concat frames @ rest = concat [[1], [2, 3], [], [4]]" "\<forall>f \<in> set frames. length f = 2" "length rest < 2"
    using capture_framing [THEN conjunct1, of 2 "[[1], [2, 3], [], [4]]"] by (auto simp del: capture_all.simps)
  have "framed 2 [1, 2, 3, 4] (frames, rest)" "framed 2 [1, 2, 3, 4] ([[1, 2], [3, 4]], [])"
    using r by (simp_all add: framed_def)
  then show ?thesis
    using framed_unique r(1) by blast
qed

text \<open>A frame of no samples hangs the capture callback.  When the configured frame is empty (for instance with a frame
  duration of 0 ms) the callback for signed samples never returns as long as the channel is open.\<close>

lemma capture_empty_frame_hangs: "push_i16 True 0 accum data = None"
proof -
  have "\<not> (open_tx \<and> k = 0)" if "push_i16_loop open_tx k acc sent = Some y" for open_tx k acc sent y
    using _ that
    by (rule push_i16_loop.raw_induct [where P = "\<lambda>open_tx k acc sent y. \<not> (open_tx \<and> k = 0)"])
       (auto simp: Let_def split: if_splits)
  then show ?thesis
    unfolding push_i16_def by (metis option.exhaust)
qed

text \<open>Playback is first in, first out.  Pulling samples returns what was pumped in, in order, and silence when the queue is
  empty, and keeps the rest; unsigned samples that are captured and played on unsigned devices come out unchanged.\<close>

lemma playback_fifo:
  "pull_i16 n (foldl pump [] frames) =
     (take n (concat frames) @ replicate (n - length (concat frames)) 0, drop n (concat frames)) \<and>
   fst (pull_u16 (length us) (map (\<lambda>u. u - 0x8000) us)) = us"
proof -
  have "foldl pump queue frames = queue @ concat frames" for queue
    by (induction frames arbitrary: queue) (simp_all add: pump_def)
  moreover have "ucast (scast (u - 0x8000 :: i16) + 0x8000 :: u32) = u" for u :: u16
    by (simp add: narrow_add narrow_signed)
  ultimately show ?thesis
    by (simp add: pull_i16_def pull_u16_def pull_spec comp_def map_idI)
qed

end
