(* ===== verification/CliTransfer.thy ===== *)
theory CliTransfer
  imports LiveStream AudioIo
begin

text \<open>
  \<open>gravital-talk-cli/src/main.rs\<close>, the commands \<open>gs send\<close> and \<open>gs receive\<close>: a sound file or a tone is cut into frames and sent
  through a session; the other side writes what it receives to a sound file.  Parsing of addresses, binding of the socket,
  reading and writing of WAV files and the floating-point tone are arguments, with their errors.  A run ends with a result,
  panics, or waits for the network.
\<close>

section \<open>Codec argument and configuration\<close>

datatype CodecArg = PcmArg | OpusArg

definition to_codec_id :: "CodecArg \<Rightarrow> CodecId" where
  "to_codec_id a = (case a of PcmArg \<Rightarrow> Pcm | OpusArg \<Rightarrow> Opus)"

text \<open>Without the \<open>opus\<close> feature the second name is unknown.\<close>

definition CodecArg_from_str :: "bool \<Rightarrow> string \<Rightarrow> string + CodecArg" where
  "CodecArg_from_str opus_built s =
     (if s = ''pcm'' then Inr PcmArg
      else if opus_built \<and> s = ''opus'' then Inr OpusArg
      else Inl (''unknown codec '' @ [CHR 0x27] @ s @ [CHR 0x27]))"

definition cli_config :: "u32 \<Rightarrow> u8 \<Rightarrow> u8 \<Rightarrow> Config" where
  "cli_config rate channels frame_ms =
     Config_default\<lparr>cfg_sample_rate := rate, cfg_channels := channels, cfg_frame_duration_ms := frame_ms\<rparr>"

section \<open>Sources of frames\<close>

text \<open>The spec of an opened file has the number of channels; reading the samples may fail.\<close>

type_synonym wav_file = "string + u16 \<times> (string + i16 list)"

definition open_wav :: "wav_file \<Rightarrow> u8 \<Rightarrow> string + i16 list" where
  "open_wav file channels =
     (case file of
        Inl e \<Rightarrow> Inl e
      | Inr (spec_channels, samples) \<Rightarrow>
          (if spec_channels \<noteq> ucast channels then Inl ''wav channels != session channels'' else samples))"

text \<open>The first \<open>n\<close> items of the iterator, which drains the samples.\<close>

primrec wav_frames_i16 :: "nat \<Rightarrow> nat \<Rightarrow> i16 list \<Rightarrow> i16 list list" where
  "wav_frames_i16 per_frame 0 samples = []"
| "wav_frames_i16 per_frame (Suc n) samples =
     (if samples = [] then []
      else let k = min per_frame (length samples) in take k samples # wav_frames_i16 per_frame n (drop k samples))"

text \<open>The tone: \<open>tone i\<close> is its \<open>i\<close>-th sample, copied to all channels.  The iterator divides by the number of channels.\<close>

definition sine_frames_i16 :: "(nat \<Rightarrow> i16) \<Rightarrow> nat \<Rightarrow> u8 \<Rightarrow> nat \<Rightarrow> i16 list list option" where
  "sine_frames_i16 tone per_frame channels n =
     (if channels = 0 \<and> 0 < n then None
      else let mono_samples = per_frame div unat channels in
        Some (map (\<lambda>j. concat (map (\<lambda>i. replicate (unat channels) (tone (j * mono_samples + i))) [0..<mono_samples])) [0..<n]))"

text \<open>\<open>capture\<close> is present when a device was given: the error of opening it, or the frames it delivers until it stops.  \<open>None\<close> is a
  panic: the product of seconds and frames per second overflows in a checked build.\<close>

definition source_frames ::
  "bool \<Rightarrow> (nat \<Rightarrow> i16) \<Rightarrow> (string \<Rightarrow> wav_file) \<Rightarrow> (string + i16 list list) option \<Rightarrow> string \<Rightarrow> u64 \<Rightarrow> u32 \<Rightarrow> u8 \<Rightarrow>
   (string + i16 list list) option" where
  "source_frames oc tone wav capture input duration_s rate channels =
     (let config = cli_config rate channels 10;
          per_frame = unat rate * unat (cfg_frame_duration_ms config) div 1000 * unat channels
      in case capture of
           Some frames \<Rightarrow> Some frames
         | None \<Rightarrow>
             (let frames_per_sec = 1000 div max (ucast (cfg_frame_duration_ms config)) 1;
                  total_frames = duration_s * frames_per_sec
              in if oc \<and> 2 ^ 64 \<le> unat duration_s * unat frames_per_sec then None
                 else if input = ''sine'' then map_option Inr (sine_frames_i16 tone per_frame channels (unat total_frames))
                 else Some (case open_wav (wav input) channels of
                        Inl e \<Rightarrow> Inl e
                      | Inr samples \<Rightarrow> Inr (wav_frames_i16 per_frame (unat total_frames) samples))))"

section \<open>Sending\<close>

datatype CliError = SessionFailure CodecSessionError | Failure string

datatype ('a, 'e, 'd) cli_run =
    Panics
  | Waits
  | Ends "CliError + unit" "('a, 'e, 'd) CodecSession option"

primrec send_frames ::
  "aead \<Rightarrow> ('a, 'e, 'd) CodecSession \<Rightarrow> ('a Env \<times> i16 list) list \<Rightarrow> (CodecSessionError + unit) \<times> ('a, 'e, 'd) CodecSession" where
  "send_frames A cs [] = (Inr (), cs)"
| "send_frames A cs (x # xs) =
     (case send_samples A (fst x) cs (snd x) of
        (Inl e, cs) \<Rightarrow> (Inl e, cs)
      | (Inr _, cs) \<Rightarrow> send_frames A cs xs)"

text \<open>\<open>addr\<close> is the parsed peer address, \<open>bound\<close> the error of binding, \<open>clock i\<close> the environment of the \<open>i\<close>-th send, and the
  one after the last is that of the close.\<close>

definition cmd_send ::
  "aead \<Rightarrow> kx \<Rightarrow> ('e, 'd) libopus option \<Rightarrow> ClientRandom \<Rightarrow> (nat \<Rightarrow> 'a Env) \<Rightarrow> string + 'a \<Rightarrow> string option \<Rightarrow> 'a hs_events \<Rightarrow>
   (string + i16 list list) option \<Rightarrow> CodecArg \<Rightarrow> u32 \<Rightarrow> u8 \<Rightarrow> ('a, 'e, 'd) cli_run" where
  "cmd_send A K opus cr clock addr bound evs frames codec rate channels =
     (case addr of
        Inl e \<Rightarrow> Ends (Inl (Failure e)) None
      | Inr peer \<Rightarrow>
          (case bound of
             Some e \<Rightarrow> Ends (Inl (Failure e)) None
           | None \<Rightarrow>
               (case CodecSession_new opus (cli_config rate channels 10) (to_codec_id codec) of
                  None \<Rightarrow> Panics
                | Some (Inl e) \<Rightarrow> Ends (Inl (SessionFailure e)) None
                | Some (Inr cs) \<Rightarrow>
                    (case cs_handshake K (ClientSide cr) cs peer evs of
                       (None, _, _) \<Rightarrow> Waits
                     | (Some (Inl e), cs, _) \<Rightarrow> Ends (Inl (SessionFailure e)) (Some cs)
                     | (Some (Inr _), cs, _) \<Rightarrow>
                         (case frames of
                            None \<Rightarrow> Panics
                          | Some (Inl e) \<Rightarrow> Ends (Inl (Failure e)) (Some cs)
                          | Some (Inr fs) \<Rightarrow>
                              (case send_frames A cs (zip (map clock [0..<length fs]) fs) of
                                 (Inl e, cs) \<Rightarrow> Ends (Inl (SessionFailure e)) (Some cs)
                               | (Inr _, cs) \<Rightarrow>
                                   (case cs_close (clock (length fs)) cs of
                                      (Inl e, cs) \<Rightarrow> Ends (Inl (SessionFailure e)) (Some cs)
                                    | (Inr _, cs) \<Rightarrow> Ends (Inr ()) (Some cs))))))))"

section \<open>Receiving\<close>

text \<open>What the loop has written to the file and handed to the speaker.\<close>

record received =
  written :: "i16 list"
  played :: "i16 list list"

text \<open>The samples of a frame, one after the other; \<open>wr n\<close> is the error of writing the \<open>n\<close>-th sample of the file.\<close>

primrec write_samples :: "(nat \<Rightarrow> string option) \<Rightarrow> i16 list \<Rightarrow> i16 list \<Rightarrow> string option \<times> i16 list" where
  "write_samples wr out [] = (None, out)"
| "write_samples wr out (x # xs) =
     (case wr (length out) of Some e \<Rightarrow> (Some e, out) | None \<Rightarrow> write_samples wr (out @ [x]) xs)"

text \<open>One element of the list is one call of \<open>recv_samples\<close> before the deadline; the end of the list is the deadline.  A call that
  still waits when its events end is the one that the timeout cuts off.  \<open>Inl\<close> is an error of the file.\<close>

primrec receive_loop ::
  "aead \<Rightarrow> bool \<Rightarrow> (nat \<Rightarrow> string option) \<Rightarrow> bool \<Rightarrow> received \<Rightarrow> ('a, 'e, 'd) CodecSession \<Rightarrow>
   (u64 \<times> 'a Env list \<times> 'a recv_event list) list \<Rightarrow> ((string + unit) \<times> received \<times> ('a, 'e, 'd) CodecSession) option" where
  "receive_loop A oc wr speaker out cs [] = Some (Inr (), out, cs)"
| "receive_loop A oc wr speaker out cs (x # xs) =
     (case recv_samples A oc (fst x) cs (fst (snd x)) (snd (snd x)) of
        None \<Rightarrow> None
      | Some (Some (Inr samples), cs) \<Rightarrow>
          (case write_samples wr (written out) samples of
             (Some e, w) \<Rightarrow> Some (Inl e, out\<lparr>written := w\<rparr>, cs)
           | (None, w) \<Rightarrow>
               receive_loop A oc wr speaker
                 (out\<lparr>written := w, played := (if speaker then played out @ [samples] else played out)\<rparr>) cs xs)
      | Some (Some (Inl e), cs) \<Rightarrow> Some (Inr (), out, cs)
      | Some (None, cs) \<Rightarrow> Some (Inr (), out, cs))"

definition no_audio :: received where
  "no_audio = \<lparr>written = [], played = []\<rparr>"

text \<open>\<open>create\<close> and \<open>finalize\<close> are the errors of creating and finishing the file; \<open>speaker\<close> is absent without a device, and
  otherwise the error of opening it, if any.\<close>

definition cmd_receive ::
  "aead \<Rightarrow> kx \<Rightarrow> ('e, 'd) libopus option \<Rightarrow> ServerRandom \<Rightarrow> bool \<Rightarrow> 'a Env \<Rightarrow> string + 'a \<Rightarrow> string option \<Rightarrow> 'a hs_events \<Rightarrow>
   string option \<Rightarrow> (nat \<Rightarrow> string option) \<Rightarrow> string option \<Rightarrow> string option option \<Rightarrow>
   (u64 \<times> 'a Env list \<times> 'a recv_event list) list \<Rightarrow> CodecArg \<Rightarrow> u32 \<Rightarrow> u8 \<Rightarrow> ('a, 'e, 'd) cli_run \<times> received" where
  "cmd_receive A K opus sr oc env addr bound evs create wr finalize speaker calls codec rate channels =
     (case addr of
        Inl e \<Rightarrow> (Ends (Inl (Failure e)) None, no_audio)
      | Inr peer \<Rightarrow>
          (case bound of
             Some e \<Rightarrow> (Ends (Inl (Failure e)) None, no_audio)
           | None \<Rightarrow>
               (case CodecSession_new opus (cli_config rate channels 10) (to_codec_id codec) of
                  None \<Rightarrow> (Panics, no_audio)
                | Some (Inl e) \<Rightarrow> (Ends (Inl (SessionFailure e)) None, no_audio)
                | Some (Inr cs) \<Rightarrow>
                    (case cs_handshake K (ServerSide sr) cs peer evs of
                       (None, _, _) \<Rightarrow> (Waits, no_audio)
                     | (Some (Inl e), cs, _) \<Rightarrow> (Ends (Inl (SessionFailure e)) (Some cs), no_audio)
                     | (Some (Inr _), cs, _) \<Rightarrow>
                         (case (create, speaker) of
                            (Some e, _) \<Rightarrow> (Ends (Inl (Failure e)) (Some cs), no_audio)
                          | (None, Some (Some e)) \<Rightarrow> (Ends (Inl (Failure e)) (Some cs), no_audio)
                          | _ \<Rightarrow>
                              (case receive_loop A oc wr (speaker \<noteq> None) no_audio cs calls of
                                 None \<Rightarrow> (Panics, no_audio)
                               | Some (Inl e, out, cs) \<Rightarrow> (Ends (Inl (Failure e)) (Some cs), out)
                               | Some (Inr _, out, cs) \<Rightarrow>
                                   (case finalize of
                                      Some e \<Rightarrow> (Ends (Inl (Failure e)) (Some cs), out)
                                    | None \<Rightarrow>
                                        (case cs_close env cs of
                                           (Inl e, cs) \<Rightarrow> (Ends (Inl (SessionFailure e)) (Some cs), out)
                                         | (Inr _, cs) \<Rightarrow> (Ends (Inr ()) (Some cs), out)))))))))"

section \<open>Cutting a file into frames\<close>

lemma wav_frames_concat: "length samples \<le> n * k \<Longrightarrow> concat (wav_frames_i16 k n samples) = samples"
  by (induction n arbitrary: samples) (auto simp: Let_def min_def)

lemma wav_frames_length: "0 < k \<Longrightarrow> length samples = m * k \<Longrightarrow> m \<le> n \<Longrightarrow> \<forall>f \<in> set (wav_frames_i16 k n samples). length f = k"
proof (induction n arbitrary: samples m)
  case (Suc n)
  note IH = Suc.IH and prems = Suc.prems
  show ?case
  proof (cases m)
    case 0
    then show ?thesis
      using prems by simp
  next
    case (Suc m')
    then have len: "length samples = k + m' * k" and m': "m' \<le> n"
      using prems(2,3) by simp_all
    have rest: "length (drop k samples) = m' * k"
      by (simp add: len)
    have k: "min k (length samples) = k"
      by (simp add: len)
    have "samples \<noteq> []"
      using len prems(1) by (cases samples) simp_all
    then show ?thesis
      using IH [OF prems(1) rest m'] k len by (simp only: wav_frames_i16.simps Let_def if_False) simp
  qed
qed simp

lemma wav_frames_count:
  assumes "0 < k" and "length samples = m * k" and "m \<le> n"
  shows "length (wav_frames_i16 k n samples) = m"
proof -
  have "length samples \<le> n * k"
    using assms(2,3) by simp
  then have "length (concat (wav_frames_i16 k n samples)) = m * k"
    using assms(2) by (simp only: wav_frames_concat)
  moreover have "length (concat fs) = length fs * k" if "\<forall>f \<in> set fs. length f = k" for fs :: "i16 list list"
    using that by (induction fs) simp_all
  ultimately show ?thesis
    using wav_frames_length [OF assms] assms(1) by simp
qed

text \<open>A file that ends inside a frame: the full frames and then the rest.\<close>

lemma wav_frames_rest:
  "0 < k \<Longrightarrow> length samples = m * k + r \<Longrightarrow> 0 < r \<Longrightarrow> r < k \<Longrightarrow> m < n \<Longrightarrow>
   wav_frames_i16 k n samples = wav_frames_i16 k m (take (m * k) samples) @ [drop (m * k) samples]"
proof (induction m arbitrary: n samples)
  case 0
  then obtain n' where n: "n = Suc n'"
    by (cases n) auto
  have "samples \<noteq> []" "min k (length samples) = length samples"
    using 0 by auto
  then show ?case
    by (cases n') (simp_all add: n)
next
  case (Suc m)
  then obtain n' where n: "n = Suc n'" "m < n'"
    by (cases n) auto
  have len: "length (drop k samples) = m * k + r" "k \<le> length samples"
    using Suc.prems(2) by simp_all
  have ne: "samples \<noteq> []" "take (Suc m * k) samples \<noteq> []"
    using Suc.prems(1) len(2) by (cases samples; cases k; simp)+
  have "wav_frames_i16 k n' (drop k samples) =
      wav_frames_i16 k m (take (m * k) (drop k samples)) @ [drop (m * k) (drop k samples)]"
    by (rule Suc.IH [OF Suc.prems(1) len(1) Suc.prems(3,4) n(2)])
  then show ?case
    using ne len(2) Suc.prems(2) by (simp add: n(1) Let_def take_drop add.commute)
qed

lemma write_ok: "write_samples (\<lambda>_. None) out xs = (None, out @ xs)"
  by (induction xs arbitrary: out) simp_all

section \<open>The two loops and the stream\<close>

lemma chunks_length: "send_chunks A cs xs = Some (chs, cs') \<Longrightarrow> length (up_to_frames pend chs) = length xs"
proof (induction xs arbitrary: cs chs pend)
  case (Cons x xs)
  then obtain cs1 ch chs1 where "send_chunks A cs1 xs = Some (chs1, cs')" "chs = ch # chs1"
    by (auto split: prod.splits sum.splits option.splits)
  then show ?case
    using Cons.IH by simp
qed simp

lemma send_frames_chunks: "send_chunks A cs xs = Some (chs, cs') \<Longrightarrow> send_frames A cs xs = (Inr (), cs')"
proof (induction xs arbitrary: cs chs)
  case (Cons x xs)
  then obtain cs1 chs1 where "send_samples A (fst x) cs (snd x) = (Inr (), cs1)" "send_chunks A cs1 xs = Some (chs1, cs')"
    by (auto split: prod.splits sum.splits option.splits)
  then show ?case
    using Cons.IH by auto
qed simp

lemma send_frames_append:
  "send_frames A cs (xs @ ys) = (case send_frames A cs xs of (Inl e, cs') \<Rightarrow> (Inl e, cs') | (Inr _, cs') \<Rightarrow> send_frames A cs' ys)"
  by (induction xs arbitrary: cs) (auto split: prod.splits sum.splits)

lemma receive_loop_calls:
  "recv_calls A oc calls cs = Some (map (\<lambda>pcm. Some (Inr pcm)) pcms, cs') \<Longrightarrow>
   receive_loop A oc (\<lambda>_. None) speaker out cs (calls @ later) =
   receive_loop A oc (\<lambda>_. None) speaker
     (out\<lparr>written := written out @ concat pcms, played := (if speaker then played out @ pcms else played out)\<rparr>) cs' later"
proof (induction calls arbitrary: cs pcms out)
  case (Cons x calls)
  then obtain cs1 pcm pcms1 where "recv_samples A oc (fst x) cs (fst (snd x)) (snd (snd x)) = Some (Some (Inr pcm), cs1)"
    "recv_calls A oc calls cs1 = Some (map (\<lambda>pcm. Some (Inr pcm)) pcms1, cs')" "pcms = pcm # pcms1"
    by (auto split: option.splits prod.splits)
  then show ?case
    using Cons.IH by (simp add: write_ok)
qed simp

lemma cs_close_ok: "\<exists>cs'. cs_close env cs = (Inr (), cs')"
  by (simp add: cs_close_def close_session_def Let_def)

lemma receive_loop_closed:
  assumes "stream_at A k s (inner v) pend" and "plc_queue v = []" and "is_close d"
    and "arrives (cfg_jitter_buffer_ms (s_config (inner v))) q call (pend @ [d])"
  shows "\<exists>v'. receive_loop A oc wr speaker out v (call # later) = Some (Inr (), out, v')"
  using stream_closed [OF assms(1,3), of q "snd (snd call)" "fst (snd call)" "fst call" oc] assms(2,4)
  by (auto simp: arrives_def recv_samples_def)

lemma clocked_frames:
  assumes "\<forall>f \<in> set fs. length f = k" and "\<forall>i. accepts (clock i) p"
  shows "\<forall>x \<in> set (zip (map clock is) fs). accepts (fst x) p \<and> length (snd x) = k"
proof
  fix x assume "x \<in> set (zip (map clock is) fs)"
  then have "fst x \<in> set (map clock is)" "snd x \<in> set fs"
    by (metis prod.collapse set_zip_leftD, metis prod.collapse set_zip_rightD)
  then show "accepts (fst x) p \<and> length (snd x) = k"
    using assms by auto
qed

lemma cli_config_fields:
  "cfg_sample_rate (cli_config rate ch ms) = rate" "cfg_channels (cli_config rate ch ms) = ch"
  "cfg_frame_duration_ms (cli_config rate ch ms) = ms" "cfg_mtu (cli_config rate ch ms) = 1200"
  "cfg_jitter_buffer_ms (cli_config rate ch ms) = DEFAULT_JITTER_BUFFER_MS"
  by (simp_all add: cli_config_def Config_default_def size_consts)

lemma cli_session: "\<exists>cs. CodecSession_new opus (cli_config rate ch 10) Pcm = Some (Inr cs)"
  by (rule new_pcm_exists)
     (simp_all add: cli_config_def Config_default_def DEFAULT_MAX_BITRATE_def DEFAULT_JITTER_BUFFER_MS_def max_def)

lemma cli_sizes:
  assumes "k = unat rate * 10 div 1000 * unat ch" and "2 * k \<le> 1152"
  defines "cfg \<equiv> cli_config rate ch 10"
  defines "pcm \<equiv> PcmCodec_new (cfg_sample_rate cfg) (cfg_channels cfg) (cfg_frame_duration_ms cfg)"
  shows "2 * total_samples pcm \<le> 1156" "2 * total_samples pcm + 48 \<le> cfg_mtu cfg" "112 \<le> cfg_mtu cfg" "total_samples pcm = k"
proof -
  show "total_samples pcm = k"
    using assms(1) by (simp add: pcm_def cfg_def cli_config_fields PcmCodec_new_def total_samples_def samples_per_channel_def)
  then show "2 * total_samples pcm \<le> 1156" "2 * total_samples pcm + 48 \<le> cfg_mtu cfg" "112 \<le> cfg_mtu cfg"
    using assms(2) by (simp_all add: cfg_def cli_config_fields)
qed

lemma wav_source:
  assumes "wav path = Inr (ucast ch, Inr samples)" and "path \<noteq> ''sine''" and "unat duration_s * 100 < 2 ^ 64"
  shows "source_frames oc tone wav None path duration_s rate ch =
    Some (Inr (wav_frames_i16 (unat rate * 10 div 1000 * unat ch) (unat duration_s * 100) samples))"
proof -
  have "unat (duration_s * 100) = unat duration_s * 100"
    using assms(3) by (simp add: unat_mult_lem [THEN iffD1])
  then show ?thesis
    using assms by (simp add: source_frames_def cli_config_def open_wav_def Let_def)
qed

text \<open>The commands after their set-up.\<close>

lemma cmd_send_frames:
  assumes "CodecSession_new opus (cli_config rate ch 10) Pcm = Some (Inr cs)"
    and "cs_handshake K (ClientSide cr) cs sa evs = (Some (Inr ()), c1, [])"
  shows "cmd_send A K opus cr clock (Inr sa) None evs (Some (Inr fs)) PcmArg rate ch =
    (case send_frames A c1 (zip (map clock [0..<length fs]) fs) of
       (Inl e, c) \<Rightarrow> Ends (Inl (SessionFailure e)) (Some c)
     | (Inr _, c) \<Rightarrow> Ends (Inr ()) (Some (c\<lparr>inner := snd (close_session (clock (length fs)) (inner c))\<rparr>)))"
  using assms cs_close_ok
  by (auto simp: cmd_send_def to_codec_id_def cs_close_def close_session_def Let_def split: prod.splits sum.splits option.splits)

lemma cmd_receive_stream:
  assumes "CodecSession_new opus (cli_config rate ch 10) Pcm = Some (Inr cs)"
    and "cs_handshake K (ServerSide sr) cs ca evs = (Some (Inr ()), v1, [])"
    and "recv_calls A False calls v1 = Some (map (\<lambda>pcm. Some (Inr pcm)) pcms, v2)"
    and "stream_at A key s (inner v2) pend" and "plc_queue v2 = []" and "is_close d"
    and "arrives (cfg_jitter_buffer_ms (s_config (inner v2))) q call (pend @ [d])" and "speaker \<in> {None, Some None}"
  shows "\<exists>v out. cmd_receive A K opus sr False env (Inr ca) None evs None (\<lambda>_. None) None speaker (calls @ [call]) PcmArg rate ch =
    (Ends (Inr ()) (Some v), out) \<and> written out = concat pcms"
proof -
  define out where "out = no_audio\<lparr>written := concat pcms, played := (if speaker \<noteq> None then pcms else [])\<rparr>"
  from receive_loop_closed [OF assms(4-7)] obtain v3 where
    "receive_loop A False (\<lambda>_. None) (speaker \<noteq> None) out v2 [call] = Some (Inr (), out, v3)"
    by blast
  moreover have "receive_loop A False (\<lambda>_. None) (speaker \<noteq> None) no_audio v1 (calls @ [call]) =
      receive_loop A False (\<lambda>_. None) (speaker \<noteq> None) out v2 [call]"
    using receive_loop_calls [OF assms(3), of "speaker \<noteq> None" no_audio "[call]"]
    by (simp add: out_def no_audio_def del: receive_loop.simps)
  ultimately have loop: "receive_loop A False (\<lambda>_. None) (speaker \<noteq> None) no_audio v1 (calls @ [call]) = Some (Inr (), out, v3)"
    by simp
  obtain v4 where "cs_close env v3 = (Inr (), v4)"
    using cs_close_ok by blast
  then show ?thesis
    using assms(1,2,8) loop by (auto simp: cmd_receive_def to_codec_id_def out_def)
qed

text \<open>The receiver of a stream and its close.\<close>

lemma cmd_receive_transfer:
  assumes cs: "CodecSession_new opus (cli_config rate ch 10) Pcm = Some (Inr cs)"
    and hs: "cs_handshake K (ServerSide sr) cs ca evs = (Some (Inr ()), v1, [])" and close: "is_close close"
    and xs: "map (\<lambda>x. Some (Inr (snd x) :: CodecSessionError + i16 list)) xs = map (\<lambda>pcm. Some (Inr pcm)) fs"
    and received: "\<And>calls. list_all2 (arrives DEFAULT_JITTER_BUFFER_MS ca) calls (up_to_frames [] chs) \<Longrightarrow>
       \<exists>v2. recv_calls A False calls v1 = Some (map (\<lambda>x. Some (Inr (snd x))) xs, v2) \<and>
          stream_at A key (inner c2) (inner v2) (left_over [] chs) \<and> plc_queue v2 = [] \<and>
          cfg_jitter_buffer_ms (s_config (inner v2)) = DEFAULT_JITTER_BUFFER_MS"
    and arr: "list_all2 (arrives DEFAULT_JITTER_BUFFER_MS ca) calls (up_to_frames [] chs @ [left_over [] chs @ [close]])"
    and sp: "speaker \<in> {None, Some None}"
  shows "\<exists>v out. cmd_receive A K opus sr False env (Inr ca) None evs None (\<lambda>_. None) None speaker calls PcmArg rate ch =
    (Ends (Inr ()) (Some v), out) \<and> written out = concat fs"
proof -
  obtain calls1 call1 where calls: "calls = calls1 @ [call1]"
    "list_all2 (arrives DEFAULT_JITTER_BUFFER_MS ca) calls1 (up_to_frames [] chs)"
    "arrives DEFAULT_JITTER_BUFFER_MS ca call1 (left_over [] chs @ [close])"
    using arr by (auto simp: list_all2_append2 list_all2_Cons2)
  obtain v2 where v2: "recv_calls A False calls1 v1 = Some (map (\<lambda>pcm. Some (Inr pcm)) fs, v2)"
    "stream_at A key (inner c2) (inner v2) (left_over [] chs)" "plc_queue v2 = []"
    "cfg_jitter_buffer_ms (s_config (inner v2)) = DEFAULT_JITTER_BUFFER_MS"
    using received [OF calls(2)] unfolding xs by blast
  have "arrives (cfg_jitter_buffer_ms (s_config (inner v2))) ca call1 (left_over [] chs @ [close])"
    using calls(3) v2(4) by simp
  from cmd_receive_stream [OF cs hs v2(1-3) close this sp] show ?thesis
    by (simp add: calls(1))
qed

section \<open>Properties\<close>


text \<open>A file that does not end at a frame boundary.  When the length of the file is not a multiple of the frame, \<open>gs send\<close> with
  PCM sends the full frames and then fails with a frame size mismatch on the rest.  The rest is not sent, and neither is a
  close packet: the session is exactly as after the last full frame, still active, and the other side is not told.\<close>

lemma partial_frame_aborts:
  fixes clock :: "nat \<Rightarrow> 'a Env" and opus :: "('e, 'd) libopus option" and sa :: 'a and ca :: 'a and sr :: ServerRandom
  assumes frame: "k = unat rate * 10 div 1000 * unat ch" "0 < k" "2 * k \<le> 1152"
    and source: "wav path = Inr (ucast ch, Inr samples)" "path \<noteq> ''sine''" "length samples mod k \<noteq> 0"
      "length samples \<le> unat duration_s * 100 * k" "unat duration_s * 100 < 2 ^ 64"
    and crypto: "kx_ok K" "aead_ok A" "\<forall>k n a m. aead_encrypt A k n a m \<noteq> None"
    and nonces: "length (cr_nonce cr) = 32" "length (sr_nonce sr) = 32"
    and net: "accepts e1 sa" "accepts f1 ca" "accepts f2 ca" "\<forall>i. accepts (clock i) sa"
  shows "\<exists>d2 d4 c1 chs c. cmd_send A K opus cr clock (Inr sa) None
      [(e1, HsRecv (RecvData d2 sa)), (e2, HsRecv (RecvData d4 sa))]
      (source_frames oc tone wav None path duration_s rate ch) PcmArg rate ch =
    Ends (Inl (SessionFailure (CodecFailed (FrameSizeMismatch k (length samples mod k))))) (Some c) \<and>
    send_chunks A c1 (zip (map clock [0..<length samples div k])
      (wav_frames_i16 k (length samples div k) (take (length samples div k * k) samples))) = Some (chs, c) \<and>
    sm_state (s_state (inner c)) = S_Active \<and> map snd (outbox (inner c)) = map snd (outbox (inner c1)) @ concat chs"
proof -
  let ?cfg = "cli_config rate ch 10" and ?m = "length samples div k"
  let ?full = "wav_frames_i16 k ?m (take (?m * k) samples)" and ?rest = "drop (?m * k) samples"
  let ?xs = "zip (map clock [0..<?m]) ?full"
  obtain cs :: "('a, 'e, 'd) CodecSession" where cs: "CodecSession_new opus ?cfg Pcm = Some (Inr cs)"
    using cli_session by blast
  note sizes = cli_sizes [OF frame(1,3)]
  have len: "length samples = ?m * k + length samples mod k" "0 < length samples mod k" "length samples mod k < k"
    using source(3) frame(2) by simp_all
  then have "?m * k < unat duration_s * 100 * k"
    using source(4) by linarith
  then have m: "?m < unat duration_s * 100"
    by simp
  have full: "length (take (?m * k) samples) = ?m * k" "length ?rest = length samples mod k"
    by (simp_all add: minus_div_mult_eq_mod)
  have fs: "\<forall>f \<in> set ?full. length f = k" "length ?full = ?m"
    by (rule wav_frames_length [OF frame(2) full(1) le_refl], rule wav_frames_count [OF frame(2) full(1) le_refl])
  have "\<forall>x \<in> set ?xs. accepts (fst x) sa \<and> length (snd x) =
      total_samples (PcmCodec_new (cfg_sample_rate ?cfg) (cfg_channels ?cfg) (cfg_frame_duration_ms ?cfg))"
    unfolding sizes(4) by (rule clocked_frames [OF fs(1) net(4)])
  from pcm_call [OF cs cs refl refl refl refl sizes(1-3,3) crypto nonces net(1-3) this, where ?e2.0 = e2]
  obtain d2 d4 c1 chs c2 ds where call:
    "cs_handshake K (ClientSide cr) cs sa [(e1, HsRecv (RecvData d2 sa)), (e2, HsRecv (RecvData d4 sa))] = (Some (Inr ()), c1, [])"
    "send_chunks A c1 ?xs = Some (chs, c2)" "outbox (inner c2) = outbox (inner c1) @ ds" "map snd ds = concat chs"
    "sm_state (s_state (inner c2)) = S_Active"
    "cs_encoder c2 = PcmCoder (PcmCodec_new (cfg_sample_rate ?cfg) (cfg_channels ?cfg) (cfg_frame_duration_ms ?cfg))"
    by blast
  have src: "source_frames oc tone wav None path duration_s rate ch = Some (Inr (?full @ [?rest]))"
    using wav_source [of wav path ch samples duration_s oc tone rate] source(1,2,5) wav_frames_rest [OF frame(2) len m] frame(1)
    by simp
  have "send_samples A (clock ?m) c2 ?rest = (Inl (CodecFailed (FrameSizeMismatch k (length samples mod k))), c2)"
    using call(6) sizes(4) full(2) source(3) frame(2) len(3) by (simp add: send_samples_def PcmCodec_encode_def Let_def)
  then have "send_frames A c1 (zip (map clock [0..<length (?full @ [?rest])]) (?full @ [?rest])) =
      (Inl (CodecFailed (FrameSizeMismatch k (length samples mod k))), c2)"
    using send_frames_chunks [OF call(2)] fs(2) by (simp add: send_frames_append)
  then have "cmd_send A K opus cr clock (Inr sa) None [(e1, HsRecv (RecvData d2 sa)), (e2, HsRecv (RecvData d4 sa))]
      (source_frames oc tone wav None path duration_s rate ch) PcmArg rate ch =
    Ends (Inl (SessionFailure (CodecFailed (FrameSizeMismatch k (length samples mod k))))) (Some c2)"
    unfolding src cmd_send_frames [OF cs call(1)] by simp
  then show ?thesis
    using call(2-5) by (intro exI [of _ d2] exI [of _ d4] exI [of _ c1] exI [of _ chs] exI [of _ c2] conjI) simp_all
qed

section \<open>Examples\<close>

text \<open>Files of 48 kHz mono with so many equal samples.\<close>

definition demo_wav :: "nat \<Rightarrow> string \<Rightarrow> wav_file" where
  "demo_wav n path = Inr (1, Inr (replicate n 7))"

definition demo_clock :: "nat \<Rightarrow> nat Env" where
  "demo_clock i = demo_env (of_nat i)"

lemma demo_cli:
  "480 = unat (48000 :: u32) * 10 div 1000 * unat (1 :: u8)" "(0 :: nat) < 480" "2 * 480 \<le> (1152 :: nat)"
  "demo_wav n path = Inr (ucast (1 :: u8), Inr (replicate n 7))" "''a.wav'' \<noteq> ''sine''"
  "unat (1 :: u64) * 100 < 2 ^ 64" "accepts (demo_env t) q" "\<forall>i. accepts (demo_clock i) q"
  "\<forall>k n a m. aead_encrypt null_aead k n a m \<noteq> None"
  using demo_handshake(6) by (simp_all add: demo_wav_def demo_clock_def null_aead_def)


lemma partial_frame_aborts_witness:
  "\<exists>d2 d4 (c :: (nat, unit, unit) CodecSession).
     cmd_send null_aead demo_kx None demo_cr demo_clock (Inr 20) None
       [(demo_env 1, HsRecv (RecvData d2 20)), (demo_env 2, HsRecv (RecvData d4 20))]
       (source_frames False (\<lambda>_. 0) (demo_wav 500) None ''a.wav'' 1 48000 1) PcmArg 48000 1 =
       Ends (Inl (SessionFailure (CodecFailed (FrameSizeMismatch 480 20)))) (Some c) \<and> sm_state (s_state (inner c)) = S_Active"
proof -
  have len: "length (replicate 500 (7 :: i16)) mod 480 \<noteq> 0" "length (replicate 500 (7 :: i16)) \<le> unat (1 :: u64) * 100 * 480"
    "length (replicate 500 (7 :: i16)) mod 480 = 20"
    by simp_all
  from partial_frame_aborts [where opus = "None :: (unit, unit) libopus option" and tone = "\<lambda>_. 0" and oc = False and wav = "demo_wav 500" and path = "''a.wav''" and ?e2.0 = "demo_env 2",
      OF demo_cli(1-5) len(1,2) demo_cli(6) demo_kx_ok null_aead_ok demo_cli(9) demo_handshake(1,2)
      demo_cli(7) [of 1 20] demo_cli(7) [of 1 10] demo_cli(7) [of 2 10] demo_cli(8)]
  show ?thesis
    unfolding len(3) by blast
qed

end
