(* ===== verification/RelayApi.thy ===== *)
theory RelayApi
  imports Router Rooms RustStr
begin

text \<open>
  \<open>gravital-talk-relay/src/observability.rs\<close>: the HTTP endpoint of the relay with the rooms API.  The HTTP server is
  outside: a request is its method, path and body (\<open>None\<close> when collecting it fails), a response its status, content
  type and body.  The text of the Prometheus encoder is an argument, and so are the clock and the counter that a new room
  code is made from.  Paths and bodies are bytes, as \<open>as_bytes\<close> of the \<open>str\<close> that the code builds.
\<close>

section \<open>Requests and responses\<close>

datatype Method = GET | POST | DELETE | OtherMethod

record Response =
  status :: nat
  content_type :: string
  body :: bytes

definition lit :: "string \<Rightarrow> bytes" where
  "lit cs = as_bytes (ascii cs)"

definition show_number :: "nat \<Rightarrow> bytes" where
  "show_number n = map of_nat (decimal n)"

definition json_response :: "nat \<Rightarrow> bytes \<Rightarrow> Response" where
  "json_response st b =
     (let s = (if b \<noteq> [] \<and> last b = 10 then b else b @ [10])
      in \<lparr>status = st, content_type = ''application/json'', body = s\<rparr>)"

definition method_not_allowed :: Response where
  \<open>method_not_allowed = json_response 405 (lit ''{"error":"method not allowed"}'')\<close>

text \<open>The first \<open>session_id\<close>, the first colon after it, blanks, and the digits that follow.\<close>

definition extract_session_id :: "bytes \<Rightarrow> u32 option" where
  "extract_session_id b =
     (case from_utf8 b of
        None \<Rightarrow> None
      | Some s \<Rightarrow>
          (case after_first (ascii ''session_id'') s of
             None \<Rightarrow> None
           | Some after_key \<Rightarrow>
               (case after_first (ascii '':'') after_key of
                  None \<Rightarrow> None
                | Some rest \<Rightarrow>
                    (let digits = takeWhile is_digit (trim_start rest) in
                     if digits = [] then None else map_option of_nat (parse_uint 32 digits)))))"

section \<open>Handlers\<close>

definition room_json :: "bytes \<Rightarrow> u32 \<Rightarrow> nat \<Rightarrow> bytes" where
  \<open>room_json code sid n =
     lit ''{"code":"'' @ code @ lit ''","session_id":'' @ show_number (unat sid) @
     lit '',"peer_count":'' @ show_number n @ lit ''}''\<close>

definition handle_create_room :: "'a Router \<Rightarrow> u64 \<Rightarrow> u64 \<Rightarrow> bytes \<Rightarrow> Response \<times> 'a Router" where
  \<open>handle_create_room r t c b =
     (let bad = json_response 400 (lit ''{"error":"body must be {'' @ [92, 34] @ lit ''session_id'' @ [92, 34] @
                lit '':N} with N > 0"}'') in
      case extract_session_id b of
        None \<Rightarrow> (bad, r)
      | Some sid \<Rightarrow>
          (if sid = 0 then (bad, r)
           else
             let code = generate_code t c in
             case register_room r code sid of
               (r, True) \<Rightarrow>
                 (json_response 201 (lit ''{"code":"'' @ code @ lit ''","session_id":'' @
                    show_number (unat sid) @ lit ''}''), r)
             | (r, False) \<Rightarrow> (json_response 409 (lit ''{"error":"room code collision, retry"}''), r)))\<close>

definition handle_get_room :: "'a Router \<Rightarrow> bytes \<Rightarrow> Response" where
  \<open>handle_get_room r code =
     (if \<not> is_valid_code code then json_response 400 (lit ''{"error":"invalid room code format"}'')
      else case resolve_room r code of
        Some sid \<Rightarrow> json_response 200 (room_json code sid (peer_count r sid))
      | None \<Rightarrow> json_response 404 (lit ''{"error":"room not found"}''))\<close>

definition handle_delete_room :: "'a Router \<Rightarrow> bytes \<Rightarrow> Response \<times> 'a Router" where
  \<open>handle_delete_room r code =
     (case remove_room r code of
        (r, True) \<Rightarrow> (json_response 200 (lit ''{"deleted":true}''), r)
      | (r, False) \<Rightarrow> (json_response 404 (lit ''{"error":"room not found"}''), r))\<close>

fun join :: "bytes \<Rightarrow> bytes list \<Rightarrow> bytes" where
  "join sep [] = []"
| "join sep [x] = x"
| "join sep (x # y # xs) = x @ sep @ join sep (y # xs)"

definition handle_list_rooms :: "'a Router \<Rightarrow> Response" where
  "handle_list_rooms r =
     (let entries = map (\<lambda>(code, sid, n). room_json code sid n) (list_rooms r)
      in json_response 200 (lit ''['' @ join (lit '','') entries @ lit '']'' @ [10]))"

definition handle ::
  "(RelayMetrics \<Rightarrow> string \<times> bytes) \<Rightarrow> 'a Router \<Rightarrow> u64 \<Rightarrow> u64 \<Rightarrow> Method \<Rightarrow> bytes \<Rightarrow> bytes option \<Rightarrow>
   Response \<times> 'a Router" where
  \<open>handle prometheus r t c method path req_body =
     (let body_bytes = (case req_body of Some b \<Rightarrow> b | None \<Rightarrow> []) in
      if path = lit ''/healthz'' then (json_response 200 (lit ''"ok"''), r)
      else if path = lit ''/metrics'' then
        (case prometheus (metrics r) of (format, buf) \<Rightarrow> (\<lparr>status = 200, content_type = format, body = buf\<rparr>, r))
      else if path = lit ''/api/rooms'' then
        (case method of
           GET \<Rightarrow> (handle_list_rooms r, r)
         | POST \<Rightarrow> handle_create_room r t c body_bytes
         | _ \<Rightarrow> (method_not_allowed, r))
      else case strip_prefix (lit ''/api/rooms/'') path of
        Some code \<Rightarrow>
          (case method of
             GET \<Rightarrow> (handle_get_room r code, r)
           | DELETE \<Rightarrow> handle_delete_room r code
           | _ \<Rightarrow> (method_not_allowed, r))
      | None \<Rightarrow>
          (\<lparr>status = 404, content_type = ''application/json'', body = lit ''{"error":"not found"}'' @ [10]\<rparr>, r))\<close>

section \<open>Reading a number back\<close>

lemma after_first_hit: "after_first pat (pat @ s) = Some s"
  by (subst after_first.simps) simp

lemma after_first_skip: "after_first pat (c # s) = after_first pat s" if "pat \<noteq> []" "c \<noteq> hd pat"
  using that by (cases pat) (simp_all add: after_first.simps [of _ "_ # _"])

lemma show_number_bytes: "show_number n = as_bytes (decimal n)"
proof -
  have "as_bytes s = map of_nat s" if "list_all is_digit s" for s
    using that by (induction s) (simp_all add: as_bytes_def utf8_char_def utf8_units_def digit_class)
  then show ?thesis
    by (simp add: show_number_def decimal_digits)
qed

lemma as_bytes_append: "as_bytes (s @ t) = as_bytes s @ as_bytes t"
  by (simp add: as_bytes_def)

lemma takeWhile_digits: "list_all is_digit ds \<Longrightarrow> \<not> is_digit c \<Longrightarrow> takeWhile is_digit (ds @ c # rest) = ds"
  by (simp add: list_all_iff takeWhile_append)

text \<open>The body that the API documents.\<close>

definition room_request :: "nat \<Rightarrow> bytes" where
  \<open>room_request n = lit ''{"session_id":'' @ show_number n @ lit ''}''\<close>

lemma extract_request: "extract_session_id (room_request n) = (if n < 2 ^ 32 then Some (of_nat n) else None)"
proof -
  let ?head = \<open>ascii ''{"session_id":''\<close>
  define s where "s = ?head @ decimal n @ ascii ''}''"
  have "room_request n = as_bytes s"
    unfolding room_request_def s_def as_bytes_append show_number_bytes lit_def ..
  moreover have "list_all is_scalar s"
    by (simp add: s_def scalar_decimal)
  ultimately have utf8: "from_utf8 (room_request n) = Some s"
    by (simp add: from_utf8_as_bytes)
  have head: "?head = 123 # 34 # ascii ''session_id'' @ [34, 58]"
    by (simp add: ascii_def)
  have key: "ascii ''session_id'' \<noteq> []" "hd (ascii ''session_id'') = 115"
    by (simp_all add: ascii_def)
  have after_key: "after_first (ascii ''session_id'') s = Some (34 # 58 # decimal n @ ascii ''}'')"
    unfolding s_def head using key after_first_hit [of "ascii ''session_id''"] by (simp add: after_first_skip)
  have rest: "after_first (ascii '':'') (34 # 58 # decimal n @ ascii ''}'') = Some (decimal n @ ascii ''}'')"
    using after_first_hit [of "[58]"] by (simp add: ascii_def after_first_skip)
  obtain d ds where dec: "decimal n = d # ds" "is_digit d"
    using decimal_digits [of n] by (cases "decimal n") auto
  have "trim_start (decimal n @ ascii ''}'') = decimal n @ ascii ''}''"
    using dec digit_class(1) by (simp add: trim_start_keep)
  moreover have "takeWhile is_digit (decimal n @ ascii ''}'') = decimal n"
    using takeWhile_digits [OF decimal_digits, of 125 n "[]"] by (simp add: ascii_def is_digit_def in_range_def)
  ultimately show ?thesis
    by (simp add: extract_session_id_def utf8 after_key rest Let_def parse_decimal)
qed

section \<open>Properties\<close>

lemmas lit_eval = lit_def as_bytes_def ascii_def utf8_char_def utf8_units_def

lemma room_path:
  "lit ''/api/rooms/'' @ code \<noteq> lit ''/healthz''" "lit ''/api/rooms/'' @ code \<noteq> lit ''/metrics''"
  "lit ''/api/rooms/'' @ code \<noteq> lit ''/api/rooms''" "strip_prefix (lit ''/api/rooms/'') (lit ''/api/rooms/'' @ code) = Some code"
  "lit ''/api/rooms'' \<noteq> lit ''/healthz''" "lit ''/api/rooms'' \<noteq> lit ''/metrics''"
  by (simp_all add: lit_eval strip_prefix_def)

lemma handle_rooms:
  "handle P r t c POST (lit ''/api/rooms'') (Some b) = handle_create_room r t c b"
  "handle P r t c GET (lit ''/api/rooms/'' @ code) b' = (handle_get_room r code, r)"
  "handle P r t c DELETE (lit ''/api/rooms/'' @ code) b' = handle_delete_room r code"
  using room_path by (simp_all add: handle_def Let_def)

lemma create_room:
  assumes "sid \<noteq> 0" and "resolve_room r (generate_code t c) = None"
  shows \<open>handle_create_room r t c (room_request (unat sid)) =
    (json_response 201 (lit ''{"code":"'' @ generate_code t c @ lit ''","session_id":'' @ show_number (unat sid) @ lit ''}''),
     fst (register_room r (generate_code t c) sid))\<close>
proof -
  have "extract_session_id (room_request (unat sid)) = Some sid"
    using unsigned_less [of sid, where 'a = nat] by (simp add: extract_request)
  moreover have "snd (register_room r (generate_code t c) sid)"
    using assms(2) by (simp add: register_room_def resolve_room_def)
  ultimately show ?thesis
    using assms(1) by (cases "register_room r (generate_code t c) sid") (simp add: handle_create_room_def Let_def)
qed

text \<open>The life of a room over the API.  A request for a usable session identifier, when the generated code is free, creates
  the room and returns its code; the code then resolves to that session identifier, with the number of its peers, without
  changing anything; deleting it succeeds once, after which the code is unknown and every room is as it was before.\<close>

lemma rooms_api_lifecycle:
  assumes "sid \<noteq> 0" and "code = generate_code t c" and "resolve_room r code = None"
    and "handle P r t c POST (lit ''/api/rooms'') (Some (room_request (unat sid))) = (resp1, r1)"
    and "handle P r1 t2 c2 GET (lit ''/api/rooms/'' @ code) b2 = (resp2, r2)"
    and "handle P r2 t3 c3 DELETE (lit ''/api/rooms/'' @ code) b3 = (resp3, r3)"
    and "handle P r3 t4 c4 GET (lit ''/api/rooms/'' @ code) b4 = (resp4, r4)"
  shows \<open>resp1 = json_response 201 (lit ''{"code":"'' @ code @ lit ''","session_id":'' @ show_number (unat sid) @ lit ''}'') \<and>
    resp2 = json_response 200 (room_json code sid (peer_count r sid)) \<and> r2 = r1 \<and>
    resp3 = json_response 200 (lit ''{"deleted":true}'') \<and>
    resp4 = json_response 404 (lit ''{"error":"room not found"}'') \<and> r4 = r3 \<and> resolve_room r4 x = resolve_room r x\<close>
proof -
  have reg: "register_room r code sid = (r1, True)" and resp1:
    \<open>resp1 = json_response 201 (lit ''{"code":"'' @ code @ lit ''","session_id":'' @ show_number (unat sid) @ lit ''}'')\<close>
    using assms(4) create_room [OF assms(1), of r t c] assms(2,3) unfolding handle_rooms
    by (simp_all add: register_room_def resolve_room_def)
  then have r1: "resolve_room r1 y = (if y = code then Some sid else resolve_room r y)" "peer_count r1 = peer_count r" for y
    using assms(3) by (auto simp: register_room_def resolve_room_def update_conv' peer_count_def fun_eq_iff)
  have valid: "is_valid_code code"
    using generated_rooms_valid assms(2) by simp
  have resp2: "resp2 = json_response 200 (room_json code sid (peer_count r sid))" "r2 = r1"
    using assms(5) valid r1 unfolding handle_rooms by (auto simp: handle_get_room_def)
  have rem: "remove_room r1 code = (r3, True)" and resp3: \<open>resp3 = json_response 200 (lit ''{"deleted":true}'')\<close>
    using assms(6) r1(1) [of code] resp2(2) unfolding handle_rooms
    by (auto simp: handle_delete_room_def remove_room_def resolve_room_def)
  then have r3: "resolve_room r3 y = (if y = code then None else resolve_room r1 y)" for y
    by (auto simp: remove_room_def resolve_room_def delete_conv')
  have resp4: \<open>resp4 = json_response 404 (lit ''{"error":"room not found"}'')\<close> "r4 = r3"
    using assms(7) valid r3 unfolding handle_rooms by (auto simp: handle_get_room_def)
  show ?thesis
    using resp1 resp2 resp3 resp4 r1(1) r3 assms(3) by simp
qed

lemma rooms_api_lifecycle_witness:
  "\<forall>P. \<exists>r1 resp. handle P (Router_new 10 8 RelayMetrics_new :: nat Router) 5 6 POST (lit ''/api/rooms'') (Some (room_request 42)) = (resp, r1) \<and>
     handle P r1 0 0 GET (lit ''/api/rooms/'' @ generate_code 5 6) None =
       (json_response 200 (room_json (generate_code 5 6) 42 (peer_count (Router_new 10 8 RelayMetrics_new :: nat Router) 42)), r1)"
proof
  fix P
  let ?r = "Router_new 10 8 RelayMetrics_new :: nat Router" and ?code = "generate_code 5 6"
  obtain resp1 r1 where 1: "handle P ?r 5 6 POST (lit ''/api/rooms'') (Some (room_request (unat (42 :: u32)))) = (resp1, r1)"
    by force
  obtain resp2 r2 where 2: "handle P r1 0 0 GET (lit ''/api/rooms/'' @ ?code) None = (resp2, r2)"
    by force
  obtain resp3 r3 where 3: "handle P r2 0 0 DELETE (lit ''/api/rooms/'' @ ?code) None = (resp3, r3)"
    by force
  obtain resp4 r4 where 4: "handle P r3 0 0 GET (lit ''/api/rooms/'' @ ?code) None = (resp4, r4)"
    by force
  have "(42 :: u32) \<noteq> 0" "resolve_room ?r ?code = None"
    by (simp_all add: Router_new_def resolve_room_def)
  from rooms_api_lifecycle [OF this(1) refl this(2) 1 2 3 4] 1 2
  show "\<exists>r1 resp. handle P ?r 5 6 POST (lit ''/api/rooms'') (Some (room_request 42)) = (resp, r1) \<and>
     handle P r1 0 0 GET (lit ''/api/rooms/'' @ ?code) None = (json_response 200 (room_json ?code 42 (peer_count ?r 42)), r1)"
    by auto
qed

lemma create_effect:
  "handle_create_room r t c b = (resp, r') \<Longrightarrow>
   r' = r\<lparr>rooms := rooms r'\<rparr> \<and> status resp \<in> {400, 409, 201} \<and> (r' = r \<or> status resp = 201)"
  by (auto simp: handle_create_room_def Let_def register_room_def json_response_def split: option.splits if_splits)

lemma delete_effect:
  "handle_delete_room r code = (resp, r') \<Longrightarrow>
   r' = r\<lparr>rooms := rooms r'\<rparr> \<and> status resp \<in> {200, 404} \<and> (r' = r \<or> status resp = 200)"
  by (auto simp: handle_delete_room_def remove_room_def json_response_def delete_id map_of_eq_None_iff split: bool.splits)

lemma read_status:
  "status (json_response n b) = n" "status (handle_list_rooms r) = 200" "status method_not_allowed = 405"
  "status (handle_get_room r code) = (if is_valid_code code then if resolve_room r code = None then 404 else 200 else 400)"
  by (auto simp: handle_get_room_def handle_list_rooms_def method_not_allowed_def json_response_def Let_def split: option.splits)

text \<open>The API touches rooms only.  No request, whatever its method, path and body, changes the routes or the metrics of the
  relay; the rooms change only when a room was created or deleted and the response says so, and every response has one of
  six status codes.\<close>

lemma api_changes_rooms_only:
  "case handle P r t c m path b of (resp, r') \<Rightarrow>
     r' = r\<lparr>rooms := rooms r'\<rparr> \<and> status resp \<in> {200, 201, 400, 404, 405, 409} \<and>
     (r' = r \<or> m = POST \<and> path = lit ''/api/rooms'' \<and> status resp = 201 \<or>
      m = DELETE \<and> strip_prefix (lit ''/api/rooms/'') path \<noteq> None \<and> status resp = 200)"
proof -
  obtain resp r' where h: "handle P r t c m path b = (resp, r')"
    by force
  have "r' = r\<lparr>rooms := rooms r'\<rparr> \<and> status resp \<in> {200, 201, 400, 404, 405, 409} \<and>
     (r' = r \<or> m = POST \<and> path = lit ''/api/rooms'' \<and> status resp = 201 \<or>
      m = DELETE \<and> strip_prefix (lit ''/api/rooms/'') path \<noteq> None \<and> status resp = 200)"
    using h
    by (cases m) (auto simp: handle_def Let_def read_status split: if_splits option.splits prod.splits
        dest!: create_effect delete_effect)
  then show ?thesis
    by (simp only: h prod.case)
qed

end
