(* ===== verification/RelayServer.thy ===== *)
theory RelayServer
  imports Relay RelayApi
begin

text \<open>
  The relay as a whole: \<open>gravital-talk-relay/src/config.rs\<close>, \<open>main.rs\<close>, the accept loops of \<open>udp.rs\<close>, \<open>ws.rs\<close> and
  \<open>observability.rs\<close>, and the command \<open>gs relay\<close> of the command line.  Start-up reads the configuration, builds the router
  and binds three sockets; then the tasks run until one of them fails or the process is interrupted.  A run is a sequence of
  events: datagrams, web-socket connections and messages, HTTP requests, ticks of the collector.  Each event carries its
  time and what the UDP socket answers to sends.  A web-socket connection has a reader and a writer; its channel is closed
  when the writer has ended.
\<close>

section \<open>Configuration\<close>

record 'ip RelayConfig =
  udp_bind :: "'ip \<times> u16"
  ws_bind :: "'ip \<times> u16"
  observability_bind :: "'ip \<times> u16"
  session_ttl_secs :: nat
  cfg_max_sessions :: nat
  cfg_max_peers :: nat

text \<open>\<open>any_ip\<close> is the address 0.0.0.0.\<close>

definition RelayConfig_default :: "'ip \<Rightarrow> 'ip RelayConfig" where
  "RelayConfig_default any_ip =
     \<lparr>udp_bind = (any_ip, 9000), ws_bind = (any_ip, 9090), observability_bind = (any_ip, 9100),
      session_ttl_secs = 300, cfg_max_sessions = 10000, cfg_max_peers = 50\<rparr>"

record 'ip Args =
  arg_config :: "string option"
  arg_udp_bind :: "('ip \<times> u16) option"
  arg_ws_bind :: "('ip \<times> u16) option"
  arg_observability_bind :: "('ip \<times> u16) option"

text \<open>\<open>from_file\<close> is the outcome of reading and parsing the TOML file.\<close>

definition relay_config :: "'ip \<Rightarrow> (string \<Rightarrow> string + 'ip RelayConfig) \<Rightarrow> 'ip Args \<Rightarrow> string + 'ip RelayConfig" where
  "relay_config any_ip from_file args =
     (case (case arg_config args of Some p \<Rightarrow> from_file p | None \<Rightarrow> Inr (RelayConfig_default any_ip)) of
        Inl e \<Rightarrow> Inl e
      | Inr cfg \<Rightarrow>
          (let cfg = (case arg_udp_bind args of Some a \<Rightarrow> cfg\<lparr>udp_bind := a\<rparr> | None \<Rightarrow> cfg);
               cfg = (case arg_ws_bind args of Some a \<Rightarrow> cfg\<lparr>ws_bind := a\<rparr> | None \<Rightarrow> cfg);
               cfg = (case arg_observability_bind args of Some a \<Rightarrow> cfg\<lparr>observability_bind := a\<rparr> | None \<Rightarrow> cfg)
           in Inr cfg))"

text \<open>The command \<open>gs relay\<close>: \<open>resolve\<close> parses the address made of the \<open>bind\<close> option and a port, and every option
  overrides the file.\<close>

definition cmd_relay_config ::
  "'ip \<Rightarrow> (string \<Rightarrow> string + 'ip RelayConfig) \<Rightarrow> (u16 \<Rightarrow> string + ('ip \<times> u16)) \<Rightarrow> string option \<Rightarrow> u16 \<Rightarrow> u16 \<Rightarrow> u16 \<Rightarrow>
   nat \<Rightarrow> nat \<Rightarrow> nat \<Rightarrow> string + 'ip RelayConfig" where
  "cmd_relay_config any_ip from_file resolve config_path udp_port ws_port obs_port session_ttl n_sessions n_peers =
     (case (case config_path of Some p \<Rightarrow> from_file p | None \<Rightarrow> Inr (RelayConfig_default any_ip)) of
        Inl e \<Rightarrow> Inl e
      | Inr cfg \<Rightarrow>
          (case resolve udp_port of Inl e \<Rightarrow> Inl e | Inr u \<Rightarrow>
             (case resolve ws_port of Inl e \<Rightarrow> Inl e | Inr w \<Rightarrow>
                (case resolve obs_port of Inl e \<Rightarrow> Inl e | Inr b \<Rightarrow>
                   Inr (cfg\<lparr>udp_bind := u, ws_bind := w, observability_bind := b, session_ttl_secs := session_ttl,
                            cfg_max_sessions := n_sessions, cfg_max_peers := n_peers\<rparr>)))))"

section \<open>State and events\<close>

record 'a Server =
  relay :: "'a Relay"
  readers :: "nat set"
  writers :: "nat set"
  next_channel :: nat
  ttl :: nat
  running :: bool

definition Server_new :: "'ip RelayConfig \<Rightarrow> 'a Server" where
  "Server_new cfg =
     \<lparr>relay = \<lparr>router = Router_new (cfg_max_sessions cfg) (cfg_max_peers cfg) RelayMetrics_new, sent = []\<rparr>,
      readers = {}, writers = {}, next_channel = 0, ttl = session_ttl_secs cfg, running = True\<rparr>"

text \<open>The three binds in their order; \<open>bind\<close> tells the error of an address, if any.\<close>

definition start_server :: "('ip \<times> u16 \<Rightarrow> string option) \<Rightarrow> 'ip RelayConfig \<Rightarrow> string + 'a Server" where
  "start_server bind cfg =
     (case bind (udp_bind cfg) of Some e \<Rightarrow> Inl e | None \<Rightarrow>
        (case bind (ws_bind cfg) of Some e \<Rightarrow> Inl e | None \<Rightarrow>
           (case bind (observability_bind cfg) of Some e \<Rightarrow> Inl e | None \<Rightarrow> Inr (Server_new cfg))))"

datatype 'a server_event =
    UdpPacket bytes 'a | UdpFailed
  | WsAccepted bool | AcceptFailed
  | WsBinary nat bytes | WsOther nat | WsEnded nat
  | WriterFailed nat | WriterDrained nat
  | HttpRequest u64 u64 Method bytes "bytes option"
  | Tick | Interrupt

type_synonym 'a timed_event = "(nat \<times> (bytes \<Rightarrow> 'a \<Rightarrow> nat option)) \<times> 'a server_event"

definition server_env :: "'a Server \<Rightarrow> nat \<times> (bytes \<Rightarrow> 'a \<Rightarrow> nat option) \<Rightarrow> 'a RelayEnv" where
  "server_env s x = \<lparr>re_now = fst x, re_send = snd x, re_closed = - writers s\<rparr>"

definition add_connections :: "int \<Rightarrow> 'a Relay \<Rightarrow> 'a Relay" where
  "add_connections n = update_metrics (\<lambda>m. m\<lparr>ws_connections := ws_connections m + n\<rparr>)"

definition ws_accept :: "'a Server \<Rightarrow> 'a Server" where
  "ws_accept s =
     (let ch = next_channel s in
      s\<lparr>relay := add_connections 1 (relay s), readers := insert ch (readers s), writers := insert ch (writers s),
        next_channel := ch + 1\<rparr>)"

definition end_writer :: "nat \<Rightarrow> 'a Server \<Rightarrow> 'a Server" where
  "end_writer ch s = s\<lparr>relay := add_connections (- 1) (relay s), writers := writers s - {ch}\<rparr>"

text \<open>The senders of a channel that are left in the routing table.\<close>

definition in_table :: "'a Router \<Rightarrow> nat \<Rightarrow> bool" where
  "in_table r ch \<longleftrightarrow> list_ex (\<lambda>(sid, e). WebSocket ch \<in> set (peers e)) (routes r)"

text \<open>An event that cannot happen in a state (a message of a connection without reader, the end of a writer that has
  ended or whose channel still has senders) leaves the state as it is, and so does every event after the end.\<close>

definition server_step :: "(RelayMetrics \<Rightarrow> string \<times> bytes) \<Rightarrow> 'a Server \<Rightarrow> 'a timed_event \<Rightarrow> 'a Server" where
  "server_step prometheus s x =
     (if \<not> running s then s
      else case snd x of
        UdpPacket d a \<Rightarrow> s\<lparr>relay := udp_datagram (server_env s (fst x)) (relay s) d a\<rparr>
      | UdpFailed \<Rightarrow> s\<lparr>running := False\<rparr>
      | WsAccepted upgraded \<Rightarrow> if upgraded then ws_accept s else s
      | AcceptFailed \<Rightarrow> s\<lparr>running := False\<rparr>
      | WsBinary ch d \<Rightarrow>
          if ch \<in> readers s then s\<lparr>relay := ws_message (server_env s (fst x)) (relay s) d ch\<rparr> else s
      | WsOther ch \<Rightarrow> s
      | WsEnded ch \<Rightarrow> s\<lparr>readers := readers s - {ch}\<rparr>
      | WriterFailed ch \<Rightarrow> if ch \<in> writers s then end_writer ch s else s
      | WriterDrained ch \<Rightarrow>
          if ch \<in> writers s \<and> ch \<notin> readers s \<and> \<not> in_table (router (relay s)) ch then end_writer ch s else s
      | HttpRequest t c m path b \<Rightarrow>
          s\<lparr>relay := (relay s)\<lparr>router := snd (handle prometheus (router (relay s)) t c m path b)\<rparr>\<rparr>
      | Tick \<Rightarrow>
          s\<lparr>relay := (relay s)\<lparr>router := fst (evict_idle (- writers s) (fst (fst x)) (router (relay s)) (ttl s))\<rparr>\<rparr>
      | Interrupt \<Rightarrow> s\<lparr>running := False\<rparr>)"

text \<open>The two programs: configuration, start-up, and the events until the end.\<close>

definition relay_main ::
  "'ip \<Rightarrow> (string \<Rightarrow> string + 'ip RelayConfig) \<Rightarrow> ('ip \<times> u16 \<Rightarrow> string option) \<Rightarrow> (RelayMetrics \<Rightarrow> string \<times> bytes) \<Rightarrow> 'ip Args \<Rightarrow>
   'a timed_event list \<Rightarrow> string + 'a Server" where
  "relay_main any_ip from_file bind prometheus args xs =
     (case relay_config any_ip from_file args of
        Inl e \<Rightarrow> Inl e
      | Inr cfg \<Rightarrow>
          (case start_server bind cfg of Inl e \<Rightarrow> Inl e | Inr s \<Rightarrow> Inr (foldl (server_step prometheus) s xs)))"

definition cmd_relay ::
  "'ip \<Rightarrow> (string \<Rightarrow> string + 'ip RelayConfig) \<Rightarrow> ('ip \<times> u16 \<Rightarrow> string option) \<Rightarrow> (RelayMetrics \<Rightarrow> string \<times> bytes) \<Rightarrow>
   (u16 \<Rightarrow> string + ('ip \<times> u16)) \<Rightarrow> string option \<Rightarrow> u16 \<Rightarrow> u16 \<Rightarrow> u16 \<Rightarrow> nat \<Rightarrow> nat \<Rightarrow> nat \<Rightarrow> 'a timed_event list \<Rightarrow> string + 'a Server" where
  "cmd_relay any_ip from_file bind prometheus resolve config_path udp_port ws_port obs_port session_ttl n_sessions n_peers xs =
     (case cmd_relay_config any_ip from_file resolve config_path udp_port ws_port obs_port session_ttl n_sessions n_peers of
        Inl e \<Rightarrow> Inl e
      | Inr cfg \<Rightarrow>
          (case start_server bind cfg of Inl e \<Rightarrow> Inl e | Inr s \<Rightarrow> Inr (foldl (server_step prometheus) s xs)))"

text \<open>With the default values of its options \<open>gs relay\<close> is \<open>gs-relay\<close> without options.\<close>

lemma relay_defaults_agree:
  "cmd_relay any_ip from_file bind prometheus (\<lambda>p. Inr (any_ip, p)) None 9000 9090 9100 300 10000 50 xs =
   relay_main any_ip from_file bind prometheus
     \<lparr>arg_config = None, arg_udp_bind = None, arg_ws_bind = None, arg_observability_bind = None\<rparr> xs"
  by (simp add: cmd_relay_def relay_main_def cmd_relay_config_def relay_config_def RelayConfig_default_def)

text \<open>A configuration file has no effect on \<open>gs relay\<close> beyond the chance that it cannot be read: every field is overwritten by an
  option or its default value.\<close>

lemma relay_file_ignored:
  assumes "from_file p = Inr cfg"
  shows "cmd_relay any_ip from_file bind prometheus resolve (Some p) udp_port ws_port obs_port session_ttl n_sessions n_peers xs =
    cmd_relay any_ip from_file bind prometheus resolve None udp_port ws_port obs_port session_ttl n_sessions n_peers xs"
  using assms by (cases cfg) (simp add: cmd_relay_def cmd_relay_config_def RelayConfig_default_def split: sum.split)

section \<open>The front ends refine the router\<close>

text \<open>Routers that agree on everything but the counters.\<close>

definition agree :: "'a Router \<Rightarrow> 'a Router \<Rightarrow> bool" where
  "agree r r' \<longleftrightarrow> routes r' = routes r \<and> rooms r' = rooms r \<and> max_sessions r' = max_sessions r \<and>
     max_peers_per_session r' = max_peers_per_session r \<and> active_sessions (metrics r') = active_sessions (metrics r) \<and>
     ws_connections (metrics r') = ws_connections (metrics r)"

lemma agree_refl [simp]: "agree r r"
  by (simp add: agree_def)

lemma agree_sym: "agree r r' \<Longrightarrow> agree r' r"
  by (simp add: agree_def)

lemma agree_trans: "agree r r' \<Longrightarrow> agree r' r'' \<Longrightarrow> agree r r''"
  by (simp add: agree_def)

lemma same_table_agree: "same_table s s' \<Longrightarrow> agree (router s) (router s')"
  by (auto simp: same_table_def agree_def)

lemma agree_route: "agree r r' \<Longrightarrow> agree (fst (Router_route t r sid ep)) (fst (Router_route t r' sid ep))"
  by (cases "map_of (routes r) sid")
     (auto simp: agree_def Router_route_def drop_packet_def inc_dropped_def set_entry_def Let_def)

lemma agree_request: "agree r r' \<Longrightarrow> agree (fst (floor_request t r sid a)) (fst (floor_request t r' sid a))"
  by (cases "map_of (routes r) sid") (auto simp: agree_def floor_request_def set_entry_def Let_def)

lemma agree_release: "agree r r' \<Longrightarrow> agree (fst (floor_release t r sid a)) (fst (floor_release t r' sid a))"
  by (cases "map_of (routes r) sid") (auto simp: agree_def floor_release_def set_entry_def Let_def)

lemma agree_evict: "agree r r' \<Longrightarrow> agree (fst (evict_idle cl t r age)) (fst (evict_idle cl t r' age))"
  by (auto simp: agree_def evict_idle_def Let_def)

text \<open>The router operations of one datagram or message.\<close>

definition relay_ops :: "'a relay_event \<Rightarrow> 'a router_op list" where
  "relay_ops ev =
     (case ev of
        UdpIn d a \<Rightarrow>
          (case PacketView_decode d of
             Inl _ \<Rightarrow> []
           | Inr view \<Rightarrow>
               (let sid = session_id (header view); mt = MessageType_from_code (msg_type (header view)) in
                if mt = Inr FloorRequest then [OpRoute sid (Udp a), OpRequest sid a]
                else if mt = Inr FloorRelease then [OpRelease sid a]
                else [OpRoute sid (Udp a)]))
      | WsIn d ch \<Rightarrow>
          (case PacketView_decode d of
             Inl _ \<Rightarrow> []
           | Inr view \<Rightarrow> [OpRoute (session_id (header view)) (WebSocket ch)]))"

lemma relay_ops_route:
  "OpRoute sid ep \<in> set (relay_ops (UdpIn d a)) \<Longrightarrow> ep = Udp a"
  "OpRoute sid ep \<in> set (relay_ops (WsIn d ch)) \<Longrightarrow> ep = WebSocket ch"
  by (auto simp: relay_ops_def Let_def split: sum.splits if_splits)

lemma udp_refines:
  "agree (fst (router_run (router s) (map (Pair (re_now env)) (relay_ops (UdpIn d a))))) (router (udp_datagram env s d a))"
proof (cases "PacketView_decode d")
  case (Inl err)
  then show ?thesis
    using malformed_spec(1) [OF Inl, of env s a] same_table_agree [OF same_table_metrics(2) [OF count_in_table]]
    by (simp add: relay_ops_def)
next
  case (Inr view)
  let ?s = "update_metrics (count_in (length d)) s" and ?sid = "session_id (header view)" and ?t = "re_now env"
  let ?mt = "MessageType_from_code (msg_type (header view))"
  have start: "agree (router s) (router ?s)"
    by (rule same_table_agree [OF count_in_table])
  consider "?mt = Inr FloorRequest" | "?mt = Inr FloorRelease" | "?mt \<noteq> Inr FloorRequest" "?mt \<noteq> Inr FloorRelease"
    by blast
  then show ?thesis
  proof cases
    case 1
    obtain r2 dec where req: "floor_request ?t (fst (Router_route ?t (router ?s) ?sid (Udp a))) ?sid a = (r2, dec)"
      by force
    have "udp_datagram env s d a = floor_answer env ?sid a (?s\<lparr>router := r2\<rparr>) dec"
      by (rule udp_floor_request [OF Inr 1 refl refl req])
    then have "agree r2 (router (udp_datagram env s d a))"
      using same_table_agree [OF floor_answer_spec(1), of "?s\<lparr>router := r2\<rparr>" env ?sid a dec] by simp
    moreover have "agree (fst (floor_request ?t (fst (Router_route ?t (router s) ?sid (Udp a))) ?sid a)) r2"
      using agree_request [OF agree_route [OF start], of ?t ?t ?sid "Udp a" ?sid a] req by simp
    ultimately show ?thesis
      using Inr 1 by (simp add: relay_ops_def Let_def split_beta agree_trans)
  next
    case 2
    obtain r2 dec where req: "floor_release ?t (router ?s) ?sid a = (r2, dec)"
      by force
    note all = forward_all(5) [where s = "?s\<lparr>router := r2\<rparr>" and env = env and msg = FloorRelease and sid = ?sid]
    have "agree r2 (router (udp_datagram env s d a))"
      using Inr 2 req same_table_agree [OF all]
      by (cases dec) (auto simp: udp_datagram_def handle_floor_release_def Let_def)
    moreover have "agree (fst (floor_release ?t (router s) ?sid a)) r2"
      using agree_release [OF start, of ?t ?sid a] req by simp
    ultimately show ?thesis
      using Inr 2 by (simp add: relay_ops_def Let_def split_beta agree_trans)
  next
    case 3
    obtain r1 dec where r: "Router_route ?t (router ?s) ?sid (Udp a) = (r1, dec)"
      by force
    have "udp_datagram env s d a = foldl (forward_to env d) (?s\<lparr>router := r1\<rparr>) (targets_of dec)"
      using Inr 3 r
      by (auto simp: udp_datagram_def route_datagram_def Let_def targets_of_def split: sum.splits MessageType.splits
          RouteDecision.splits)
    then have "agree r1 (router (udp_datagram env s d a))"
      using same_table_agree [OF forward_all(1), of "?s\<lparr>router := r1\<rparr>" env d "targets_of dec"] by simp
    moreover have "agree (fst (Router_route ?t (router s) ?sid (Udp a))) r1"
      using agree_route [OF start, of ?t ?sid "Udp a"] r by simp
    moreover have "relay_ops (UdpIn d a) = [OpRoute ?sid (Udp a)]"
      using Inr 3 by (simp add: relay_ops_def)
    ultimately show ?thesis
      by (simp add: agree_trans)
  qed
qed

lemma ws_refines:
  "agree (fst (router_run (router s) (map (Pair (re_now env)) (relay_ops (WsIn d ch))))) (router (ws_message env s d ch))"
proof (cases "PacketView_decode d")
  case (Inl err)
  then show ?thesis
    using malformed_spec(2) [OF Inl, of env s ch] same_table_agree [OF same_table_metrics(2) [OF count_in_table]]
    by (simp add: relay_ops_def)
next
  case (Inr view)
  let ?s = "update_metrics (count_in (length d)) s" and ?sid = "session_id (header view)" and ?t = "re_now env"
  obtain r1 dec where r: "Router_route ?t (router ?s) ?sid (WebSocket ch) = (r1, dec)"
    by force
  have "ws_message env s d ch = foldl (ws_forward env d) (?s\<lparr>router := r1\<rparr>) (targets_of dec)"
    using Inr r by (simp add: ws_message_def route_datagram_def Let_def targets_of_def split: RouteDecision.splits)
  then have "agree r1 (router (ws_message env s d ch))"
    using same_table_agree [OF forward_all(3), of "?s\<lparr>router := r1\<rparr>" env d "targets_of dec"] by simp
  moreover have "agree (fst (Router_route ?t (router s) ?sid (WebSocket ch))) r1"
    using agree_route [OF same_table_agree [OF count_in_table [of s "length d"]], of ?t ?sid "WebSocket ch"] r by simp
  ultimately show ?thesis
    using Inr by (simp add: relay_ops_def agree_trans)
qed

section \<open>Channels in the routing table\<close>

lemma in_table_iff: "in_table r ch \<longleftrightarrow> (\<exists>sid e. (sid, e) \<in> set (routes r) \<and> WebSocket ch \<in> set (peers e))"
  by (auto simp: in_table_def list_ex_iff)

lemma set_update_alist: "set (AList.update k v xs) \<subseteq> insert (k, v) (set xs)"
  by (induction xs) auto

lemma in_table_set_entry:
  "in_table (set_entry sid e r) ch \<Longrightarrow> in_table r ch \<or> WebSocket ch \<in> set (peers e)"
  using set_update_alist [of sid e "routes r"] by (auto simp: in_table_iff set_entry_def)

lemma in_table_entry: "map_of (routes r) sid = Some e \<Longrightarrow> WebSocket ch \<in> set (peers e) \<Longrightarrow> in_table r ch"
  by (auto simp: in_table_iff dest: map_of_SomeD)

lemma in_table_metrics [simp]: "in_table (r\<lparr>metrics := m\<rparr>) ch = in_table r ch" "in_table (drop_packet x r) ch = in_table r ch"
  by (simp_all add: in_table_def drop_packet_def)

lemma in_table_route:
  assumes "in_table (fst (Router_route t r sid ep)) ch"
  shows "in_table r ch \<or> ep = WebSocket ch"
proof (cases "map_of (routes r) sid")
  case None
  then show ?thesis
    using assms by (auto simp: Router_route_def RouteEntry_new_def Let_def split: if_splits dest!: in_table_set_entry)
next
  case (Some e)
  then show ?thesis
    using assms in_table_entry [OF Some, of ch]
    by (auto simp: Router_route_def Let_def split: if_splits dest!: in_table_set_entry)
qed

lemma evict_fields:
  "routes (fst (evict_idle cl t r age)) =
     filter (\<lambda>(sid, e). peers e \<noteq> [] \<and> t - last_activity e < age * 10 ^ 9)
       (map (\<lambda>(sid, e). (sid, e\<lparr>peers := filter (keep_peer cl) (peers e)\<rparr>)) (routes r))"
  "rooms (fst (evict_idle cl t r age)) = rooms r"
  "ws_connections (metrics (fst (evict_idle cl t r age))) = ws_connections (metrics r)"
  by (simp_all add: evict_idle_def Let_def)

lemma in_table_apply:
  assumes "in_table (fst (router_apply t r op)) ch"
  shows "in_table r ch \<or> (\<exists>sid. op = OpRoute sid (WebSocket ch))"
proof (cases op)
  case (OpRoute sid ep)
  then show ?thesis
    using assms in_table_route [of t r sid ep ch] by auto
next
  case (OpRequest sid a)
  then show ?thesis
    using assms in_table_entry [of r sid _ ch]
    by (auto simp: floor_request_def Let_def split: option.splits if_splits prod.splits dest!: in_table_set_entry)
next
  case (OpRelease sid a)
  then show ?thesis
    using assms in_table_entry [of r sid _ ch]
    by (auto simp: floor_release_def Let_def split: option.splits if_splits prod.splits dest!: in_table_set_entry)
next
  case (OpEvict cl age)
  then show ?thesis
    using assms by (auto simp: in_table_iff evict_fields) blast
qed

lemma in_table_run:
  "in_table (fst (router_run r ops)) ch \<Longrightarrow> in_table r ch \<or> (\<exists>t sid. (t, OpRoute sid (WebSocket ch)) \<in> set ops)"
proof (induction ops arbitrary: r)
  case (Cons x xs)
  then show ?case
    using in_table_apply [of "fst x" r "snd x" ch] by (auto simp: split_beta) (metis prod.collapse)
qed simp

lemma in_table_agree: "agree r r' \<Longrightarrow> in_table r' = in_table r"
  by (simp add: agree_def in_table_def fun_eq_iff)

section \<open>Invariant and outputs of the server\<close>

definition server_inv :: "nat \<Rightarrow> nat \<Rightarrow> 'a Server \<Rightarrow> bool" where
  "server_inv ms mp s \<longleftrightarrow>
     router_inv (router (relay s)) \<and> max_sessions (router (relay s)) = ms \<and> max_peers_per_session (router (relay s)) = mp \<and>
     finite (writers s) \<and> readers s \<union> writers s \<subseteq> {..<next_channel s} \<and>
     ws_connections (metrics (router (relay s))) = int (card (writers s)) \<and>
     (\<forall>ch. in_table (router (relay s)) ch \<longrightarrow> ch < next_channel s)"

definition server_output :: "'a timed_event \<Rightarrow> 'a SessionEndpoint \<times> bytes \<Rightarrow> bool" where
  "server_output x y \<longleftrightarrow>
     (case snd x of
        UdpPacket d a \<Rightarrow> event_output (UdpIn d a) y
      | WsBinary ch d \<Rightarrow> event_output (WsIn d ch) y
      | _ \<Rightarrow> False)"

lemma Server_new_inv: "server_inv (cfg_max_sessions cfg) (cfg_max_peers cfg) (Server_new cfg)"
  using new_router_inv [of RelayMetrics_new "cfg_max_sessions cfg" "cfg_max_peers cfg"]
  by (simp add: server_inv_def Server_new_def RelayMetrics_new_def Router_new_def in_table_def)

lemma router_run_gauge [simp]:
  "ws_connections (metrics (fst (router_run r ops))) = ws_connections (metrics r)"
proof (induction ops arbitrary: r)
  case (Cons x xs)
  have "ws_connections (metrics (fst (router_apply (fst x) r (snd x)))) = ws_connections (metrics r)"
    by (cases "snd x")
       (auto simp: evict_fields Router_route_def floor_request_def floor_release_def drop_packet_def inc_dropped_def Let_def
         split: option.splits prod.splits)
  then show ?case
    using Cons.IH by (simp add: split_beta)
qed simp

text \<open>A step of the front ends keeps the invariant, given what it does to the router.\<close>

lemma front_end_inv:
  assumes "server_inv ms mp s" and "agree (fst (router_run (router (relay s)) (map (Pair t) ops))) (router rl)"
    and "router_inv (router rl)" and "\<forall>sid ch. OpRoute sid (WebSocket ch) \<in> set ops \<longrightarrow> ch < next_channel s"
  shows "server_inv ms mp (s\<lparr>relay := rl\<rparr>)"
proof -
  have "ch < next_channel s" if "in_table (router rl) ch" for ch
    using that in_table_run [of "router (relay s)" "map (Pair t) ops" ch] in_table_agree [OF assms(2)] assms(1,4)
    by (auto simp: server_inv_def)
  moreover have "max_sessions (router rl) = ms" "max_peers_per_session (router rl) = mp"
    "ws_connections (metrics (router rl)) = int (card (writers s))"
    using assms(1,2) by (simp_all add: agree_def server_inv_def)
  ultimately show ?thesis
    using assms(1,3) by (simp add: server_inv_def)
qed

lemma connections_fields [simp]:
  "routes (router (add_connections n rl)) = routes (router rl)" "rooms (router (add_connections n rl)) = rooms (router rl)"
  "max_sessions (router (add_connections n rl)) = max_sessions (router rl)"
  "max_peers_per_session (router (add_connections n rl)) = max_peers_per_session (router rl)"
  "ws_connections (metrics (router (add_connections n rl))) = ws_connections (metrics (router rl)) + n"
  "active_sessions (metrics (router (add_connections n rl))) = active_sessions (metrics (router rl))"
  "sent (add_connections n rl) = sent rl" "in_table (router (add_connections n rl)) = in_table (router rl)"
  "router_inv (router (add_connections n rl)) = router_inv (router rl)"
  by (simp_all add: add_connections_def update_metrics_def in_table_def router_inv_def fun_eq_iff)

lemma ws_accept_inv: "server_inv ms mp s \<Longrightarrow> server_inv ms mp (ws_accept s)"
proof -
  assume inv: "server_inv ms mp s"
  then have "next_channel s \<notin> writers s"
    by (auto simp: server_inv_def)
  then show ?thesis
    using inv by (auto simp: server_inv_def ws_accept_def Let_def less_Suc_eq)
qed

lemma end_writer_inv: "server_inv ms mp s \<Longrightarrow> ch \<in> writers s \<Longrightarrow> server_inv ms mp (end_writer ch s)"
  using card_Suc_Diff1 [of "writers s" ch] by (auto simp: server_inv_def end_writer_def simp del: card_Diff_insert card_Diff_singleton)

lemma handle_keeps: "snd (handle P r t c m path b) = r\<lparr>rooms := rooms (snd (handle P r t c m path b))\<rparr>"
  using api_changes_rooms_only [where P = P and r = r and t = t and c = c and m = m and path = path and b = b]
  by (simp add: split_beta)

lemma handle_routes [simp]: "routes (snd (handle P r t c m path b)) = routes r"
  by (subst handle_keeps) simp

lemma server_step_inv:
  assumes inv: "server_inv ms mp s"
  shows "server_inv ms mp (server_step P s x)"
proof (cases "running s")
  case True
  let ?env = "server_env s (fst x)"
  have rinv: "router_inv (router (relay s))"
    using inv by (simp add: server_inv_def)
  show ?thesis
  proof (cases "snd x")
    case (UdpPacket d a)
    have "server_inv ms mp (s\<lparr>relay := udp_datagram ?env (relay s) d a\<rparr>)"
      by (rule front_end_inv [OF inv udp_refines])
         (use relay_step_spec [OF rinv, of "(?env, UdpIn d a)"] in \<open>auto dest: relay_ops_route(1)\<close>)
    then show ?thesis
      using True UdpPacket by (simp add: server_step_def)
  next
    case (WsBinary ch d)
    have "server_inv ms mp (s\<lparr>relay := ws_message ?env (relay s) d ch\<rparr>)" if "ch \<in> readers s"
      by (rule front_end_inv [OF inv ws_refines])
         (use relay_step_spec [OF rinv, of "(?env, WsIn d ch)"] that inv in
           \<open>auto simp: server_inv_def dest: relay_ops_route(2)\<close>)
    then show ?thesis
      using True WsBinary inv by (simp add: server_step_def)
  next
    case Tick
    have "server_inv ms mp (s\<lparr>relay := (relay s)\<lparr>router := fst (evict_idle cl t (router (relay s)) age)\<rparr>\<rparr>)" for cl t age
      by (rule front_end_inv [OF inv, where ops = "[OpEvict cl age]" and t = t]) (use evict_inv [OF rinv] in simp_all)
    then show ?thesis
      using True Tick by (simp add: server_step_def)
  next
    case (HttpRequest t c m path b)
    have "server_inv ms mp (s\<lparr>relay := (relay s)\<lparr>router := snd (handle P (router (relay s)) t c m path b)\<rparr>\<rparr>)"
      using inv by (subst handle_keeps) (auto simp: server_inv_def router_inv_def in_table_def)
    then show ?thesis
      using True HttpRequest by (simp add: server_step_def)
  qed (use True inv in \<open>auto simp: server_step_def ws_accept_inv end_writer_inv, auto simp: server_inv_def\<close>)
qed (simp add: server_step_def inv)

lemma server_step_out:
  assumes "server_inv ms mp s"
  shows "\<exists>os. sent (relay (server_step P s x)) = sent (relay s) @ os \<and> (\<forall>y \<in> set os. server_output x y)"
proof -
  have rinv: "router_inv (router (relay s))"
    using assms by (simp add: server_inv_def)
  note udp = relay_step_spec [OF rinv, of "(server_env s (fst x), UdpIn d a)" for d a, THEN conjunct2]
    and ws = relay_step_spec [OF rinv, of "(server_env s (fst x), WsIn d ch)" for d ch, THEN conjunct2]
  show ?thesis
    using udp ws by (cases "snd x") (auto simp: server_step_def server_output_def ws_accept_def end_writer_def Let_def)
qed

interpretation server: reporting_automaton "server_inv ms mp" "server_step P" "\<lambda>s. sent (relay s)" server_output
  by unfold_locales (rule server_step_inv, assumption, rule server_step_out, assumption)

section \<open>Idle sessions\<close>

text \<open>The session a packet belongs to, and the events that end the process.\<close>

definition event_session :: "'a server_event \<Rightarrow> u32 option" where
  "event_session ev =
     (case ev of
        UdpPacket d a \<Rightarrow> (case PacketView_decode d of Inr view \<Rightarrow> Some (session_id (header view)) | Inl _ \<Rightarrow> None)
      | WsBinary ch d \<Rightarrow> (case PacketView_decode d of Inr view \<Rightarrow> Some (session_id (header view)) | Inl _ \<Rightarrow> None)
      | _ \<Rightarrow> None)"

definition fatal :: "'a server_event \<Rightarrow> bool" where
  "fatal ev \<longleftrightarrow> (case ev of UdpFailed \<Rightarrow> True | AcceptFailed \<Rightarrow> True | Interrupt \<Rightarrow> True | _ \<Rightarrow> False)"

definition last_seen :: "u32 \<Rightarrow> (nat \<Rightarrow> bool) \<Rightarrow> 'a Router \<Rightarrow> bool" where
  "last_seen sid Q r \<longleftrightarrow> (\<forall>e. map_of (routes r) sid = Some e \<longrightarrow> Q (last_activity e))"

lemma last_seen_never: "last_seen sid (\<lambda>_. False) r \<longleftrightarrow> map_of (routes r) sid = None"
  by (simp add: last_seen_def)

lemma idle_apply:
  assumes "router_inv r" and "last_seen sid Q r" and "\<forall>ep. op \<noteq> OpRoute sid ep"
  shows "last_seen sid Q (fst (router_apply now r op))"
proof (cases op)
  case (OpEvict cl age)
  have "distinct (map fst (routes r))"
    using assms(1) by (simp add: router_inv_def)
  then show ?thesis
    using OpEvict assms(2) by (auto simp: last_seen_def evict_fields dest!: map_of_SomeD)
qed (use assms in \<open>auto simp: last_seen_def Router_route_def floor_request_def floor_release_def drop_packet_def Let_def
      split: option.splits prod.splits if_splits\<close>)

lemma relay_ops_session:
  "op \<in> set (relay_ops (UdpIn d a)) \<Longrightarrow> op = OpRoute sid ep \<Longrightarrow> event_session (UdpPacket d a) = Some sid"
  "op \<in> set (relay_ops (WsIn d ch)) \<Longrightarrow> op = OpRoute sid ep \<Longrightarrow> event_session (WsBinary ch d) = Some sid"
  by (auto simp: relay_ops_def event_session_def Let_def split: sum.splits if_splits)

lemma idle_run:
  "router_inv r \<Longrightarrow> last_seen sid Q r \<Longrightarrow> \<forall>op \<in> set ops. \<forall>ep. snd op \<noteq> OpRoute sid ep \<Longrightarrow>
   last_seen sid Q (fst (router_run r ops))"
  by (induction ops arbitrary: r) (simp_all add: split_beta idle_apply router_apply_inv)

lemma idle_agree: "agree r r' \<Longrightarrow> last_seen sid Q r' = last_seen sid Q r"
  by (simp add: agree_def last_seen_def)

lemma idle_step:
  assumes inv: "server_inv ms mp s" and idle: "last_seen sid Q (router (relay s))" and ev: "event_session (snd x) \<noteq> Some sid"
  shows "last_seen sid Q (router (relay (server_step P s x)))"
proof -
  let ?env = "server_env s (fst x)"
  have rinv: "router_inv (router (relay s))"
    using inv by (simp add: server_inv_def)
  have udp: "last_seen sid Q (router (udp_datagram ?env (relay s) d a))" if "snd x = UdpPacket d a" for d a
    unfolding idle_agree [OF udp_refines]
    by (rule idle_run [OF rinv idle]) (use ev that relay_ops_session(1) in fastforce)
  have ws: "last_seen sid Q (router (ws_message ?env (relay s) d ch))" if "snd x = WsBinary ch d" for d ch
    unfolding idle_agree [OF ws_refines]
    by (rule idle_run [OF rinv idle]) (use ev that relay_ops_session(2) in fastforce)
  have tick: "last_seen sid Q (fst (evict_idle cl now (router (relay s)) age))" for cl now age
    using idle_apply [OF rinv idle, of "OpEvict cl age" now] by simp
  have http: "last_seen sid Q (snd (handle P (router (relay s)) u c m path b))" for u c m path b
    using idle by (simp add: last_seen_def)
  show ?thesis
    using udp ws tick http idle
    by (cases "snd x") (auto simp: server_step_def ws_accept_def end_writer_def Let_def last_seen_def)
qed

lemma idle_events:
  assumes "server_inv ms mp s" and "last_seen sid Q (router (relay s))" and "\<forall>x \<in> set xs. event_session (snd x) \<noteq> Some sid"
  shows "last_seen sid Q (router (relay (foldl (server_step P) s xs)))"
  by (rule server.run_keeps [where P = "\<lambda>s. last_seen sid Q (router (relay s))" and Pa = P and
        ok = "\<lambda>x. event_session (snd x) \<noteq> Some sid", OF idle_step assms(1,3,2)])

lemma server_step_ttl [simp]: "ttl (server_step P s x) = ttl s"
  by (simp add: server_step_def ws_accept_def end_writer_def Let_def split: server_event.splits)

lemma server_run_ttl [simp]: "ttl (foldl (server_step P) s xs) = ttl s"
  by (induction xs arbitrary: s) simp_all

lemma server_run_running:
  "running s \<Longrightarrow> \<forall>x \<in> set xs. \<not> fatal (snd x) \<Longrightarrow> running (foldl (server_step P) s xs)"
proof (induction xs arbitrary: s)
  case (Cons x xs)
  have "running (server_step P s x)"
    using Cons.prems by (cases "snd x") (auto simp: server_step_def ws_accept_def end_writer_def fatal_def Let_def)
  then show ?case
    using Cons by simp
qed simp

section \<open>Properties\<close>


text \<open>C21: idle sessions are collected.  Take a session of a running relay after any history.  When no packet of that session
  arrives any more, the first tick of the collector at least the configured time to live after its last activity removes the
  session, and it stays removed; traffic of other sessions, floor requests of others, HTTP requests and web-socket
  connections do not prolong it.\<close>

theorem idle_session_evicted:
  assumes "s = foldl (server_step P) (Server_new cfg) hist" and "running s"
    and "map_of (routes (router (relay s))) sid = Some e"
    and "last_activity e + session_ttl_secs cfg * 10 ^ 9 \<le> now"
    and "\<forall>x \<in> set (xs @ ys). event_session (snd x) \<noteq> Some sid \<and> \<not> fatal (snd x)"
  shows "map_of (routes (router (relay (foldl (server_step P) s (xs @ ((now, out), Tick) # ys))))) sid = None"
proof -
  let ?ms = "cfg_max_sessions cfg" and ?mp = "cfg_max_peers cfg"
  let ?s1 = "foldl (server_step P) s xs"
  let ?s2 = "server_step P ?s1 ((now, out), Tick)"
  have inv: "server_inv ?ms ?mp s"
    unfolding assms(1) by (rule server.run_inv [OF Server_new_inv])
  have inv1: "server_inv ?ms ?mp ?s1"
    by (rule server.run_inv [OF inv])
  have idle: "last_seen sid (\<lambda>t. t \<le> last_activity e) (router (relay ?s1))"
    by (rule idle_events [OF inv]) (use assms(3,5) in \<open>simp_all add: last_seen_def\<close>)
  have run: "running ?s1" "ttl ?s1 = session_ttl_secs cfg"
    using server_run_running [OF assms(2), of xs P] assms(1,5) by (simp_all add: Server_new_def)
  have "distinct (map fst (routes (router (relay ?s1))))"
    using inv1 by (simp add: server_inv_def router_inv_def)
  then have gone: "map_of (routes (router (relay ?s2))) sid = None"
    using idle run assms(4) by (fastforce simp: server_step_def evict_fields map_of_eq_None_iff last_seen_def)
  have "last_seen sid (\<lambda>_. False) (router (relay (foldl (server_step P) ?s2 ys)))"
    by (rule idle_events [OF server_step_inv [OF inv1]]) (use gone assms(5) in \<open>simp_all add: last_seen_never\<close>)
  then show ?thesis
    by (simp add: last_seen_never)
qed

text \<open>C20: the front ends refine the router.  Whatever a UDP datagram or a web-socket message contains, the routing table, the
  rooms, the limits and the gauges afterwards are those of the router after at most two of its operations, all at the time
  of the event and for the sender of the packet: none for a malformed packet, a registration and a floor request for a floor
  request over UDP, a release for a release over UDP, a registration for everything else.\<close>

theorem front_ends_refine_router:
  "agree (fst (router_run (router s) (map (Pair (re_now env)) (relay_ops (UdpIn d a))))) (router (udp_datagram env s d a)) \<and>
   agree (fst (router_run (router s) (map (Pair (re_now env)) (relay_ops (WsIn d ch))))) (router (ws_message env s d ch))"
  by (rule conjI [OF udp_refines ws_refines])

section \<open>Rooms\<close>

lemma router_run_rooms [simp]: "rooms (fst (router_run r ops)) = rooms r"
proof (induction ops arbitrary: r)
  case (Cons x xs)
  have "rooms (fst (router_apply (fst x) r (snd x))) = rooms r"
    by (cases "snd x")
       (auto simp: evict_fields Router_route_def floor_request_def floor_release_def drop_packet_def Let_def
         split: option.splits prod.splits)
  then show ?case
    using Cons.IH by (simp add: split_beta)
qed simp

lemma handle_room_kept:
  assumes "map_of (rooms r) code = Some sid" and "m \<noteq> DELETE"
  shows "map_of (rooms (snd (handle P r t c m path b))) code = Some sid"
proof -
  have "map_of (rooms (snd (handle_create_room r t c bs))) code = Some sid" for bs
    using assms(1) by (auto simp: handle_create_room_def register_room_def update_conv' Let_def split: option.splits)
  then show ?thesis
    using assms by (cases m) (simp_all add: handle_def Let_def split_beta split: option.splits)
qed

text \<open>Rooms never expire.  Only a DELETE request removes a room: ticks of the collector, the end of its session and the end of
  every connection leave it registered.\<close>

lemma rooms_never_expire:
  assumes "server_inv ms mp s" and "map_of (rooms (router (relay s))) code = Some sid"
    and "\<forall>x \<in> set xs. \<forall>t c path b. snd x \<noteq> HttpRequest t c DELETE path b"
  shows "map_of (rooms (router (relay (foldl (server_step P) s xs)))) code = Some sid"
proof (rule server.run_keeps [where P = "\<lambda>s. map_of (rooms (router (relay s))) code = Some sid" and Pa = P and
      ok = "\<lambda>x. \<forall>t c path b. snd x \<noteq> HttpRequest t c DELETE path b", OF _ assms(1,3,2)])
  fix s :: "'a Server" and x :: "'a timed_event"
  assume room: "map_of (rooms (router (relay s))) code = Some sid"
    and ev: "\<forall>t c path b. snd x \<noteq> HttpRequest t c DELETE path b"
  let ?env = "server_env s (fst x)"
  have udp: "rooms (router (udp_datagram ?env (relay s) d a)) = rooms (router (relay s))" for d a
    using udp_refines [of "relay s" ?env d a] by (simp add: agree_def)
  have ws: "rooms (router (ws_message ?env (relay s) d ch)) = rooms (router (relay s))" for d ch
    using ws_refines [of "relay s" ?env d ch] by (simp add: agree_def)
  show "map_of (rooms (router (relay (server_step P s x)))) code = Some sid"
    using room ev handle_room_kept [OF room]
    by (cases "snd x") (auto simp: server_step_def udp ws evict_fields ws_accept_def end_writer_def Let_def)
qed

section \<open>Start-up\<close>

text \<open>The relay starts with exactly the limits of its configuration, or not at all: start-up fails with the error of the file,
  or of the first address in the order UDP, web socket, HTTP that cannot be bound.\<close>

lemma relay_start:
  "start_server bind cfg = (case filter (\<lambda>a. bind a \<noteq> None) [udp_bind cfg, ws_bind cfg, observability_bind cfg] of
     [] \<Rightarrow> Inr (Server_new cfg) | a # _ \<Rightarrow> Inl (the (bind a)))"
  by (auto simp: start_server_def split: option.splits)

lemma relay_config_overrides:
  assumes "arg_config args = None"
  shows "relay_config any_ip from_file args = Inr ((RelayConfig_default any_ip)
    \<lparr>udp_bind := (case arg_udp_bind args of Some a \<Rightarrow> a | None \<Rightarrow> (any_ip, 9000)),
     ws_bind := (case arg_ws_bind args of Some a \<Rightarrow> a | None \<Rightarrow> (any_ip, 9090)),
     observability_bind := (case arg_observability_bind args of Some a \<Rightarrow> a | None \<Rightarrow> (any_ip, 9100))\<rparr>)"
  using assms by (simp add: relay_config_def RelayConfig_default_def Let_def split: option.splits)

section \<open>Examples\<close>

abbreviation demo_cfg :: "nat RelayConfig" where
  "demo_cfg \<equiv> RelayConfig_default 0"

definition demo_hist :: "nat timed_event list" where
  "demo_hist = [((5, \<lambda>d a. Some (length d)), UdpPacket (packet_bytes (PacketHeader_new 0x10 7 0 0) [1, 2]) 2)]"

lemma demo_hist_run:
  fixes P :: "RelayMetrics \<Rightarrow> string \<times> bytes"
  shows "routes (router (relay (foldl (server_step P) (Server_new demo_cfg) demo_hist))) =
    [(7, (RouteEntry_new 5)\<lparr>peers := [Udp 2]\<rparr>)]" "running (foldl (server_step P) (Server_new demo_cfg) demo_hist)"
proof -
  let ?d = "packet_bytes (PacketHeader_new 0x10 7 0 0) [1, 2]"
  have "MessageType_from_code (msg_type (PacketHeader_new 0x10 7 0 0)) = Inr AudioFrame"
    using MessageType_from_code_code [of AudioFrame] by (simp add: PacketHeader_new_def)
  then have ops: "relay_ops (UdpIn ?d (2 :: nat)) = [OpRoute 7 (Udp 2)]"
    by (simp add: relay_ops_def demo_packet Let_def) (simp add: PacketHeader_new_def)
  show "routes (router (relay (foldl (server_step P) (Server_new demo_cfg) demo_hist))) =
    [(7, (RouteEntry_new 5)\<lparr>peers := [Udp 2]\<rparr>)]"
    using udp_refines [of "relay (Server_new demo_cfg)" "server_env (Server_new demo_cfg) (5, \<lambda>d a. Some (length d))" ?d "2 :: nat"]
    by (simp add: demo_hist_def server_step_def Server_new_def ops agree_def server_env_def Router_new_def Router_route_def
        RelayConfig_default_def set_entry_def Let_def split_beta)
  show "running (foldl (server_step P) (Server_new demo_cfg) demo_hist)"
    by (simp add: demo_hist_def server_step_def Server_new_def)
qed


theorem idle_session_evicted_witness:
  "\<forall>P out. map_of (routes (router (relay (foldl (server_step P) (foldl (server_step P) (Server_new demo_cfg) demo_hist)
     ([((6, out), WsAccepted True)] @ ((10 ^ 12, out), Tick) # []))))) 7 = None"
proof (intro allI)
  fix P :: "RelayMetrics \<Rightarrow> string \<times> bytes" and out :: "bytes \<Rightarrow> nat \<Rightarrow> nat option"
  have "map_of (routes (router (relay (foldl (server_step P) (Server_new demo_cfg) demo_hist)))) 7 =
      Some ((RouteEntry_new 5)\<lparr>peers := [Udp 2]\<rparr>)"
    by (simp add: demo_hist_run)
  moreover have "last_activity ((RouteEntry_new 5)\<lparr>peers := [Udp 2 :: nat SessionEndpoint]\<rparr>) + session_ttl_secs demo_cfg * 10 ^ 9 \<le> 10 ^ 12"
    "\<forall>x \<in> set ([((6, out), WsAccepted True)] @ []). event_session (snd x) \<noteq> Some 7 \<and> \<not> fatal (snd x)"
    by (simp_all add: RouteEntry_new_def RelayConfig_default_def event_session_def fatal_def)
  ultimately show "map_of (routes (router (relay (foldl (server_step P) (foldl (server_step P) (Server_new demo_cfg) demo_hist)
     ([((6, out), WsAccepted True)] @ ((10 ^ 12, out), Tick) # []))))) 7 = None"
    by (rule idle_session_evicted [OF refl demo_hist_run(2)])
qed

end
