(* ===== verification/Discovery.thy ===== *)
theory Discovery
  imports RustStr
begin

text \<open>
  \<open>gravital-talk-transport/src/discovery.rs\<close>: announcing a peer by UDP broadcast and collecting announcements.  Sockets
  and the deadline are outside: \<open>announce_lan\<close> is the datagram that is sent, and \<open>discover_lan\<close> takes the datagrams that
  arrive before the deadline, each with the address of its sender, of which the 512-byte buffer keeps the front.
\<close>

definition DISCOVERY_PORT :: u16 where
  "DISCOVERY_PORT = 9009"

record 'ip PeerInfo =
  peer_addr :: "'ip \<times> u16"
  pi_session_id :: u32
  pi_name :: str

definition announcement :: "u16 \<Rightarrow> u32 \<Rightarrow> str \<Rightarrow> str" where
  "announcement udp_port sid name =
     ascii ''GT1 '' @ decimal (unat udp_port) @ [32] @ decimal (unat sid) @ [32] @ name"

definition announce_lan :: "u16 \<Rightarrow> u32 \<Rightarrow> str \<Rightarrow> bytes" where
  "announce_lan udp_port sid name = as_bytes (announcement udp_port sid name)"

definition parse_announcement :: "bytes \<Rightarrow> 'ip \<Rightarrow> 'ip PeerInfo option" where
  "parse_announcement data ip =
     (case from_utf8 data of
        None \<Rightarrow> None
      | Some s \<Rightarrow>
          (case strip_prefix (ascii ''GT1 '') (trim s) of
             None \<Rightarrow> None
           | Some rest \<Rightarrow>
               (case splitn 3 32 rest of
                  p # q # parts \<Rightarrow>
                    (case (parse_uint 16 p, parse_uint 32 q) of
                       (Some port, Some sid) \<Rightarrow>
                         (let name = trim (case parts of [] \<Rightarrow> ascii ''unknown'' | n # _ \<Rightarrow> n)
                          in Some \<lparr>peer_addr = (ip, of_nat port), pi_session_id = of_nat sid, pi_name = name\<rparr>)
                     | _ \<Rightarrow> None)
                | _ \<Rightarrow> None)))"

definition collect :: "'ip PeerInfo list \<Rightarrow> bytes \<times> 'ip \<Rightarrow> 'ip PeerInfo list" where
  "collect peers x =
     (case parse_announcement (take 512 (fst x)) (snd x) of
        None \<Rightarrow> peers
      | Some info \<Rightarrow> (if list_ex (\<lambda>p. peer_addr p = peer_addr info) peers then peers else peers @ [info]))"

definition discover_lan :: "(bytes \<times> 'ip) list \<Rightarrow> 'ip PeerInfo list" where
  "discover_lan xs = foldl collect [] xs"

section \<open>The announcement as a list of words\<close>

lemma no_space_decimal: "list_all (\<lambda>c. c \<noteq> 32) (decimal n)"
  using decimal_digits [of n] digit_class(2) by (auto simp: list_all_iff)

lemma no_white_decimal: "list_all (\<lambda>c. \<not> is_whitespace c) (decimal n)"
  using decimal_digits [of n] digit_class(1) by (auto simp: list_all_iff)

lemma tag: "ascii ''GT1 '' = [71, 84, 49, 32]"
  by (simp add: ascii_def)

lemma trim_announcement:
  "trim (announcement port sid name) =
     (if trim name = [] then ascii ''GT1 '' @ decimal (unat port) @ [32] @ decimal (unat sid)
      else ascii ''GT1 '' @ decimal (unat port) @ [32] @ decimal (unat sid) @ [32] @ trim_end name)"
proof -
  define front where "front = ascii ''GT1 '' @ decimal (unat port) @ [32] @ decimal (unat sid)"
  have ann: "announcement port sid name = front @ 32 # name"
    by (simp add: announcement_def front_def)
  have start: "trim_start (front @ 32 # name) = front @ 32 # name"
    by (simp add: front_def tag trim_start_def is_whitespace_def in_range_def)
  have "front \<noteq> []" "\<not> is_whitespace (last front)"
    using no_white_decimal [of "unat sid"] by (simp_all add: front_def list_all_iff)
  then have "trim_end front = front"
    using trim_end_snoc [of "last front" "butlast front"] by simp
  moreover have "is_whitespace 32"
    by (simp add: is_whitespace_def)
  moreover have "trim (announcement port sid name) = trim_end (front @ 32 # name)"
    by (simp add: trim_def ann start)
  ultimately have "trim (announcement port sid name) = (if trim name = [] then front else front @ 32 # trim_end name)"
    using trim_end_append [of front "32 # name"] trim_end_append [of "[32]" name]
    by (simp add: trim_Nil_iff)
  then show ?thesis
    by (simp add: front_def)
qed

section \<open>Properties\<close>

text \<open>Announcement round trip.  Whoever receives an announcement reads back the sender's address with the announced port,
  the session identifier and the name without the white space around it; a blank name becomes \<open>unknown\<close>.  Any name of
  Unicode characters is allowed, blanks inside it included.\<close>

lemma announcement_roundtrip:
  assumes "list_all is_scalar name"
  shows "parse_announcement (announce_lan port sid name) ip =
    Some \<lparr>peer_addr = (ip, port), pi_session_id = sid, pi_name = (if trim name = [] then ascii ''unknown'' else trim name)\<rparr>"
proof -
  have "list_all is_scalar (announcement port sid name)"
    using assms by (simp add: announcement_def scalar_decimal) (simp add: is_scalar_def)
  then have utf8: "from_utf8 (announce_lan port sid name) = Some (announcement port sid name)"
    by (simp add: announce_lan_def from_utf8_as_bytes)
  have strip: "strip_prefix (ascii ''GT1 '') (ascii ''GT1 '' @ rest) = Some rest" for rest
    by (simp add: strip_prefix_def)
  have nums: "parse_uint 16 (decimal (unat port)) = Some (unat port)" "parse_uint 32 (decimal (unat sid)) = Some (unat sid)"
    using unsigned_less [of port, where 'a = nat] unsigned_less [of sid, where 'a = nat] by (simp_all add: parse_decimal)
  have words: "splitn 3 32 (decimal (unat port) @ 32 # decimal (unat sid)) = [decimal (unat port), decimal (unat sid)]"
    "splitn 3 32 (decimal (unat port) @ 32 # decimal (unat sid) @ 32 # t) = [decimal (unat port), decimal (unat sid), t]" for t
    by (simp_all only: numeral_3_eq_3 splitn_token [OF no_space_decimal] splitn_last [OF no_space_decimal] splitn.simps(2))
  have "trim (ascii ''unknown'') = ascii ''unknown''"
    by (simp add: ascii_def trim_def trim_start_def trim_end_def is_whitespace_def in_range_def)
  then show ?thesis
    by (simp add: parse_announcement_def utf8 trim_announcement strip words nums trim_trim_end)
qed

lemma announcement_roundtrip_witness:
  "parse_announcement (announce_lan 9000 42 [66, 32, 0x20AC, 32]) (7 :: nat) =
     Some \<lparr>peer_addr = (7, 9000), pi_session_id = 42, pi_name = [66, 32, 0x20AC]\<rparr>"
proof -
  have "trim [66, 32, 0x20AC, 32] = [66, 32, 0x20AC]" "list_all is_scalar [66, 32, 0x20AC, 32]"
    by (simp_all add: trim_def trim_start_def trim_end_def is_whitespace_def in_range_def is_scalar_def)
  with announcement_roundtrip [of "[66, 32, 0x20AC, 32]" 9000 42 7] show ?thesis
    by simp
qed

text \<open>The announcements among the received datagrams.\<close>

definition announced :: "(bytes \<times> 'ip) list \<Rightarrow> 'ip PeerInfo list" where
  "announced xs = List.map_filter (\<lambda>x. parse_announcement (take 512 (fst x)) (snd x)) xs"

lemma find_append: "find P (xs @ ys) = (case find P xs of None \<Rightarrow> find P ys | Some x \<Rightarrow> Some x)"
  by (induction xs) auto

lemma collect_spec:
  assumes "distinct (map peer_addr ps)"
  shows "distinct (map peer_addr (foldl collect ps xs)) \<and>
    find (\<lambda>p. peer_addr p = a) (foldl collect ps xs) = find (\<lambda>p. peer_addr p = a) (ps @ announced xs)"
  using assms
proof (induction xs arbitrary: ps)
  case (Cons x xs)
  show ?case
  proof (cases "parse_announcement (take 512 (fst x)) (snd x)")
    case None
    then show ?thesis
      using Cons by (simp add: collect_def announced_def map_filter_simps)
  next
    case (Some info)
    let ?ps = "collect ps x"
    have ps: "?ps = (if peer_addr info \<in> peer_addr ` set ps then ps else ps @ [info])"
      using Some by (auto simp: collect_def list_ex_iff image_iff) metis+
    have known: "find (\<lambda>p. peer_addr p = a) ps \<noteq> None" if "a \<in> peer_addr ` set ps"
      using that by (auto simp: find_None_iff)
    have "announced (x # xs) = info # announced xs"
      using Some by (simp add: announced_def map_filter_simps)
    then have "find (\<lambda>p. peer_addr p = a) (?ps @ announced xs) = find (\<lambda>p. peer_addr p = a) (ps @ announced (x # xs))"
      using known by (cases "find (\<lambda>p. peer_addr p = a) ps") (auto simp: ps find_append)
    then show ?thesis
      using Cons.IH [of ?ps] Cons.prems by (auto simp: ps)
  qed
qed (simp add: announced_def map_filter_simps)

text \<open>Discovery finds every peer once.  Whatever datagrams arrive, malformed ones included, the result has no address
  twice, and for each address it holds exactly the first announcement that was received for it.\<close>

lemma discovery_exact:
  "distinct (map peer_addr (discover_lan xs)) \<and>
   find (\<lambda>p. peer_addr p = a) (discover_lan xs) = find (\<lambda>p. peer_addr p = a) (announced xs)"
  using collect_spec [of "[]" xs a] by (simp add: discover_lan_def)

end
