(* ===== verification/Devices.thy ===== *)
theory Devices
  imports AudioIo CodecSession RustStr
begin

text \<open>
  Opening audio devices: \<open>gravital-talk-io/src/devices.rs\<close>, \<open>AudioCapture::start\<close> and \<open>AudioPlayback::start\<close>.  What the audio
  host (cpal) answers is a record of functions: its devices, their names and default formats, and whether a stream can be
  built and started.
\<close>

datatype IoError = NoHost | NoDevice string | UnsupportedConfig string | CpalError string | ChannelClosed

section \<open>The host\<close>

datatype SampleFormat = F32 | I16 | U16 | OtherFormat

record DeviceConfig =
  dc_sample_rate :: u32
  dc_channels :: u16
  dc_format :: SampleFormat

record 'd direction =
  default_device :: "'d option"
  devices :: "string + 'd list"
  default_config :: "'d \<Rightarrow> string + DeviceConfig"
  build_stream :: "'d \<Rightarrow> string option"
  play_stream :: "'d \<Rightarrow> string option"

record 'd Host =
  host_devices :: "string + 'd list"
  device_name :: "'d \<Rightarrow> string + str"
  host_input :: "'d direction"
  host_output :: "'d direction"

record DeviceInfo =
  di_name :: str
  di_is_default :: bool

definition audio_host :: "'d Host \<Rightarrow> IoError + unit" where
  "audio_host H = (case host_devices H of Inl e \<Rightarrow> Inl (CpalError (''devices: '' @ e)) | Inr _ \<Rightarrow> Inr ())"

section \<open>Listing and choosing\<close>

definition shown_name :: "'d Host \<Rightarrow> 'd \<Rightarrow> str" where
  "shown_name H d = (case device_name H d of Inr n \<Rightarrow> n | Inl _ \<Rightarrow> ascii ''<unnamed>'')"

definition list_devices :: "'d Host \<Rightarrow> 'd direction \<Rightarrow> IoError + DeviceInfo list" where
  "list_devices H dir =
     (case audio_host H of
        Inl e \<Rightarrow> Inl e
      | Inr _ \<Rightarrow>
          (let default_name = Option.bind (default_device dir) (\<lambda>d. case device_name H d of Inr n \<Rightarrow> Some n | Inl _ \<Rightarrow> None) in
           case devices dir of
             Inl e \<Rightarrow> Inl (CpalError (''devices: '' @ e))
           | Inr ds \<Rightarrow>
               Inr (map (\<lambda>d. let name = shown_name H d in \<lparr>di_name = name, di_is_default = (default_name = Some name)\<rparr>) ds)))"

definition list_input_devices :: "'d Host \<Rightarrow> IoError + DeviceInfo list" where
  "list_input_devices H = list_devices H (host_input H)"

definition list_output_devices :: "'d Host \<Rightarrow> IoError + DeviceInfo list" where
  "list_output_devices H = list_devices H (host_output H)"

definition or_no_device :: "string \<Rightarrow> 'd option \<Rightarrow> IoError + 'd" where
  "or_no_device kind d = (case d of Some d \<Rightarrow> Inr d | None \<Rightarrow> Inl (NoDevice kind))"

definition pick_device :: "'d Host \<Rightarrow> string \<Rightarrow> 'd direction \<Rightarrow> str option \<Rightarrow> IoError + 'd" where
  "pick_device H kind dir name_hint =
     (case audio_host H of
        Inl e \<Rightarrow> Inl e
      | Inr _ \<Rightarrow>
          (case name_hint of
             None \<Rightarrow> or_no_device kind (default_device dir)
           | Some hint \<Rightarrow>
               (if hint = ascii ''default'' then or_no_device kind (default_device dir)
                else case devices dir of
                  Inl e \<Rightarrow> Inl (CpalError (''devices: '' @ e))
                | Inr ds \<Rightarrow> or_no_device kind (find (\<lambda>d. device_name H d = Inr hint) ds))))"

definition pick_input :: "'d Host \<Rightarrow> str option \<Rightarrow> IoError + 'd" where
  "pick_input H hint = pick_device H ''input'' (host_input H) hint"

definition pick_output :: "'d Host \<Rightarrow> str option \<Rightarrow> IoError + 'd" where
  "pick_output H hint = pick_device H ''output'' (host_output H) hint"

section \<open>Streams\<close>

text \<open>The last steps of both functions: format, stream, start.\<close>

definition open_stream :: "'d direction \<Rightarrow> 'd \<Rightarrow> DeviceConfig \<Rightarrow> IoError + unit" where
  "open_stream dir d actual =
     (if dc_format actual = OtherFormat then Inl (UnsupportedConfig ''sample format not handled'')
      else case build_stream dir d of
        Some e \<Rightarrow> Inl (CpalError e)
      | None \<Rightarrow> (case play_stream dir d of Some e \<Rightarrow> Inl (CpalError e) | None \<Rightarrow> Inr ()))"

text \<open>The result of a capture: the format of the callback and the number of samples in a frame.  Channel or rate differences are
  only logged.\<close>

definition capture_frame_samples :: "StreamConfig \<Rightarrow> DeviceConfig \<Rightarrow> nat" where
  "capture_frame_samples config actual =
     unat (dc_sample_rate actual) * unat (sc_frame_duration_ms config) div 1000 * unat (dc_channels actual)"

definition AudioCapture_start :: "'d Host \<Rightarrow> StreamConfig \<Rightarrow> str option \<Rightarrow> IoError + SampleFormat \<times> nat" where
  "AudioCapture_start H config device_hint =
     (case pick_input H device_hint of
        Inl e \<Rightarrow> Inl e
      | Inr d \<Rightarrow>
          (case default_config (host_input H) d of
             Inl e \<Rightarrow> Inl (CpalError e)
           | Inr actual \<Rightarrow>
               (case open_stream (host_input H) d actual of
                  Inl e \<Rightarrow> Inl e
                | Inr _ \<Rightarrow> Inr (dc_format actual, capture_frame_samples config actual))))"

text \<open>Playback ignores the wanted configuration; the result has the format of the callback.\<close>

definition AudioPlayback_start :: "'d Host \<Rightarrow> StreamConfig \<Rightarrow> str option \<Rightarrow> IoError + SampleFormat" where
  "AudioPlayback_start H config device_hint =
     (case pick_output H device_hint of
        Inl e \<Rightarrow> Inl e
      | Inr d \<Rightarrow>
          (case default_config (host_output H) d of
             Inl e \<Rightarrow> Inl (CpalError e)
           | Inr actual \<Rightarrow>
               (case open_stream (host_output H) d actual of Inl e \<Rightarrow> Inl e | Inr _ \<Rightarrow> Inr (dc_format actual))))"

section \<open>Properties\<close>

text \<open>Every name in the list of devices that the device itself reported, other than the reserved word, chooses the first device of
  that name; a name that no device has is refused.\<close>

lemma listed_device_picked:
  assumes "list_devices H dir = Inr infos" and "n \<noteq> ascii ''default''"
  shows "case pick_device H kind dir (Some n) of
      Inr d \<Rightarrow> device_name H d = Inr n \<and> n \<in> di_name ` set infos
    | Inl e \<Rightarrow> e = NoDevice kind \<and> (n \<in> di_name ` set infos \<longrightarrow> n = ascii ''<unnamed>'')"
proof -
  obtain ds where ds: "devices dir = Inr ds" "audio_host H = Inr ()"
    and names: "di_name ` set infos = shown_name H ` set ds"
    using assms(1) by (auto simp: list_devices_def Let_def image_image split: sum.splits)
  show ?thesis
  proof (cases "find (\<lambda>d. device_name H d = Inr n) ds")
    case None
    then have "n = ascii ''<unnamed>''" if "n \<in> di_name ` set infos"
      using that names by (auto simp: find_None_iff shown_name_def split: sum.splits)
    then show ?thesis
      using None ds assms(2) by (simp add: pick_device_def or_no_device_def)
  next
    case (Some d)
    then have "d \<in> set ds" "device_name H d = Inr n"
      by (auto simp: find_Some_iff)
    then show ?thesis
      using Some ds names assms(2) by (force simp: pick_device_def or_no_device_def shown_name_def)
  qed
qed

text \<open>A microphone whose format differs from the session's.  When the default format of the device gives frames of another size
  than the configuration asked for, opening it still succeeds, and every frame that the capture delivers is refused by a PCM
  session of that configuration: nothing is ever sent.\<close>

lemma mic_mismatch_refused:
  assumes "AudioCapture_start H config hint = Inr (I16, n)" and "0 < n" and "n \<noteq> samples_per_frame config"
    and "push_i16 True n accum data = Some (frames, rest)" and "f \<in> set frames"
    and "cs_encoder cs = PcmCoder (PcmCodec_new (sc_sample_rate config) (sc_channels config) (sc_frame_duration_ms config))"
  shows "send_samples A env cs f = (Inl (CodecFailed (FrameSizeMismatch (samples_per_frame config) n)), cs)"
proof -
  let ?c = "PcmCodec_new (sc_sample_rate config) (sc_channels config) (sc_frame_duration_ms config)"
  obtain frames' rest' where r: "push_i16_loop True n (accum @ data) [] = Some ([] @ frames', rest')"
    and fr: "framed n (accum @ data) (frames', rest')"
    using push_i16_loop_framed [OF assms(2)] by blast
  have len: "length f = n"
    using r fr assms(4,5) by (auto simp: push_i16_def framed_def)
  have "total_samples ?c = samples_per_frame config"
    by (simp add: total_samples_def samples_per_channel_def PcmCodec_new_def samples_per_frame_def)
  then show ?thesis
    using assms(3,6) len by (cases cs) (simp add: send_samples_def PcmCodec_encode_def)
qed

section \<open>Examples\<close>

definition demo_direction :: "unit direction" where
  "demo_direction = \<lparr>default_device = Some (), devices = Inr [()],
     default_config = (\<lambda>_. Inr \<lparr>dc_sample_rate = 1000, dc_channels = 2, dc_format = I16\<rparr>), build_stream = (\<lambda>_. None), play_stream = (\<lambda>_. None)\<rparr>"

definition demo_host :: "unit Host" where
  "demo_host = \<lparr>host_devices = Inr [()], device_name = (\<lambda>_. Inr (ascii ''mic'')), host_input = demo_direction, host_output = demo_direction\<rparr>"

lemma mic_mismatch_refused_witness:
  "\<forall>jb. fst (send_samples null_aead (demo_env 1) (demo_codec_session (demo_session jb demo_cc)) [1, 2, 3, 4]) =
     Inl (CodecFailed (FrameSizeMismatch 2 4))"
proof
  fix jb
  let ?cs = "demo_codec_session (demo_session jb demo_cc)"
  let ?config = "\<lparr>sc_sample_rate = 1000, sc_channels = 1, sc_frame_duration_ms = 2\<rparr>"
  have "AudioCapture_start demo_host ?config None = Inr (I16, 4)"
    by (simp add: AudioCapture_start_def pick_input_def pick_device_def audio_host_def or_no_device_def open_stream_def
        capture_frame_samples_def demo_host_def demo_direction_def)
  moreover have size: "samples_per_frame ?config = 2"
    by (simp add: samples_per_frame_def)
  moreover have "push_i16 True 4 [] [1, 2, 3, 4] = Some ([[1, 2, 3, 4]], [])"
    by (simp add: push_i16_def push_i16_loop.simps)
  moreover have "cs_encoder ?cs = PcmCoder (PcmCodec_new (sc_sample_rate ?config) (sc_channels ?config) (sc_frame_duration_ms ?config))"
    by (simp add: demo_codec_session_def demo_codec_def)
  ultimately show "fst (send_samples null_aead (demo_env 1) ?cs [1, 2, 3, 4]) = Inl (CodecFailed (FrameSizeMismatch 2 4))"
    using mic_mismatch_refused [of demo_host ?config None 4 "[]" "[1, 2, 3, 4]" "[[1, 2, 3, 4]]" "[]" "[1, 2, 3, 4]" ?cs null_aead "demo_env 1"]
    by simp
qed

end
