(* ===== verification/CliRooms.thy ===== *)
theory CliRooms
  imports CliTransfer RelayServer Discovery Devices
begin

text \<open>
  \<open>gravital-talk-cli/src/main.rs\<close>, the commands that need no audio: the small HTTP client with \<open>gs room\<close>, and
  \<open>gs bench\<close>, \<open>gs info\<close>, \<open>gs discover\<close>.  The network is an argument: how an address is parsed, and what comes back on a TCP
  connection when a request is written to it.  Texts are lists of Unicode scalar values; a command yields its result and
  the lines it prints.
\<close>

section \<open>Lossy decoding\<close>

text \<open>\<open>String::from_utf8_lossy\<close>: each maximal prefix of a well-formed sequence that cannot be completed becomes one replacement
  character.\<close>

definition invalid_length :: "nat list \<Rightarrow> nat" where
  "invalid_length bs =
     (case bs of
        a # b # rest \<Rightarrow>
          (if in_range 0xE0 0xEF a \<and> second_ok a b then 2
           else if in_range 0xF0 0xF4 a \<and> second_ok a b then
             (case rest of c # _ \<Rightarrow> if in_range 0x80 0xBF c then 3 else 2 | [] \<Rightarrow> 2)
           else 1)
      | _ \<Rightarrow> 1)"

fun lossy_chars :: "nat \<Rightarrow> nat list \<Rightarrow> str" where
  "lossy_chars fuel [] = []"
| "lossy_chars 0 (_ # _) = []"
| "lossy_chars (Suc fuel) bs =
     (case next_char bs of
        None \<Rightarrow> 0xFFFD # lossy_chars fuel (drop (invalid_length bs) bs)
      | Some (n, k) \<Rightarrow> n # lossy_chars fuel (drop k bs))"

definition from_utf8_lossy :: "bytes \<Rightarrow> str" where
  "from_utf8_lossy bs = lossy_chars (length bs) (map unat bs)"

section \<open>The HTTP client\<close>

record ('w, 'a) Network =
  parse_addr :: "str \<Rightarrow> string + 'a"
  exchange :: "'w \<Rightarrow> 'a \<Rightarrow> bytes \<Rightarrow> (string + bytes) \<times> 'w"

definition crlf :: str where
  "crlf = [13, 10]"

definition host_port :: "str \<Rightarrow> u16 \<Rightarrow> str" where
  "host_port host port = host @ ascii '':'' @ decimal (unat port)"

definition get_request :: "str \<Rightarrow> u16 \<Rightarrow> str \<Rightarrow> str" where
  "get_request host port path =
     ascii ''GET '' @ path @ ascii '' HTTP/1.1'' @ crlf @ ascii ''Host: '' @ host_port host port @ crlf @
     ascii ''Connection: close'' @ crlf @ crlf"

definition post_request :: "str \<Rightarrow> u16 \<Rightarrow> str \<Rightarrow> str \<Rightarrow> str" where
  "post_request host port path content =
     ascii ''POST '' @ path @ ascii '' HTTP/1.1'' @ crlf @ ascii ''Host: '' @ host_port host port @ crlf @
     ascii ''Content-Type: application/json'' @ crlf @ ascii ''Content-Length: '' @ decimal (length (as_bytes content)) @ crlf @
     ascii ''Connection: close'' @ crlf @ crlf @ content"

definition extract_http_body :: "bytes \<Rightarrow> string + str" where
  "extract_http_body raw =
     (case after_first (crlf @ crlf) (map unat raw) of
        Some b \<Rightarrow> Inr (trim (lossy_chars (length b) b))
      | None \<Rightarrow> Inl ''malformed HTTP response (no header separator)'')"

definition http_call :: "('w, 'a) Network \<Rightarrow> 'w \<Rightarrow> str \<Rightarrow> u16 \<Rightarrow> str \<Rightarrow> (string + str) \<times> 'w" where
  "http_call N w host port req =
     (case parse_addr N (host_port host port) of
        Inl e \<Rightarrow> (Inl e, w)
      | Inr addr \<Rightarrow>
          (case exchange N w addr (as_bytes req) of
             (Inl e, w) \<Rightarrow> (Inl e, w)
           | (Inr buf, w) \<Rightarrow> (extract_http_body buf, w)))"

definition http_get :: "('w, 'a) Network \<Rightarrow> 'w \<Rightarrow> str \<Rightarrow> u16 \<Rightarrow> str \<Rightarrow> (string + str) \<times> 'w" where
  "http_get N w host port path = http_call N w host port (get_request host port path)"

definition http_post :: "('w, 'a) Network \<Rightarrow> 'w \<Rightarrow> str \<Rightarrow> u16 \<Rightarrow> str \<Rightarrow> str \<Rightarrow> (string + str) \<times> 'w" where
  "http_post N w host port path content = http_call N w host port (post_request host port path content)"

section \<open>Rooms\<close>

datatype RoomAction = Create str u16 u32 | Join str str u16 | ListRooms str u16

definition room_body :: "u32 \<Rightarrow> str" where
  \<open>room_body sid = ascii ''{"session_id":'' @ decimal (unat sid) @ ascii ''}''\<close>

definition room_call :: "('w, 'a) Network \<Rightarrow> 'w \<Rightarrow> RoomAction \<Rightarrow> (string + str) \<times> 'w" where
  "room_call N w action =
     (case action of
        Create host port sid \<Rightarrow> http_post N w host port (ascii ''/api/rooms'') (room_body sid)
      | Join code host port \<Rightarrow> http_get N w host port (ascii ''/api/rooms/'' @ code)
      | ListRooms host port \<Rightarrow> http_get N w host port (ascii ''/api/rooms''))"

definition cmd_room :: "('w, 'a) Network \<Rightarrow> 'w \<Rightarrow> RoomAction \<Rightarrow> (string + unit) \<times> str list \<times> 'w" where
  "cmd_room N w action =
     (case room_call N w action of
        (Inl e, w) \<Rightarrow> (Inl e, [], w)
      | (Inr resp, w) \<Rightarrow> (Inr (), [resp], w))"

section \<open>Discovery, information and benchmark\<close>

text \<open>\<open>discovered\<close> is what \<open>discover_lan\<close> yields: the datagrams of its wait, or the error of the socket; \<open>show_addr\<close> prints an
  address.\<close>

definition cmd_discover :: "('ip \<times> u16 \<Rightarrow> str) \<Rightarrow> string + (bytes \<times> 'ip) list \<Rightarrow> nat \<Rightarrow> (string + unit) \<times> str list" where
  \<open>cmd_discover show_addr discovered timeout_s =
     (let start = ascii ''Scanning LAN for Gravital Talk peers ('' @ decimal timeout_s @ ascii ''s)...'';
          dash = [32, 0x2014, 32] in
      case discovered of
        Inl e \<Rightarrow> (Inr (), [start, ascii ''Discovery error: '' @ ascii e])
      | Inr xs \<Rightarrow>
          (let found = discover_lan xs in
           if found = [] then (Inr (), [start, ascii ''No peers found.''])
           else
             (Inr (), start # (ascii ''Found '' @ decimal (length found) @ ascii '' peer(s):'') #
                map (\<lambda>p. ascii ''  '' @ show_addr (peer_addr p) @ dash @ ascii ''session_id='' @ decimal (unat (pi_session_id p)) @
                     dash @ ascii ''"'' @ pi_name p @ ascii ''"'') found)))\<close>

text \<open>\<open>gs devices\<close>; \<open>show_error\<close> prints an error of the audio host.\<close>

definition device_lines :: "(IoError \<Rightarrow> str) \<Rightarrow> IoError + DeviceInfo list \<Rightarrow> str list" where
  "device_lines show_error r =
     (case r of
        Inl e \<Rightarrow> [ascii ''  error: '' @ show_error e]
      | Inr infos \<Rightarrow>
          (if infos = [] then [ascii ''  (none)'']
           else map (\<lambda>d. ascii ''  '' @ di_name d @ (if di_is_default d then ascii '' [default]'' else [])) infos))"

definition cmd_devices :: "(IoError \<Rightarrow> str) \<Rightarrow> 'd Host \<Rightarrow> (string + unit) \<times> str list" where
  "cmd_devices show_error H =
     (let rule = replicate 3 0x2500 in
      (Inr (), (rule @ ascii '' Input devices '' @ rule) # device_lines show_error (list_input_devices H) @
         (rule @ ascii '' Output devices '' @ rule) # device_lines show_error (list_output_devices H)))"

text \<open>\<open>gs info\<close> up to its report: session identifier, state, fill level of the jitter buffer and metrics.\<close>

definition cmd_info ::
  "kx \<Rightarrow> ClientRandom \<Rightarrow> 'a Env \<Rightarrow> string + 'a \<Rightarrow> string option \<Rightarrow> 'a hs_events \<Rightarrow>
   (CliError + u32 \<times> SessionState \<times> Metrics \<times> JitterBuffer) option \<times> 'a Session option" where
  "cmd_info K cr env peer bound evs =
     (case peer of
        Inl e \<Rightarrow> (Some (Inl (Failure e)), None)
      | Inr peer \<Rightarrow>
          (case bound of
             Some e \<Rightarrow> (Some (Inl (Failure e)), None)
           | None \<Rightarrow>
               (case Session_new Config_default of
                  None \<Rightarrow> (None, None)
                | Some s \<Rightarrow>
                    (case handshake K (ClientSide cr) s peer evs of
                       (Done (Inl e), s, _) \<Rightarrow> (Some (Inl (SessionFailure (TransportFailed e))), Some s)
                     | (Done (Inr _), s, _) \<Rightarrow>
                         (let report = (s_session_id s, sm_state (s_state s), s_metrics s, s_jitter s) in
                          case close_session env s of
                            (Inl e, s) \<Rightarrow> (Some (Inl (SessionFailure (TransportFailed e))), Some s)
                          | (Inr _, s) \<Rightarrow> (Some (Inr report), Some s))
                     | (_, s, _) \<Rightarrow> (None, Some s)))))"

record Bench =
  bench_out :: bytes
  iters :: u64
  max_ns :: nat
  sum_ns :: nat

text \<open>The rounds of the benchmark: the clock at the loop's test and the nanoseconds that the round takes.  \<open>None\<close> is a panic of an
  \<open>unwrap\<close>, of the slice or of the addition that counts the rounds (\<open>oc\<close>: with overflow checks).\<close>

primrec bench_loop :: "bool \<Rightarrow> nat \<Rightarrow> Bench \<Rightarrow> (nat \<times> nat) list \<Rightarrow> Bench option" where
  "bench_loop oc deadline st [] = Some st"
| "bench_loop oc deadline st (x # xs) =
     (if fst x < deadline then
        (case PacketBuilder_encode (PacketHeader_new 0x10 0xDEADBEEF 0 0) (replicate 960 0) (bench_out st) of
           Inl _ \<Rightarrow> None
         | Inr (out, n) \<Rightarrow>
             (if length out < n then None
              else case PacketView_decode (take n out) of
                Inl _ \<Rightarrow> None
              | Inr _ \<Rightarrow>
                  (if oc \<and> iters st = 0xFFFFFFFFFFFFFFFF then None
                   else bench_loop oc deadline
                     \<lparr>bench_out = out, iters = iters st + 1, max_ns = max (max_ns st) (snd x), sum_ns = sum_ns st + snd x\<rparr> xs)))
      else Some st)"

definition cmd_bench :: "bool \<Rightarrow> string \<Rightarrow> nat \<Rightarrow> (nat \<times> nat) list \<Rightarrow> (string + u64 \<times> nat \<times> nat) option" where
  "cmd_bench oc mode deadline xs =
     (if mode \<noteq> ''loopback'' then Some (Inl ''only 'loopback' bench mode is supported'')
      else
        map_option (\<lambda>st. Inr (iters st, sum_ns st div max (unat (iters st)) 1, max_ns st))
          (bench_loop oc deadline \<lparr>bench_out = replicate 1200 0, iters = 0, max_ns = 0, sum_ns = 0\<rparr> xs))"

section \<open>Decoding\<close>

lemma lossy_decode: "decode_chars fuel bs = Some s \<Longrightarrow> lossy_chars fuel bs = s"
  by (induction fuel bs arbitrary: s rule: decode_chars.induct) (auto split: option.splits)

lemma lossy_as_bytes: "list_all is_scalar s \<Longrightarrow> lossy_chars (length (as_bytes s)) (map unat (as_bytes s)) = s"
  by (rule lossy_decode) (simp add: decode_as_bytes)

lemma next_char_length: "next_char bs = Some (n, k) \<Longrightarrow> 1 \<le> k"
  by (auto simp: next_char_def split: list.splits if_splits)

lemma invalid_length_pos: "1 \<le> invalid_length bs"
  by (simp add: invalid_length_def split: list.splits)

text \<open>As many rounds as there are bytes are enough.\<close>

lemma lossy_fuel: "length bs \<le> fuel \<Longrightarrow> lossy_chars (fuel + extra) bs = lossy_chars fuel bs"
proof (induction fuel bs rule: lossy_chars.induct)
  case (3 fuel b bs)
  have "length (drop k (b # bs)) \<le> fuel" if "1 \<le> k" for k
    using 3(3) that by auto
  then show ?case
    using 3 invalid_length_pos [of "b # bs"] next_char_length [of "b # bs"] by (auto split: option.splits)
qed simp_all

section \<open>Requests answered by the relay\<close>

text \<open>What the HTTP library of the relay promises: the address is reachable, a request whose path has only visible characters other
  than the ones that end a path reaches the handler with its method, path and content, and the answer is a head without
  blank line, a blank line and the body of the response.\<close>

definition plain :: "nat \<Rightarrow> bool" where
  "plain c \<longleftrightarrow> in_range 33 126 c \<and> c \<noteq> 35 \<and> c \<noteq> 63"

definition head_ok :: "bytes \<Rightarrow> bool" where
  "head_ok head \<longleftrightarrow> (\<forall>b. after_first (crlf @ crlf) (map unat head @ crlf @ crlf @ b) = Some b)"

definition answers ::
  "('b Router, 'a) Network \<Rightarrow> 'a \<Rightarrow> str \<Rightarrow> ('b Router \<Rightarrow> Response \<times> 'b Router) \<Rightarrow> bool" where
  "answers N a req h \<longleftrightarrow>
     (\<forall>r. \<exists>head. head_ok head \<and>
        exchange N r a (as_bytes req) = (Inr (head @ as_bytes (crlf @ crlf) @ body (fst (h r))), snd (h r)))"

definition serves :: "(RelayMetrics \<Rightarrow> string \<times> bytes) \<Rightarrow> u64 \<Rightarrow> u64 \<Rightarrow> ('b Router, 'a) Network \<Rightarrow> str \<Rightarrow> u16 \<Rightarrow> bool" where
  "serves P t c N host port \<longleftrightarrow>
     (\<exists>a. parse_addr N (host_port host port) = Inr a \<and>
        (\<forall>path. list_all plain path \<longrightarrow>
           answers N a (get_request host port path) (\<lambda>r. handle P r t c GET (as_bytes path) (Some [])) \<and>
           (\<forall>content. answers N a (post_request host port path content)
              (\<lambda>r. handle P r t c POST (as_bytes path) (Some (as_bytes content))))))"

text \<open>A response whose body is the text \<open>s\<close> and a newline is printed as \<open>s\<close>.\<close>

lemma as_bytes_ascii: "list_all (\<lambda>c. c < 128) s \<Longrightarrow> as_bytes s = map of_nat s"
  by (induction s) (simp_all add: as_bytes_def utf8_char_def utf8_units_def)

lemma map_unat_as_bytes: "list_all (\<lambda>c. c < 128) s \<Longrightarrow> map unat (as_bytes s) = s"
  by (induction s) (auto simp: as_bytes_def utf8_char_def utf8_units_def unat_u8_small)

lemma extract_body:
  assumes "head_ok head" and "list_all is_scalar s" and "s = c # u @ [d]" and "\<not> is_whitespace c" and "\<not> is_whitespace d"
  shows "extract_http_body (head @ as_bytes (crlf @ crlf) @ as_bytes s @ [10]) = Inr s"
proof -
  let ?b = "as_bytes (s @ [10])"
  have b: "as_bytes s @ [10] = ?b"
    by (simp add: as_bytes_append as_bytes_ascii [of "[10]"])
  have nl: "is_whitespace 10"
    by (simp add: is_whitespace_def in_range_def)
  have sep: "map unat (as_bytes (crlf @ crlf)) = crlf @ crlf"
    by (rule map_unat_as_bytes) (simp add: crlf_def)
  have "after_first (crlf @ crlf) (map unat (head @ as_bytes (crlf @ crlf) @ ?b)) = Some (map unat ?b)"
    using assms(1) sep by (simp add: head_ok_def)
  moreover have "lossy_chars (length ?b) (map unat ?b) = s @ [10]"
    using assms(2) by (intro lossy_as_bytes) (simp add: is_scalar_def)
  moreover have "trim (s @ [10]) = s"
    using assms(3-5) nl trim_end_append [of s "[10]"] trim_end_snoc [of d "c # u"] by (simp add: trim_def trim_start_keep)
  ultimately show ?thesis
    unfolding b extract_http_body_def by simp
qed

lemma json_text:
  assumes "head_ok head" and "list_all is_scalar s" and "s = c # u @ [125]" and "\<not> is_whitespace c"
  shows "extract_http_body (head @ as_bytes (crlf @ crlf) @ body (json_response st (as_bytes s))) = Inr s"
proof -
  have "last (as_bytes s) = 125" "as_bytes s \<noteq> []"
    using as_bytes_append [of "c # u" "[125]"] as_bytes_ascii [of "[125]"] by (simp_all add: assms(3))
  then have "body (json_response st (as_bytes s)) = as_bytes s @ [10]"
    by (simp add: json_response_def Let_def)
  then show ?thesis
    using extract_body [OF assms(1-4)] by (simp add: is_whitespace_def in_range_def)
qed

definition json_object :: "str \<Rightarrow> bool" where
  "json_object s \<longleftrightarrow> list_all is_scalar s \<and> (\<exists>u. s = 123 # u @ [125])"

lemma object_text: "head_ok head \<Longrightarrow> json_object s \<Longrightarrow>
    extract_http_body (head @ as_bytes (crlf @ crlf) @ body (json_response st (as_bytes s))) = Inr s"
  by (auto simp: json_object_def is_whitespace_def in_range_def intro!: json_text)

lemma answered_call:
  assumes "parse_addr N (host_port host port) = Inr a" and "answers N a req h" and "h r = (json_response st (as_bytes s), r')"
    and "json_object s"
  shows "http_call N r host port req = (Inr s, r')"
proof -
  obtain head where "head_ok head" "exchange N r a (as_bytes req) = (Inr (head @ as_bytes (crlf @ crlf) @ body (fst (h r))), snd (h r))"
    using assms(2) unfolding answers_def by blast
  then show ?thesis
    using assms(1,3) object_text [OF _ assms(4)] by (simp add: http_call_def)
qed

lemma get_answered:
  assumes "serves P t c N host port" and "list_all plain path" and "json_object s"
    and "handle P r t c GET (as_bytes path) (Some []) = (json_response st (as_bytes s), r')"
  shows "http_get N r host port path = (Inr s, r')"
proof -
  obtain a where "parse_addr N (host_port host port) = Inr a"
    "answers N a (get_request host port path) (\<lambda>r. handle P r t c GET (as_bytes path) (Some []))"
    using assms(1,2) unfolding serves_def by auto
  then show ?thesis
    using assms(4,3) unfolding http_get_def by (rule answered_call)
qed

lemma post_answered:
  assumes "serves P t c N host port" and "list_all plain path" and "json_object s"
    and "handle P r t c POST (as_bytes path) (Some (as_bytes content)) = (json_response st (as_bytes s), r')"
  shows "http_post N r host port path content = (Inr s, r')"
proof -
  obtain a where "parse_addr N (host_port host port) = Inr a"
    "answers N a (post_request host port path content) (\<lambda>r. handle P r t c POST (as_bytes path) (Some (as_bytes content)))"
    using assms(1,2) unfolding serves_def by auto
  then show ?thesis
    using assms(4,3) unfolding http_post_def by (rule answered_call)
qed

text \<open>Room codes as text.\<close>

definition code_text :: "bytes \<Rightarrow> str" where
  "code_text code = map unat code"

lemma plain_scalar: "list_all plain s \<Longrightarrow> list_all is_scalar s" "list_all plain s \<Longrightarrow> list_all (\<lambda>c. c < 128) s"
  by (auto simp: list_all_iff plain_def is_scalar_def in_range_def)

lemma valid_code_text:
  assumes "is_valid_code code"
  shows "list_all plain (code_text code)" "as_bytes (code_text code) = code"
proof -
  have "code = take 4 code @ code ! 4 # drop 5 code"
    using assms id_take_nth_drop [of 4 code] by (simp add: is_valid_code_def split: if_splits)
  from arg_cong [OF this, of set] have "set code = insert (code ! 4) (set (take 4 code) \<union> set (drop 5 code))"
    unfolding set_append list.set by blast
  then have "set code \<subseteq> set LETTERS \<union> {45} \<union> set DIGITS"
    using assms by (auto simp: is_valid_code_def list_all_iff split: if_splits)
  moreover have "\<forall>b \<in> set LETTERS \<union> {45} \<union> set DIGITS. plain (unat b)"
    by (simp add: LETTERS_def DIGITS_def plain_def in_range_def)
  ultimately show plain: "list_all plain (code_text code)"
    by (auto simp: list_all_iff code_text_def)
  show "as_bytes (code_text code) = code"
    using plain_scalar(2) [OF plain] by (simp add: as_bytes_ascii code_text_def comp_def)
qed

section \<open>Properties\<close>

definition created_text :: "bytes \<Rightarrow> u32 \<Rightarrow> str" where
  \<open>created_text code sid = ascii ''{"code":"'' @ code_text code @ ascii ''","session_id":'' @ decimal (unat sid) @ ascii ''}''\<close>

definition joined_text :: "bytes \<Rightarrow> u32 \<Rightarrow> nat \<Rightarrow> str" where
  \<open>joined_text code sid n =
     ascii ''{"code":"'' @ code_text code @ ascii ''","session_id":'' @ decimal (unat sid) @ ascii '',"peer_count":'' @
     decimal n @ ascii ''}''\<close>

definition not_found_text :: str where
  \<open>not_found_text = ascii ''{"error":"room not found"}''\<close>

lemma objects:
  "is_valid_code code \<Longrightarrow> json_object (created_text code sid)" "is_valid_code code \<Longrightarrow> json_object (joined_text code sid n)"
  "json_object not_found_text"
  using plain_scalar(1) [OF valid_code_text(1), of code]
  by (simp_all add: json_object_def created_text_def joined_text_def not_found_text_def scalar_decimal)
     (simp_all add: ascii_def)

lemma room_texts:
  assumes "is_valid_code code"
  shows \<open>lit ''{"code":"'' @ code @ lit ''","session_id":'' @ show_number (unat sid) @ lit ''}'' = as_bytes (created_text code sid)\<close>
    "room_json code sid n = as_bytes (joined_text code sid n)" \<open>lit ''{"error":"room not found"}'' = as_bytes not_found_text\<close>
    "room_request (unat sid) = as_bytes (room_body sid)"
  using valid_code_text(2) [OF assms]
  by (simp_all add: created_text_def joined_text_def not_found_text_def room_body_def room_request_def room_json_def lit_def
      show_number_bytes as_bytes_append)

lemma plain_paths: "list_all plain (ascii ''/api/rooms'')" "list_all plain (ascii ''/api/rooms/'')"
  by (simp_all add: ascii_def plain_def in_range_def)

lemma room_lookup:
  assumes "serves P t c N host port" and "is_valid_code code"
  shows "http_get N r host port (ascii ''/api/rooms/'' @ code_text code) =
    (Inr (case resolve_room r code of Some sid \<Rightarrow> joined_text code sid (peer_count r sid) | None \<Rightarrow> not_found_text), r)"
proof -
  let ?path = "ascii ''/api/rooms/'' @ code_text code"
  have path: "list_all plain ?path" "as_bytes ?path = lit ''/api/rooms/'' @ code"
    using plain_paths(2) valid_code_text [OF assms(2)] by (simp_all add: as_bytes_append lit_def)
  show ?thesis
  proof (cases "resolve_room r code")
    case None
    then have "handle P r t c GET (as_bytes ?path) (Some []) = (json_response 404 (as_bytes not_found_text), r)"
      using assms(2) room_texts(3) [OF assms(2)] unfolding path(2) handle_rooms(2) by (simp add: handle_get_room_def)
    from get_answered [OF assms(1) path(1) objects(3) this] None show ?thesis
      by simp
  next
    case (Some sid)
    then have "handle P r t c GET (as_bytes ?path) (Some []) = (json_response 200 (as_bytes (joined_text code sid (peer_count r sid))), r)"
      using assms(2) room_texts(2) [OF assms(2)] unfolding path(2) handle_rooms(2) by (simp add: handle_get_room_def)
    from get_answered [OF assms(1) path(1) objects(2) [OF assms(2)] this] Some show ?thesis
      by simp
  qed
qed


section \<open>The benchmark\<close>

lemma bench_round:
  assumes "length out = 1200"
  shows "\<exists>out'. PacketBuilder_encode (PacketHeader_new 0x10 0xDEADBEEF 0 0) (replicate 960 0) out = Inr (out', 988) \<and>
    length out' = 1200 \<and> (\<exists>v. PacketView_decode (take 988 out') = Inr v)"
  using assms by (simp add: PacketBuilder_encode_eq PacketView_decode_packet_bytes)

lemma bench_runs:
  assumes "length (bench_out st) = 1200" and "unat (iters st) + length xs < 2 ^ 64" and "sum_ns st \<le> unat (iters st) * max_ns st"
  shows "\<exists>st'. bench_loop oc deadline st xs = Some st' \<and> sum_ns st' \<le> unat (iters st') * max_ns st' \<and>
    unat (iters st') = unat (iters st) + length (takeWhile (\<lambda>x. fst x < deadline) xs)"
  using assms
proof (induction xs arbitrary: st)
  case (Cons x xs)
  obtain out' v where out: "PacketBuilder_encode (PacketHeader_new 0x10 0xDEADBEEF 0 0) (replicate 960 0) (bench_out st) = Inr (out', 988)"
    "length out' = 1200" "PacketView_decode (take 988 out') = Inr v"
    using bench_round [OF Cons.prems(1)] by blast
  let ?st = "\<lparr>bench_out = out', iters = iters st + 1, max_ns = max (max_ns st) (snd x), sum_ns = sum_ns st + snd x\<rparr>"
  have n: "unat (iters st + 1) = unat (iters st) + 1" "iters st \<noteq> 0xFFFFFFFFFFFFFFFF"
    using Cons.prems(2) by (auto simp: unat_word_ariths)
  have "unat (iters st) * max_ns st \<le> unat (iters st) * max (max_ns st) (snd x)"
    by simp
  then have "sum_ns st + snd x \<le> unat (iters st) * max (max_ns st) (snd x) + max (max_ns st) (snd x)"
    using Cons.prems(3) by linarith
  then have "sum_ns ?st \<le> unat (iters ?st) * max_ns ?st"
    using n(1) by (simp add: algebra_simps)
  then show ?case
    using Cons.IH [of ?st] Cons.prems n out by auto
qed simp

text \<open>The benchmark always reports: no round panics, the count is the number of rounds before the deadline, and the average time
  is at most the maximum.\<close>

lemma bench_reports:
  assumes "length xs < 2 ^ 64"
  shows "\<exists>n avg top. cmd_bench oc ''loopback'' deadline xs = Some (Inr (n, avg, top)) \<and> avg \<le> top \<and>
    unat n = length (takeWhile (\<lambda>x. fst x < deadline) xs)"
proof -
  let ?st = "\<lparr>bench_out = replicate 1200 0, iters = 0, max_ns = 0, sum_ns = 0\<rparr>"
  obtain st' where st': "bench_loop oc deadline ?st xs = Some st'" "sum_ns st' \<le> unat (iters st') * max_ns st'"
    "unat (iters st') = length (takeWhile (\<lambda>x. fst x < deadline) xs)"
    using bench_runs [of ?st xs oc deadline] assms by auto
  have "sum_ns st' div max (unat (iters st')) 1 \<le> max_ns st'"
  proof (cases "unat (iters st') = 0")
    case False
    then have "max (unat (iters st')) 1 = unat (iters st')"
      by simp
    then show ?thesis
      using div_le_mono [OF st'(2), of "unat (iters st')"] False by simp
  qed (use st'(2) in simp)
  then show ?thesis
    using st' by (simp add: cmd_bench_def)
qed

section \<open>Session information\<close>

text \<open>\<open>gs info\<close> reports the identifier that the server chose and an active session, and closes it.\<close>

lemma info_reports:
  assumes "Session_new Config_default = Some s" and "handshake K (ClientSide cr) s peer evs = (Done (Inr ()), s', evs')"
  shows "\<exists>s''. cmd_info K cr env (Inr peer) None evs = (Some (Inr (s_session_id s', S_Active, s_metrics s', s_jitter s')), Some s'') \<and>
    s_closed s'' \<and> encrypt_key s'' = None"
proof -
  have "s_closed (snd (close_session env s'))" "encrypt_key (snd (close_session env s')) = None"
    by (auto simp: close_session_def Let_def transition_state_def sendsD [OF send_control_sends] split: option.splits)
  moreover have "fst (close_session env s') = Inr ()"
    by (simp add: close_session_def Let_def)
  ultimately show ?thesis
    using assms handshake_active [of K "ClientSide cr" s peer evs s' evs']
    by (cases "close_session env s'") (simp add: cmd_info_def Let_def)
qed

section \<open>Examples\<close>

definition demo_head :: bytes where
  "demo_head = as_bytes (ascii ''HTTP/1.1 200 OK'')"

definition demo_serve :: "u64 \<Rightarrow> u64 \<Rightarrow> nat Router \<Rightarrow> nat \<Rightarrow> bytes \<Rightarrow> (string + bytes) \<times> nat Router" where
  "demo_serve t c r a req =
     (let s = map unat req;
          (m, rest) = (if take 4 s = ascii ''GET '' then (GET, drop 4 s) else (POST, drop 5 s));
          path = takeWhile (\<lambda>c. c \<noteq> 32) rest;
          content = (case after_first (crlf @ crlf) s of Some b \<Rightarrow> b | None \<Rightarrow> []);
          (resp, r) = handle (\<lambda>_. ([], [])) r t c m (map of_nat path) (Some (map of_nat content))
      in (Inr (demo_head @ as_bytes (crlf @ crlf) @ body resp), r))"

definition demo_network :: "u64 \<Rightarrow> u64 \<Rightarrow> (nat Router, nat) Network" where
  "demo_network t c = \<lparr>parse_addr = (\<lambda>_. Inr 0), exchange = demo_serve t c\<rparr>"

text \<open>Lines of a head.\<close>

definition line :: "str \<Rightarrow> bool" where
  "line s \<longleftrightarrow> s \<noteq> [] \<and> list_all (\<lambda>c. c < 128 \<and> c \<noteq> 13) s"

lemma crlf2: "crlf @ crlf = [13, 10, 13, 10]"
  by (simp add: crlf_def)

lemma skip_text: "list_all (\<lambda>c. c < 128 \<and> c \<noteq> 13) s \<Longrightarrow> after_first (crlf @ crlf) (s @ rest) = after_first (crlf @ crlf) rest"
  by (induction s) (simp_all add: after_first_skip crlf2)

lemma skip_line:
  assumes "line s"
  shows "after_first (crlf @ crlf) (crlf @ s @ rest) = after_first (crlf @ crlf) rest"
proof -
  obtain c u where s: "s = c # u" "c \<noteq> 13"
    using assms by (cases s) (auto simp: line_def)
  have "after_first (crlf @ crlf) (13 # 10 # c # u @ rest) = after_first (crlf @ crlf) (c # u @ rest)"
    using s(2) after_first_skip [of "crlf @ crlf" 10 "c # u @ rest"] by (simp add: after_first.simps [of _ "13 # _"] crlf2)
  then show ?thesis
    using skip_text [of s rest] assms s(1) by (simp add: line_def crlf_def)
qed

lemma line_append: "line s \<Longrightarrow> line t \<Longrightarrow> line (s @ t)"
  by (simp add: line_def)

lemma line_parts: "line (decimal n)" "list_all plain p \<Longrightarrow> line (ascii ''GET '' @ p)" "list_all plain p \<Longrightarrow> line (ascii ''POST '' @ p)"
  using decimal_digits [of n]
  by (auto simp: line_def list_all_iff ascii_def is_digit_def in_range_def plain_def)

lemma line_texts: "line (ascii '' HTTP/1.1'')" "line (ascii ''Host: '')" "line (ascii '':'')" "line (ascii ''Connection: close'')"
  "line (ascii ''Content-Type: application/json'')" "line (ascii ''Content-Length: '')" "line (ascii ''relay'')" 
  by (simp_all add: line_def ascii_def)

lemma line_ascii: "line s \<Longrightarrow> list_all (\<lambda>c. c < 128) s"
  by (auto simp: line_def list_all_iff)

lemma demo_request:
  fixes port :: u16 and content :: str
  assumes "list_all plain path"
  defines "req \<equiv> get_request (ascii ''relay'') port path" and "head \<equiv> post_request (ascii ''relay'') port path content"
  shows "after_first (crlf @ crlf) req = Some []" "after_first (crlf @ crlf) (map unat (as_bytes head)) = Some (map unat (as_bytes content))"
    "\<exists>rest. map unat (as_bytes req) = ascii ''GET '' @ path @ 32 # rest" "map unat (as_bytes req) = req"
    "\<exists>rest. map unat (as_bytes head) = ascii ''POST '' @ path @ 32 # rest"
proof -
  let ?D = "crlf @ crlf"
  define get where "get = ascii ''GET '' @ path @ ascii '' HTTP/1.1''"
  define post where "post = ascii ''POST '' @ path @ ascii '' HTTP/1.1''"
  define host where "host = ascii ''Host: '' @ host_port (ascii ''relay'') port"
  define size where "size = ascii ''Content-Length: '' @ decimal (length (as_bytes content))"
  define kind where "kind = ascii ''Content-Type: application/json''"
  define conn where "conn = ascii ''Connection: close''"
  have lines: "line get" "line post" "line host" "line size" "line kind" "line conn"
    using line_append [OF line_parts(2) [OF assms(1)] line_texts(1)] line_append [OF line_parts(3) [OF assms(1)] line_texts(1)]
      line_append [OF line_texts(2) line_append [OF line_texts(7) line_append [OF line_texts(3) line_parts(1)]]]
      line_append [OF line_texts(6) line_parts(1)] line_texts(4,5)
    by (simp_all add: get_def post_def host_def size_def kind_def conn_def host_port_def)
  have req: "req = get @ crlf @ host @ crlf @ conn @ ?D"
    by (simp add: req_def get_request_def get_def host_def conn_def)
  have head: "head = (post @ crlf @ host @ crlf @ kind @ crlf @ size @ crlf @ conn @ ?D) @ content"
    by (simp add: head_def post_request_def post_def host_def conn_def kind_def size_def)
  have start: "after_first ?D (x @ rest) = after_first ?D rest" if "line x" for x rest
    using that skip_text [of x rest] by (simp add: line_def)
  show "after_first ?D req = Some []"
    unfolding req using lines start [of get] after_first_hit [of ?D "[]"] by (simp only: skip_line append_Nil2)
  show ascii: "map unat (as_bytes req) = req"
    by (rule map_unat_as_bytes) (use lines line_ascii in \<open>simp add: req crlf_def\<close>)
  have bytes: "map unat (as_bytes head) = post @ crlf @ host @ crlf @ kind @ crlf @ size @ crlf @ conn @ ?D @ map unat (as_bytes content)"
    unfolding head as_bytes_append map_append
    by (subst (1 2 3 4 5 6 7 8 9 10 11) map_unat_as_bytes) (use lines line_ascii in \<open>simp_all add: crlf_def\<close>)
  show "after_first ?D (map unat (as_bytes head)) = Some (map unat (as_bytes content))"
    unfolding bytes using lines start [of post] after_first_hit [of ?D] by (simp only: skip_line)
  show "\<exists>rest. map unat (as_bytes req) = ascii ''GET '' @ path @ 32 # rest"
    unfolding ascii unfolding req get_def by (simp add: ascii_def)
  show "\<exists>rest. map unat (as_bytes head) = ascii ''POST '' @ path @ 32 # rest"
    unfolding bytes post_def by (simp add: ascii_def)
qed

lemma plain_word: "list_all plain path \<Longrightarrow> takeWhile (\<lambda>c. c \<noteq> 32) (path @ 32 # rest) = path"
  by (induction path) (auto simp: plain_def in_range_def)

lemma demo_head_ok: "head_ok demo_head"
proof -
  have "line (ascii ''HTTP/1.1 200 OK'')"
    by (simp add: line_def ascii_def)
  then show ?thesis
    using skip_text [of "ascii ''HTTP/1.1 200 OK''"] after_first_hit [of "crlf @ crlf"] map_unat_as_bytes [of "ascii ''HTTP/1.1 200 OK''"]
      line_ascii by (simp add: head_ok_def demo_head_def line_def)
qed

lemma demo_serves: "serves (\<lambda>_. ([], [])) t c (demo_network t c) (ascii ''relay'') port"
proof -
  have bytes: "map of_nat (map unat b) = b" for b :: bytes
    by (induction b) simp_all
  have path: "map of_nat path = as_bytes path" if "list_all plain path" for path
    using plain_scalar(2) [OF that] by (simp add: as_bytes_ascii)
  have get: "answers (demo_network t c) 0 (get_request (ascii ''relay'') port path) (\<lambda>r. handle (\<lambda>_. ([], [])) r t c GET (as_bytes path) (Some []))"
    if p: "list_all plain path" for path
    using demo_request(1,3,4) [OF p, of port] plain_word [OF p] path [OF p] demo_head_ok
    by (auto simp: answers_def demo_network_def demo_serve_def Let_def ascii_def split: prod.splits)
  have post: "answers (demo_network t c) 0 (post_request (ascii ''relay'') port path content)
      (\<lambda>r. handle (\<lambda>_. ([], [])) r t c POST (as_bytes path) (Some (as_bytes content)))"
    if p: "list_all plain path" for path content
    using demo_request(2,5) [OF p, of port content] plain_word [OF p] path [OF p] bytes [of "as_bytes content"] demo_head_ok
    by (auto simp: answers_def demo_network_def demo_serve_def Let_def ascii_def split: prod.splits)
  show ?thesis
    using get post unfolding serves_def by (intro exI [of _ 0]) (simp add: demo_network_def)
qed


end
