(* ===== verification/CliPtt.thy ===== *)
theory CliPtt
  imports CliRooms Automaton
begin

text \<open>
  \<open>gravital-talk-cli/src/main.rs\<close>, the command \<open>gs ptt\<close>: choice of the peer, the loop that connects again, the terminal loop
  with its push-to-talk key, and the tasks that run beside it.  The terminal, the microphone, the room lookup and the tones
  are arguments.  The tasks of a connection share the session, the flag \<open>ptt_on\<close> and a queue of four frames; a run is the
  sequence of their steps.
\<close>

section \<open>The peer\<close>

text \<open>With a relay the room is looked up over HTTP, but the answer is only logged.\<close>

definition ptt_target ::
  "('w, 'a) Network \<Rightarrow> 'w \<Rightarrow> ClientRandom \<Rightarrow> ServerRandom \<Rightarrow> str option \<Rightarrow> u16 \<Rightarrow> u16 \<Rightarrow> str option \<Rightarrow> str option \<Rightarrow> u16 \<Rightarrow> bool \<Rightarrow>
   (string + 'a \<times> role_random \<times> bool) \<times> 'w" where
  "ptt_target N w cr sr relay_host relay_port relay_obs_port room peer_host peer_port listen =
     (case (relay_host, room, peer_host) of
        (Some relay_host, Some room_code, None) \<Rightarrow>
          (case http_get N w relay_host relay_obs_port (ascii ''/api/rooms/'' @ room_code) of
             (Inl e, w) \<Rightarrow> (Inl e, w)
           | (Inr resp, w) \<Rightarrow>
               (case parse_addr N (host_port relay_host relay_port) of
                  Inl e \<Rightarrow> (Inl e, w)
                | Inr a \<Rightarrow> (Inr (a, ClientSide cr, True), w)))
      | (None, None, Some host) \<Rightarrow>
          (case parse_addr N (host_port host peer_port) of
             Inl e \<Rightarrow> (Inl e, w)
           | Inr a \<Rightarrow> (Inr (a, (if listen then ServerSide sr else ClientSide cr), False), w))
      | _ \<Rightarrow> (Inl ''use either --relay + --room  OR  --peer [--listen]'', w))"

section \<open>A connection\<close>

record ('a, 'e, 'd) Ptt =
  ptt_cs :: "('a, 'e, 'd) CodecSession"
  ptt_on :: bool
  ptt_quit :: bool
  recv_ended :: bool
  disconnected :: bool
  bridge :: "i16 list list"
  speaker_queue :: "i16 list list"

text \<open>What the steps see: a key with its control modifier, a frame from the microphone, the turn of the sending task, a call of the
  receiving task, the look of the terminal loop at the signal of that task, a failure of the terminal.\<close>

datatype 'a ptt_event =
    Key char bool
  | OtherInput
  | Captured "i16 list"
  | SendTurn
  | RecvTurn u64 "'a Env list" "'a recv_event list"
  | CheckDisconnect
  | TerminalFailed string

datatype PttUiResult = Quit | Reconnect

text \<open>The toggle: flag, packet and tone.  Errors of the session are ignored.\<close>

definition toggle_ptt :: "(nat \<Rightarrow> nat \<Rightarrow> i16 list) \<Rightarrow> 'a Env \<Rightarrow> ('a, 'e, 'd) Ptt \<Rightarrow> ('a, 'e, 'd) Ptt" where
  "toggle_ptt tone env st =
     (let was_on = ptt_on st; cs = ptt_cs st; st = st\<lparr>ptt_on := \<not> was_on\<rparr> in
      if \<not> was_on
      then st\<lparr>ptt_cs := cs\<lparr>inner := snd (ptt_press env (inner cs))\<rparr>, speaker_queue := speaker_queue st @ [tone 880 100]\<rparr>
      else st\<lparr>ptt_cs := cs\<lparr>inner := snd (ptt_release env (inner cs))\<rparr>, speaker_queue := speaker_queue st @ [tone 440 80]\<rparr>)"

definition quit_key :: "char \<Rightarrow> bool \<Rightarrow> bool" where
  "quit_key c ctrl \<longleftrightarrow> c = CHR ''q'' \<or> c = CHR ''Q'' \<or> c = CHR ''c'' \<and> ctrl"

definition ptt_key :: "char \<Rightarrow> bool" where
  "ptt_key c \<longleftrightarrow> c = CHR '' '' \<or> c = CHR ''t'' \<or> c = CHR ''T''"

text \<open>One step of one of the tasks.  The capture thread drops a frame when the key is off or the queue is full; the sending task
  sends what is in the queue; the receiving task hands samples to the speaker until a call fails, which it signals, or panics,
  which it does not.  A call of \<open>recv_samples\<close> that still waits changes only the session.\<close>

definition ptt_step :: "aead \<Rightarrow> bool \<Rightarrow> (nat \<Rightarrow> nat \<Rightarrow> i16 list) \<Rightarrow> ('a, 'e, 'd) Ptt \<Rightarrow> 'a Env \<times> 'a ptt_event \<Rightarrow> ('a, 'e, 'd) Ptt" where
  "ptt_step A oc tone st x =
     (case snd x of
        Key c ctrl \<Rightarrow>
          (if quit_key c ctrl then st\<lparr>ptt_quit := True\<rparr>
           else if ptt_key c then toggle_ptt tone (fst x) st
           else st)
      | OtherInput \<Rightarrow> st
      | Captured samples \<Rightarrow> (if ptt_on st \<and> length (bridge st) < 4 then st\<lparr>bridge := bridge st @ [samples]\<rparr> else st)
      | SendTurn \<Rightarrow>
          (case bridge st of
             [] \<Rightarrow> st
           | samples # q \<Rightarrow> st\<lparr>bridge := q, ptt_cs := snd (send_samples A (fst x) (ptt_cs st) samples)\<rparr>)
      | RecvTurn now envs evs \<Rightarrow>
          (if recv_ended st then st
           else case recv_samples A oc now (ptt_cs st) envs evs of
             None \<Rightarrow> st\<lparr>recv_ended := True\<rparr>
           | Some (Some (Inr samples), cs) \<Rightarrow> st\<lparr>ptt_cs := cs, speaker_queue := speaker_queue st @ [samples]\<rparr>
           | Some (Some (Inl _), cs) \<Rightarrow> st\<lparr>ptt_cs := cs, recv_ended := True, disconnected := True\<rparr>
           | Some (None, cs) \<Rightarrow> st\<lparr>ptt_cs := cs\<rparr>)
      | CheckDisconnect \<Rightarrow> st
      | TerminalFailed e \<Rightarrow> st)"

text \<open>The terminal loop, with the steps of the other tasks in between; \<open>None\<close> while it runs.\<close>

primrec ptt_ui_loop ::
  "aead \<Rightarrow> bool \<Rightarrow> (nat \<Rightarrow> nat \<Rightarrow> i16 list) \<Rightarrow> ('a, 'e, 'd) Ptt \<Rightarrow> ('a Env \<times> 'a ptt_event) list \<Rightarrow>
   (string + PttUiResult) option \<times> ('a, 'e, 'd) Ptt" where
  "ptt_ui_loop A oc tone st [] = (None, st)"
| "ptt_ui_loop A oc tone st (x # xs) =
     (let st = ptt_step A oc tone st x in
      case snd x of
        Key c ctrl \<Rightarrow> (if quit_key c ctrl then (Some (Inr Quit), st) else ptt_ui_loop A oc tone st xs)
      | CheckDisconnect \<Rightarrow> (if disconnected st then (Some (Inr Reconnect), st) else ptt_ui_loop A oc tone st xs)
      | TerminalFailed e \<Rightarrow> (Some (Inl e), st)
      | _ \<Rightarrow> ptt_ui_loop A oc tone st xs)"

definition ptt_cleanup :: "'a Env \<Rightarrow> ('a, 'e, 'd) Ptt \<Rightarrow> ('a, 'e, 'd) Ptt" where
  "ptt_cleanup env st =
     (let cs = ptt_cs st;
          cs = cs\<lparr>inner := snd (ptt_release env (inner cs))\<rparr>;
          cs = snd (cs_close env cs)
      in st\<lparr>ptt_on := False, ptt_cs := cs, bridge := []\<rparr>)"

section \<open>Connecting again\<close>

record 'a Attempt =
  at_bound :: "string option"
  at_hs :: "'a hs_events"
  at_ui :: "('a Env \<times> 'a ptt_event) list"
  at_end :: "'a Env"

datatype ptt_end = Returns "CliError + unit" | Aborts | Runs

text \<open>The attempts one after the other, and the waits in seconds between them.  The flag \<open>ptt_on\<close> and the queue of the speaker
  survive a connection.\<close>

primrec ptt_loop ::
  "aead \<Rightarrow> kx \<Rightarrow> ('e, 'd) libopus option \<Rightarrow> bool \<Rightarrow> (nat \<Rightarrow> nat \<Rightarrow> i16 list) \<Rightarrow> 'a \<Rightarrow> role_random \<Rightarrow> CodecArg \<Rightarrow> nat \<Rightarrow>
   i16 list list \<Rightarrow> 'a Attempt list \<Rightarrow> ptt_end \<times> nat list" where
  "ptt_loop A K opus oc tone peer role codec delay spk [] = (Runs, [])"
| "ptt_loop A K opus oc tone peer role codec delay spk (a # as) =
     (case at_bound a of
        Some e \<Rightarrow> (Returns (Inl (Failure (''cannot bind UDP: '' @ e))), [])
      | None \<Rightarrow>
          (case CodecSession_new opus (cli_config 48000 1 20) (to_codec_id codec) of
             None \<Rightarrow> (Aborts, [])
           | Some (Inl e) \<Rightarrow> (Returns (Inl (SessionFailure e)), [])
           | Some (Inr cs) \<Rightarrow>
               (case cs_handshake K role cs peer (at_hs a) of
                  (None, _, _) \<Rightarrow> (Runs, [])
                | (Some (Inl e), _, _) \<Rightarrow>
                    (case ptt_loop A K opus oc tone peer role codec (min (delay * 2) 30) spk as of (r, ds) \<Rightarrow> (r, delay # ds))
                | (Some (Inr _), cs, _) \<Rightarrow>
                    (case ptt_ui_loop A oc tone
                        \<lparr>ptt_cs = cs, ptt_on = False, ptt_quit = False, recv_ended = False, disconnected = False, bridge = [], speaker_queue = spk\<rparr> (at_ui a) of
                       (None, _) \<Rightarrow> (Runs, [])
                     | (Some (Inr Quit), _) \<Rightarrow> (Returns (Inr ()), [])
                     | (Some (Inr Reconnect), st) \<Rightarrow>
                         ptt_loop A K opus oc tone peer role codec 2 (speaker_queue (ptt_cleanup (at_end a) st)) as
                     | (Some (Inl e), _) \<Rightarrow> (Returns (Inl (Failure e)), [])))))"

definition ptt_running ::
  "aead \<Rightarrow> kx \<Rightarrow> ('e, 'd) libopus option \<Rightarrow> bool \<Rightarrow> (nat \<Rightarrow> nat \<Rightarrow> i16 list) \<Rightarrow> 'a \<Rightarrow> role_random \<Rightarrow> CodecArg \<Rightarrow> 'a Attempt list \<Rightarrow>
   ptt_end \<times> nat list" where
  "ptt_running A K opus oc tone peer role codec attempts = ptt_loop A K opus oc tone peer role codec 2 [] attempts"

text \<open>The command: peer, output device, terminal, attempts; \<open>speaker\<close> and \<open>raw_mode\<close> are the errors of opening the device and of
  switching the terminal, if any.\<close>

definition cmd_ptt ::
  "('w, 'a) Network \<Rightarrow> 'w \<Rightarrow> aead \<Rightarrow> kx \<Rightarrow> ('e, 'd) libopus option \<Rightarrow> bool \<Rightarrow> (nat \<Rightarrow> nat \<Rightarrow> i16 list) \<Rightarrow> ClientRandom \<Rightarrow> ServerRandom \<Rightarrow>
   str option \<Rightarrow> u16 \<Rightarrow> u16 \<Rightarrow> str option \<Rightarrow> str option \<Rightarrow> u16 \<Rightarrow> bool \<Rightarrow> string option \<Rightarrow> string option \<Rightarrow> CodecArg \<Rightarrow>
   'a Attempt list \<Rightarrow> ptt_end \<times> nat list" where
  "cmd_ptt N w A K opus oc tone cr sr relay_host relay_port relay_obs_port room peer_host peer_port listen speaker raw_mode codec
     attempts =
     (case fst (ptt_target N w cr sr relay_host relay_port relay_obs_port room peer_host peer_port listen) of
        Inl e \<Rightarrow> (Returns (Inl (Failure e)), [])
      | Inr (peer, role, via_relay) \<Rightarrow>
          (case speaker of
             Some e \<Rightarrow> (Returns (Inl (Failure e)), [])
           | None \<Rightarrow>
               (case raw_mode of
                  Some e \<Rightarrow> (Returns (Inl (Failure e)), [])
                | None \<Rightarrow> ptt_running A K opus oc tone peer role codec attempts)))"

section \<open>The key and the session\<close>

text \<open>The queue is bounded, and the session never holds the floor while the key is off.\<close>

definition ptt_inv :: "('a, 'e, 'd) Ptt \<Rightarrow> bool" where
  "ptt_inv st \<longleftrightarrow> length (bridge st) \<le> 4 \<and> (ptt_active (inner (ptt_cs st)) \<longrightarrow> ptt_on st)"

lemma control_twice:
  assumes "send_control env t m sid pl p = (r, t')"
  shows "sends t t'" "sends t (snd (send_control env t' m2 sid2 pl2 p))"
  using send_control_sends [of t env m sid pl p] assms by (auto intro: sends_trans send_control_sends)

lemma press_sends: "sends (s\<lparr>ptt_active := True\<rparr>) (snd (ptt_press env s))"
  by (simp add: ptt_press_def Let_def control_twice split: option.splits sum.splits prod.splits)

lemma release_sends: "sends (s\<lparr>ptt_active := False\<rparr>) (snd (ptt_release env s))"
  by (simp add: ptt_release_def Let_def control_twice split: option.splits sum.splits prod.splits)

lemma toggle_fields:
  "ptt_active (inner (ptt_cs (toggle_ptt tone env st))) = (\<not> ptt_on st)" "ptt_on (toggle_ptt tone env st) = (\<not> ptt_on st)"
  "bridge (toggle_ptt tone env st) = bridge st"
  using sendsD(12) [OF press_sends [of "inner (ptt_cs st)" env]] sendsD(12) [OF release_sends [of "inner (ptt_cs st)" env]]
  by (simp_all add: toggle_ptt_def Let_def)

lemma send_samples_ptt: "ptt_active (inner (snd (send_samples A env cs pcm))) = ptt_active (inner cs)"
proof -
  have "ptt_active s' = ptt_active s" if "send_audio A env s pl = (r, s')" for s s' :: "'a Session" and pl r
    using send_audio_identity(4) [of A env s pl] that by simp
  then show ?thesis
    by (auto simp: send_samples_def Let_def split: prod.splits sum.splits)
qed

text \<open>Nothing that arrives gives the floor; a denial takes it.\<close>

lemma datagram_ptt: "handle_datagram A oc env s d = Some (res, s') \<Longrightarrow> ptt_active s' \<Longrightarrow> ptt_active s"
proof -
  have control: "ptt_active t' = ptt_active t" if "send_control env t m sid pl p = (r, t')" for t t' :: "'a Session" and m sid pl p r
    using sendsD(12) [OF send_control_sends [of t env m sid pl p]] that by simp
  have audio: "ptt_active t' = ptt_active t" if "dispatch_audio A oc env t view d = Some t'" for t t' view
    using that by (auto simp: dispatch_audio_def accept_audio_def count_integrity_error_def split: option.splits if_splits)
  have fec: "ptt_active (dispatch_fec A t view d) = ptt_active t" for t view
    by (simp add: dispatch_fec_def count_integrity_error_def Let_def split: option.splits sum.splits prod.splits)
  have control': "ptt_active (snd (send_control env t m sid pl p)) = ptt_active t" for t :: "'a Session" and m sid pl p
    using sendsD(12) [OF send_control_sends [of t env m sid pl p]] .
  assume h: "handle_datagram A oc env s d = Some (res, s')" and on: "ptt_active s'"
  show "ptt_active s"
  proof (cases "PacketView_decode d")
    case (Inl e)
    then show ?thesis
      using h on by (auto simp: handle_datagram_def count_received_def count_integrity_error_def Let_def)
  next
    case (Inr view)
    let ?s = "(count_received (of_nat (length d)) s)\<lparr>last_rx := env_now env\<rparr>"
    have disp: "dispatch_packet A oc env ?s view d = Some (res, s')"
      using h Inr by (simp add: handle_datagram_def Let_def)
    have "ptt_active ?s"
    proof (cases "MessageType_from_code (msg_type (header view))")
      case (Inl e)
      then show ?thesis
        using disp on by (auto simp: dispatch_packet_def count_integrity_error_def)
    next
      case (Inr m)
      then show ?thesis
        using disp on
        by (cases m)
           (auto simp: dispatch_packet_def transition_state_def fec control' split: option.splits sum.splits if_splits
             dest: control audio)
    qed
    then show ?thesis
      by (simp add: count_received_def)
  qed
qed

lemma loop_ptt: "recv_audio_loop A oc skip deadline s envs evs = Some (r, s') \<Longrightarrow> ptt_active s' \<Longrightarrow> ptt_active s"
proof (induction envs arbitrary: s deadline evs r s')
  case (Cons env envs)
  obtain jb fo where pop: "pop_with_deadline (s_jitter s) (env_now env) deadline = (jb, fo)"
    by force
  let ?s = "s\<lparr>s_jitter := jb\<rparr>"
  consider f where "fo = Some f" | "fo = None" "deadline \<le> env_now env" | "fo = None" "\<not> deadline \<le> env_now env"
    by (cases fo) auto
  then show ?case
  proof cases
    case 2
    then show ?thesis
      using Cons.IH [of "env_now env + skip" ?s evs r s'] Cons.prems pop by simp
  next
    case 3
    show ?thesis
    proof (cases evs)
      case (Cons ev evs')
      note step = 3 pop Cons
      show ?thesis
      proof (cases ev)
        case (RecvData d q)
        then show ?thesis
          using step Cons.prems Cons.IH [of deadline _ evs' r s'] datagram_ptt [of A oc env ?s d]
          by (auto simp: Let_def split: option.splits sum.splits)
      qed (use step Cons.prems Cons.IH [of deadline ?s evs' r s'] in auto)
    qed (use 3 pop Cons.prems Cons.IH [of deadline ?s "[]" r s'] in simp)
  qed (use Cons.prems pop in auto)
qed auto

lemma deliver_inner: "deliver_frame c f = (r, c') \<Longrightarrow> inner c' = inner c"
  by (auto simp: deliver_frame_def Let_def split: prod.splits sum.splits if_splits)

lemma recv_samples_ptt:
  assumes "recv_samples A oc now cs envs evs = Some (r, cs')" and "ptt_active (inner cs')"
  shows "ptt_active (inner cs)"
proof (cases "plc_queue cs")
  case (Cons pcm q)
  then show ?thesis
    using assms by (auto simp: recv_samples_def)
next
  case Nil
  obtain res s' where s': "recv_audio A oc now (inner cs) envs evs = Some (res, s')"
    using assms(1) Nil by (auto simp: recv_samples_def split: option.splits)
  consider "res = None" | e where "res = Some (Inl e)" | f where "res = Some (Inr f)"
    by (metis option.exhaust sum.exhaust)
  then have "inner cs' = s'"
    by cases (use assms(1) Nil s' in \<open>auto simp: recv_samples_def split: prod.splits dest: deliver_inner\<close>)
  then show ?thesis
    using s' assms(2) loop_ptt by (auto simp: recv_audio_def Let_def)
qed

lemma ptt_step_inv: "ptt_inv st \<Longrightarrow> ptt_inv (ptt_step A oc tone st x)"
proof (cases "snd x")
  case (RecvTurn now envs evs)
  assume "ptt_inv st"
  then show ?thesis
    using RecvTurn recv_samples_ptt [of A oc now "ptt_cs st" envs evs]
    by (auto simp: ptt_step_def ptt_inv_def split: option.splits sum.splits)
qed (auto simp: ptt_step_def ptt_inv_def toggle_fields send_samples_ptt split: list.splits)

interpretation ptt: automaton ptt_inv "ptt_step A oc tone" for A oc tone
  by unfold_locales (rule ptt_step_inv)

text \<open>The push-to-talk keys among the events.\<close>

definition toggles :: "'a Env \<times> 'a ptt_event \<Rightarrow> bool" where
  "toggles x \<longleftrightarrow> (case snd x of Key c ctrl \<Rightarrow> \<not> quit_key c ctrl \<and> ptt_key c | _ \<Rightarrow> False)"

lemma ptt_step_on: "ptt_on (ptt_step A oc tone st x) = (if toggles x then \<not> ptt_on st else ptt_on st)"
  by (auto simp: ptt_step_def toggles_def toggle_fields split: ptt_event.splits list.splits option.splits sum.splits)

lemma ptt_run_on: "ptt_on (foldl (ptt_step A oc tone) st xs) = (ptt_on st \<noteq> odd (length (filter toggles xs)))"
  by (induction xs arbitrary: st) (auto simp: ptt_step_on)

section \<open>Properties\<close>


lemma deny_received:
  assumes "PacketView_decode d = Inr view" and "msg_type (header view) = MessageType_code FloorDeny"
  shows "handle_datagram A oc env s d =
    Some (Inr (), (count_received (of_nat (length d)) s)\<lparr>last_rx := env_now env, ptt_active := False\<rparr>)"
  using assms MessageType_from_code_code [of FloorDeny]
  by (simp add: handle_datagram_def dispatch_packet_def Let_def)

text \<open>C32: a denied talker keeps talking.  The other side denies the floor while the key is on.  The session gives the floor up, but
  the flag that gates the microphone stays on: the next captured frame is sent, and the other side decodes it.\<close>

theorem denied_talker_keeps_sending:
  fixes st :: "('a, 'e, 'd) Ptt"
  defines "cs \<equiv> ptt_cs st"
  assumes "ptt_on st \<and> \<not> recv_ended st" and "bridge st = []" and "plc_queue cs = []" and "waiting n (s_jitter (inner cs))"
    and "PacketView_decode d = Inr view" and "msg_type (header view) = MessageType_code FloorDeny"
    and "env_now e < now + ucast (cfg_jitter_buffer_ms (s_config (inner cs))) * 3 * 1000"
    and "encode_frame (cs_encoder cs) pcm (replicate (max (cs_mtu cs) 1500) 0) = (Inr (out, len), enc)"
    and "length (take len out) \<le> 1156" and "length (take len out) + 48 \<le> cfg_mtu (s_config (inner cs))"
    and "aead_ok A" and "\<forall>n a m. aead_encrypt A k n a m \<noteq> None" and "accepts env p"
    and "sm_state (s_state (inner cs)) = S_Active" and "s_peer (inner cs) = Some p" and "encrypt_key (inner cs) = Some k"
    and "decrypt_key r = Some k" and "s_session_id r = s_session_id (inner cs)"
  shows "\<exists>x rest f. let st' = foldl (ptt_step A oc tone) st
      [(e, RecvTurn now [e] [RecvData d q]), (e, Captured pcm), (env, SendTurn)] in
    ptt_on st' \<and> \<not> ptt_active (inner (ptt_cs st')) \<and>
    outbox (inner (ptt_cs st')) = outbox (inner cs) @ (p, x) # rest \<and> frame_of A r x = Some f \<and> fr_payload f = take len out"
proof -
  define s1 where "s1 = (count_received (of_nat (length d)) (inner cs))\<lparr>last_rx := env_now e, ptt_active := False\<rparr>"
  have pop: "pop_with_deadline (s_jitter (inner cs)) (env_now e)
      (now + ucast (cfg_jitter_buffer_ms (s_config (inner cs))) * 3 * 1000) = (s_jitter (inner cs), None)"
    using waiting_pop [OF assms(5)] assms(8) by (simp add: pop_with_deadline_def)
  have "recv_audio A oc now (inner cs) [e] [RecvData d q] = Some (None, s1)"
    using pop assms(8) deny_received [OF assms(6,7), of A oc e "inner cs"] by (simp add: recv_audio_def Let_def s1_def)
  then have st1: "ptt_step A oc tone st (e, RecvTurn now [e] [RecvData d q]) = st\<lparr>ptt_cs := cs\<lparr>inner := s1\<rparr>\<rparr>"
    using assms(2,4) by (simp add: ptt_step_def recv_samples_def cs_def)
  have same: "sm_state (s_state s1) = S_Active" "s_peer s1 = Some p" "encrypt_key s1 = Some k" "s_config s1 = s_config (inner cs)"
    "s_session_id r = s_session_id s1" "outbox s1 = outbox (inner cs)" "\<not> ptt_active s1"
    using assms(15-17,19) by (simp_all add: s1_def count_received_def)
  obtain s2 where s2: "send_audio A env s1 (take len out) = (Inr (), s2)"
    using send_audio_succeeds [OF assms(12) same(1-3) assms(13), of env "take len out"] assms(10,11,14) same(4)
    by (auto simp: accepts_def)
  have off: "\<not> ptt_active s2"
    using send_audio_identity(4) [of A env s1 "take len out"] s2 same(7) by simp
  have "send_samples A env (cs\<lparr>inner := s1\<rparr>) pcm = (Inr (), cs\<lparr>inner := s2, cs_encoder := enc\<rparr>)"
    using assms(9) s2 by (simp add: send_samples_def)
  then have run: "foldl (ptt_step A oc tone) st [(e, RecvTurn now [e] [RecvData d q]), (e, Captured pcm), (env, SendTurn)] =
      st\<lparr>ptt_cs := cs\<lparr>inner := s2, cs_encoder := enc\<rparr>\<rparr>"
    using st1 assms(2,3) by (simp add: ptt_step_def)
  from send_audio_datagrams [OF assms(12) s2 same(3) assms(18) same(5)] obtain x rest where
    "outbox s2 = outbox s1 @ (p, x) # rest" "\<exists>f. frame_of A r x = Some f \<and> fr_payload f = take len out"
    using same(2) by auto
  then show ?thesis
    using assms(2) off same(6) unfolding run by auto
qed

lemma capped_product: "1 \<le> b \<Longrightarrow> min c (min a c * b) = min c (a * b)" for a b c :: nat
proof (cases "a \<le> c")
  case False
  assume "1 \<le> b"
  then have "c * 1 \<le> a * b" "c * 1 \<le> c * b"
    using False by (intro mult_le_mono; simp)+
  then show ?thesis
    using False by simp
qed simp


text \<open>A room that does not exist.  With a well-formed code that the relay does not know, \<open>gs ptt\<close> gets the answer that the room
  was not found, ignores it, and connects to the relay as if the room existed.\<close>

lemma unknown_room_connects:
  assumes "serves P t c N host obs_port" and "is_valid_code code" and "resolve_room r code = None"
    and "parse_addr N (host_port host port) = Inr a"
  shows "http_get N r host obs_port (ascii ''/api/rooms/'' @ code_text code) = (Inr not_found_text, r) \<and>
    cmd_ptt N r A K opus oc tone cr sr (Some host) port obs_port (Some (code_text code)) None peer_port listen None None codec attempts =
      ptt_running A K opus oc tone a (ClientSide cr) codec attempts"
  using room_lookup [OF assms(1,2), of r] assms(3,4) by (simp add: cmd_ptt_def ptt_target_def)

section \<open>Examples\<close>

definition demo_ptt :: "(nat, unit, unit) CodecSession \<Rightarrow> (nat, unit, unit) Ptt" where
  "demo_ptt cs = \<lparr>ptt_cs = cs, ptt_on = False, ptt_quit = False, recv_ended = False, disconnected = False, bridge = [], speaker_queue = []\<rparr>"

definition demo_tone :: "nat \<Rightarrow> nat \<Rightarrow> i16 list" where
  "demo_tone f ms = replicate ms 0"


theorem denied_talker_keeps_sending_witness:
  "\<exists>(cs :: (nat, unit, unit) CodecSession) x rest d. let st' = foldl (ptt_step null_aead True demo_tone) ((demo_ptt cs)\<lparr>ptt_on := True\<rparr>)
       [(demo_env 1, RecvTurn 0 [demo_env 1] [RecvData d 0]), (demo_env 1, Captured [1, 2]), (demo_env 2, SendTurn)] in
     ptt_on st' \<and> \<not> ptt_active (inner (ptt_cs st')) \<and> outbox (inner (ptt_cs st')) = outbox (inner cs) @ (0, x) # rest"
proof -
  obtain b where b: "JitterBuffer_new 16 = Some b"
    using new_power [of 4] by auto
  define cs where "cs = demo_codec_session ((demo_session b demo_cc)\<lparr>ptt_active := True\<rparr>)"
  define hdr where "hdr = PacketHeader_new (MessageType_code FloorDeny) 7 0 0"
  define view :: PacketView where "view = \<lparr>header = hdr, payload = []\<rparr>"
  define d where "d = packet_bytes hdr []"
  let ?st = "(demo_ptt cs)\<lparr>ptt_on := True\<rparr>"
  have st: "ptt_cs ?st = cs" "ptt_on ?st \<and> \<not> recv_ended ?st" "bridge ?st = []"
    by (simp_all add: demo_ptt_def)
  have f: "cs_encoder cs = PcmCoder demo_codec" "cs_mtu cs = 1200" "plc_queue cs = []" "s_jitter (inner cs) = b"
    "sm_state (s_state (inner cs)) = S_Active" "s_peer (inner cs) = Some 0" "encrypt_key (inner cs) = Some [1]"
    "decrypt_key (inner cs) = Some [1]" "s_config (inner cs) = Config_default"
    by (simp_all add: cs_def demo_codec_session_def demo_session_def)
  have view: "PacketView_decode d = Inr view" "msg_type (header view) = MessageType_code FloorDeny"
    by (simp_all add: PacketView_decode_packet_bytes d_def view_def hdr_def) (simp add: PacketHeader_new_def)
  obtain out enc where enc: "encode_frame (cs_encoder cs) [1, 2] (replicate (max (cs_mtu cs) 1500) 0) = (Inr (out, 4), enc)"
    using encode_samples [of "[1, 2]" demo_codec "replicate 1500 0"] f(1,2) by simp
  have side: "waiting 0 (s_jitter (inner cs))" "env_now (demo_env 1) < 0 + ucast (cfg_jitter_buffer_ms (s_config (inner cs))) * 3 * 1000"
    "length (take 4 out) \<le> 1156" "length (take 4 out) + 48 \<le> cfg_mtu (s_config (inner cs))"
    using waiting_new [OF b] by (simp_all add: f(4,9) demo_env_def Config_default_def DEFAULT_JITTER_BUFFER_MS_def size_consts)
  have cipher: "\<forall>n a m. aead_encrypt null_aead [1] n a m \<noteq> None"
    by (simp add: null_aead_def)
  note talks = denied_talker_keeps_sending [of ?st 0 d view "demo_env 1" 0 "[1, 2]" out 4 enc null_aead "[1]" "demo_env 2" 0 "inner cs", unfolded st(1)]
  from talks [OF st(2,3) f(3) side(1) view side(2) enc side(3,4) null_aead_ok cipher demo_handshake(6) f(5-8) refl, of True demo_tone 0]
  show ?thesis
    unfolding Let_def by blast
qed

lemma deadline_ends_handshake:
  assumes "sm_state (s_state (inner cs)) = S_Idle"
  shows "\<exists>cs'. cs_handshake K (ServerSide sr) cs p ((env, HsDeadline) # evs) = (Some (Inl (TransportFailed Timeout)), cs', evs)"
  using assms by (simp add: cs_handshake_def handshake_def handshake_server_def advance_def transition_step transition_next_def)


lemma unknown_room_connects_witness:
  "cmd_ptt (demo_network 5 6) (Router_new 10 8 RelayMetrics_new) null_aead demo_kx (None :: (unit, unit) libopus option) True demo_tone
     demo_cr demo_sr (Some (ascii ''relay'')) 9000 9100 (Some (code_text (generate_code 1 2))) None 9000 False None None OpusArg [] =
   ptt_running null_aead demo_kx (None :: (unit, unit) libopus option) True demo_tone (0 :: nat) (ClientSide demo_cr) OpusArg []"
proof -
  have "is_valid_code (generate_code 1 2)" "resolve_room (Router_new 10 8 RelayMetrics_new :: nat Router) (generate_code 1 2) = None"
    "parse_addr (demo_network 5 6) (host_port (ascii ''relay'') 9000) = Inr 0"
    using generated_rooms_valid by (simp_all add: Router_new_def resolve_room_def demo_network_def)
  from unknown_room_connects [OF demo_serves this, of 9100 null_aead demo_kx "None :: (unit, unit) libopus option" True demo_tone demo_cr demo_sr 9000 False OpusArg "[]"]
  show ?thesis
    by simp
qed

end
