(* ===== verification/Resampler.thy ===== *)
theory Resampler
  imports Devices
begin

text \<open>
  \<open>gravital-talk-io/src/resampler.rs\<close>: buffering and interleaving around a block resampler.  The crate \<open>rubato\<close> is an argument:
  how many samples per channel its next block needs, and what it makes of a block.  A float sample is of an arbitrary type
  and the two conversions are arguments.
\<close>

record ('r, 'f) rubato =
  rubato_new :: "nat \<Rightarrow> nat \<Rightarrow> nat \<Rightarrow> nat \<Rightarrow> nat \<Rightarrow> string + 'r"
  input_frames_next :: "'r \<Rightarrow> nat"
  process_into_buffer :: "'r \<Rightarrow> 'f list list \<Rightarrow> 'f list list \<Rightarrow> (string + 'f list list) \<times> 'r"

record ('r, 'f) Resampler =
  rs_inner :: 'r
  rs_in_rate :: u32
  rs_out_rate :: u32
  rs_channels :: nat
  out_frames_per_channel :: nat
  out_f32 :: "'f list list"
  pending_in :: "'f list list"

definition Resampler_new :: "('r, 'f) rubato \<Rightarrow> 'f \<Rightarrow> u32 \<Rightarrow> u32 \<Rightarrow> u8 \<Rightarrow> nat \<Rightarrow> IoError + ('r, 'f) Resampler" where
  "Resampler_new R zero in_rate out_rate channels n =
     (if channels = 0 then Inl (UnsupportedConfig ''zero channels'')
      else
        let channels = unat channels in
        case rubato_new R (unat in_rate) (unat out_rate) n 2 channels of
          Inl e \<Rightarrow> Inl (UnsupportedConfig (''rubato init: '' @ e))
        | Inr r \<Rightarrow>
            Inr \<lparr>rs_inner = r, rs_in_rate = in_rate, rs_out_rate = out_rate, rs_channels = channels, out_frames_per_channel = n,
                 out_f32 = replicate channels (replicate n zero), pending_in = replicate channels []\<rparr>)"

definition out_block_size :: "('r, 'f) Resampler \<Rightarrow> nat" where
  "out_block_size st = out_frames_per_channel st * rs_channels st"

text \<open>\<open>chunks_exact\<close>, and the loop that spreads the samples of each chunk over the channels.\<close>

fun chunks_exact :: "nat \<Rightarrow> 'x list \<Rightarrow> 'x list list" where
  "chunks_exact k xs = (if k = 0 \<or> length xs < k then [] else take k xs # chunks_exact k (drop k xs))"

declare chunks_exact.simps [simp del]

definition deinterleave :: "(i16 \<Rightarrow> 'f) \<Rightarrow> nat \<Rightarrow> 'f list list \<Rightarrow> i16 list \<Rightarrow> 'f list list" where
  "deinterleave conv channels pending xs = foldl (map2 (\<lambda>q x. q @ [conv x])) pending (chunks_exact channels xs)"

definition interleave :: "('f \<Rightarrow> i16) \<Rightarrow> nat \<Rightarrow> nat \<Rightarrow> 'f list list \<Rightarrow> i16 list" where
  "interleave conv channels n out = concat (map (\<lambda>i. map (\<lambda>ch. conv (out ! ch ! i)) [0..<channels]) [0..<n])"

text \<open>The blocks that the buffered input allows; \<open>None\<close> is a loop that does not end.\<close>

partial_function (option) push_loop ::
  "('r, 'f) rubato \<Rightarrow> ('f \<Rightarrow> i16) \<Rightarrow> ('r, 'f) Resampler \<Rightarrow> i16 list \<Rightarrow> ((IoError + i16 list) \<times> ('r, 'f) Resampler) option" where
  "push_loop R conv st out_concat =
     (let needed = input_frames_next R (rs_inner st) in
      if length (pending_in st ! 0) < needed then Some (Inr out_concat, st)
      else
        let in_f32 = map (take needed) (pending_in st);
            st = st\<lparr>pending_in := map (drop needed) (pending_in st)\<rparr>
        in case process_into_buffer R (rs_inner st) in_f32 (out_f32 st) of
             (Inl e, r) \<Rightarrow> Some (Inl (UnsupportedConfig (''rubato process: '' @ e)), st\<lparr>rs_inner := r\<rparr>)
           | (Inr out, r) \<Rightarrow>
               push_loop R conv (st\<lparr>rs_inner := r, out_f32 := out\<rparr>)
                 (out_concat @ interleave conv (rs_channels st) (out_frames_per_channel st) out))"

definition Resampler_push ::
  "('r, 'f) rubato \<Rightarrow> (i16 \<Rightarrow> 'f) \<Rightarrow> ('f \<Rightarrow> i16) \<Rightarrow> ('r, 'f) Resampler \<Rightarrow> i16 list \<Rightarrow>
   ((IoError + i16 list) \<times> ('r, 'f) Resampler) option" where
  "Resampler_push R to_f32 to_i16 st samples_in =
     (if length samples_in mod rs_channels st \<noteq> 0
      then Some (Inl (UnsupportedConfig ''input length not multiple of channels''), st)
      else push_loop R to_i16 (st\<lparr>pending_in := deinterleave to_f32 (rs_channels st) (pending_in st) samples_in\<rparr>) [])"

section \<open>Buffers\<close>

text \<open>All channels hold equally many samples, and the output buffer has the size of a block.\<close>

definition block_ok :: "nat \<Rightarrow> nat \<Rightarrow> 'f list list \<Rightarrow> bool" where
  "block_ok channels n b \<longleftrightarrow> length b = channels \<and> (\<forall>q \<in> set b. length q = n)"

definition rs_ok :: "('r, 'f) Resampler \<Rightarrow> bool" where
  "rs_ok st \<longleftrightarrow> 0 < rs_channels st \<and> block_ok (rs_channels st) (out_frames_per_channel st) (out_f32 st) \<and>
     block_ok (rs_channels st) (length (pending_in st ! 0)) (pending_in st)"

text \<open>What the engine promises: a block of the size it asked for is processed into a block of the agreed size, and it cannot
  ask for nothing for ever.\<close>

definition engine_ok :: "('r, 'f) rubato \<Rightarrow> nat \<Rightarrow> nat \<Rightarrow> ('r \<Rightarrow> nat) \<Rightarrow> bool" where
  "engine_ok R channels n rank \<longleftrightarrow>
     (\<forall>r inp out. block_ok channels (input_frames_next R r) inp \<longrightarrow> block_ok channels n out \<longrightarrow>
        (\<exists>b r'. process_into_buffer R r inp out = (Inr b, r') \<and> block_ok channels n b \<and>
           (input_frames_next R r = 0 \<longrightarrow> rank r' < rank r)))"

lemma chunks_append: "length xs mod k = 0 \<Longrightarrow> chunks_exact k (xs @ ys) = chunks_exact k xs @ chunks_exact k ys"
proof (induction k xs rule: chunks_exact.induct)
  case (1 k xs)
  show ?case
  proof (cases "k = 0 \<or> length xs < k")
    case True
    then show ?thesis
      using 1(2) by (cases "k = 0") (simp_all add: chunks_exact.simps)
  next
    case False
    then have "length (drop k xs) mod k = 0"
      using 1(2) by (simp add: le_mod_geq)
    then show ?thesis
      using 1(1) [OF False] False by (simp add: chunks_exact.simps [of k "xs @ ys"] chunks_exact.simps [of k xs])
  qed
qed

lemma chunk_lengths: "c \<in> set (chunks_exact k xs) \<Longrightarrow> length c = k"
proof (induction k xs rule: chunks_exact.induct)
  case (1 k xs)
  then show ?case
    by (subst (asm) (2) chunks_exact.simps) (auto split: if_splits)
qed

text \<open>The loop of one call distributes over concatenation, and it extends every channel.\<close>

lemma deinterleave_append:
  "length xs mod k = 0 \<Longrightarrow> deinterleave conv k p (xs @ ys) = deinterleave conv k (deinterleave conv k p xs) ys"
  by (simp add: deinterleave_def chunks_append)

definition append_channels :: "'f list list \<Rightarrow> 'f list list \<Rightarrow> 'f list list" where
  "append_channels p q = map2 (@) p q"

lemma extend_push:
  assumes "length q = length p" and "length c = length p"
  shows "map2 (\<lambda>q x. q @ [f x]) (append_channels p q) c = append_channels p (map2 (\<lambda>q x. q @ [f x]) q c)"
  using assms by (auto simp: append_channels_def intro!: nth_equalityI)

lemma deinterleave_extend:
  assumes "length p = k"
  shows "deinterleave conv k p xs = append_channels p (deinterleave conv k (replicate k []) xs) \<and>
    block_ok k (length (chunks_exact k xs)) (deinterleave conv k (replicate k []) xs)"
proof -
  let ?f = "map2 (\<lambda>q x. q @ [conv x])"
  have "foldl ?f (append_channels p q) cs = append_channels p (foldl ?f q cs) \<and> block_ok k (n + length cs) (foldl ?f q cs)"
    if "block_ok k n q" "\<forall>c \<in> set cs. length c = k" for q cs n
    using that
  proof (induction cs arbitrary: q n)
    case (Cons c cs)
    have "block_ok k (Suc n) (?f q c)"
      using Cons.prems by (auto simp: block_ok_def set_zip)
    then show ?case
      using Cons.IH [of "Suc n" "?f q c"] Cons.prems extend_push [of q p c conv] assms by (simp add: block_ok_def)
  qed simp
  from this [of 0 "replicate k []" "chunks_exact k xs"] chunk_lengths [of _ k xs] assms
  show ?thesis
    by (simp add: deinterleave_def block_ok_def append_channels_def zip_replicate2 comp_def)
qed

lemma block_extend: "block_ok k m p \<Longrightarrow> block_ok k n q \<Longrightarrow> block_ok k (m + n) (append_channels p q)"
  by (auto simp: block_ok_def append_channels_def set_zip)

lemma block_nth: "block_ok k n b \<Longrightarrow> 0 < k \<Longrightarrow> length (b ! 0) = n"
  by (auto simp: block_ok_def)

lemma block_take: "block_ok k n b \<Longrightarrow> m \<le> n \<Longrightarrow> block_ok k m (map (take m) b) \<and> block_ok k (n - m) (map (drop m) b)"
  by (auto simp: block_ok_def)

lemma extend_take:
  assumes "block_ok k n p" and "length q = k" and "m \<le> n"
  shows "map (take m) (append_channels p q) = map (take m) p" "map (drop m) (append_channels p q) = append_channels (map (drop m) p) q"
  using assms by (auto simp: block_ok_def append_channels_def intro!: nth_equalityI)

lemma interleave_length: "length (interleave conv k n b) = n * k"
  by (simp add: interleave_def length_concat comp_def sum_list_triv)

section \<open>The loop\<close>

text \<open>The loop ends, what it returns is a number of whole blocks after what it was given, and more input at the end of the channels
  only adds more rounds.\<close>

lemma push_loop_runs:
  fixes st :: "('r, 'f) Resampler"
  assumes "engine_ok R (rs_channels st) (out_frames_per_channel st) rank" and "rs_ok st"
  shows "\<exists>out st'. rs_ok st' \<and> out_block_size st dvd length out \<and> rs_channels st' = rs_channels st \<and>
    out_frames_per_channel st' = out_frames_per_channel st \<and>
    (\<forall>acc. push_loop R conv st acc = Some (Inr (acc @ out), st')) \<and>
    (\<forall>acc q. length q = rs_channels st \<longrightarrow>
       push_loop R conv (st\<lparr>pending_in := append_channels (pending_in st) q\<rparr>) acc =
       push_loop R conv (st'\<lparr>pending_in := append_channels (pending_in st') q\<rparr>) (acc @ out))"
  using assms
proof (induction st rule: wf_induct_rule
    [OF wf_inv_image [OF wf_lex_prod [OF wf_less_than wf_less_than], of "\<lambda>st. (length (pending_in st ! 0), rank (rs_inner st))"]])
  case (1 st)
  let ?k = "rs_channels st" and ?n = "out_frames_per_channel st" and ?m = "input_frames_next R (rs_inner st)"
    and ?p = "pending_in st"
  have ok: "0 < ?k" "block_ok ?k ?n (out_f32 st)" "block_ok ?k (length (?p ! 0)) ?p"
    using 1(3) by (simp_all add: rs_ok_def)
  show ?case
  proof (cases "length (?p ! 0) < ?m")
    case True
    then show ?thesis
      using 1(3) by (intro exI [of _ "[]"] exI [of _ st]) (subst push_loop.simps, simp)
  next
    case False
    then have le: "?m \<le> length (?p ! 0)"
      by simp
    note halves = block_take [OF ok(3) le]
    obtain b r' where b: "process_into_buffer R (rs_inner st) (map (take ?m) ?p) (out_f32 st) = (Inr b, r')" "block_ok ?k ?n b"
      "?m = 0 \<longrightarrow> rank r' < rank (rs_inner st)"
      using 1(2) halves ok(2) by (fastforce simp: engine_ok_def)
    let ?st = "st\<lparr>pending_in := map (drop ?m) ?p, rs_inner := r', out_f32 := b\<rparr>"
    have drop0: "length (pending_in ?st ! 0) = length (?p ! 0) - ?m"
      using block_nth [OF conjunct2 [OF halves] ok(1)] by simp
    then have ok': "rs_ok ?st"
      using halves b(2) ok(1) by (simp add: rs_ok_def)
    have "(?st, st) \<in> inv_image (less_than <*lex*> less_than) (\<lambda>st. (length (pending_in st ! 0), rank (rs_inner st)))"
      using drop0 b(3) le by (cases "?m = 0") auto
    from 1(1) [OF this] 1(2) ok' obtain out st' where ih: "rs_ok st'" "out_block_size st dvd length out" "rs_channels st' = ?k"
      "out_frames_per_channel st' = ?n" "\<And>acc. push_loop R conv ?st acc = Some (Inr (acc @ out), st')"
      "\<And>acc q. length q = ?k \<Longrightarrow> push_loop R conv (?st\<lparr>pending_in := append_channels (pending_in ?st) q\<rparr>) acc =
         push_loop R conv (st'\<lparr>pending_in := append_channels (pending_in st') q\<rparr>) (acc @ out)"
      by (auto simp: out_block_size_def)
    let ?o = "interleave conv ?k ?n b"
    have plain: "push_loop R conv st acc = Some (Inr (acc @ ?o @ out), st')" for acc
      using False b(1) ih(5) [of "acc @ ?o"] by (subst push_loop.simps) (simp add: Let_def)
    have longer: "push_loop R conv (st\<lparr>pending_in := append_channels ?p q\<rparr>) acc =
        push_loop R conv (st'\<lparr>pending_in := append_channels (pending_in st') q\<rparr>) (acc @ ?o @ out)" if q: "length q = ?k" for acc q
    proof -
      have "append_channels ?p q ! 0 = ?p ! 0 @ q ! 0"
        using q ok(1,3) by (simp add: append_channels_def block_ok_def)
      moreover have "?st\<lparr>pending_in := append_channels (pending_in ?st) q\<rparr> =
          st\<lparr>pending_in := append_channels (map (drop ?m) ?p) q, rs_inner := r', out_f32 := b\<rparr>"
        by (cases st) simp
      note ih(6) [OF q, of "acc @ ?o", unfolded this]
      ultimately show ?thesis
        using False b(1) extend_take [OF ok(3) q le] by (subst push_loop.simps) (simp add: Let_def)
    qed
    have "out_block_size st dvd length (?o @ out)"
      using ih(2) by (simp add: interleave_length out_block_size_def)
    then show ?thesis
      using ih(1,3,4) plain longer by (intro exI [of _ "?o @ out"] exI [of _ st']) simp
  qed
qed

section \<open>Properties\<close>

lemma new_ok:
  assumes "Resampler_new R zero in_rate out_rate channels n = Inr st"
  shows "rs_ok st" "rs_channels st = unat channels" "out_frames_per_channel st = n" "pending_in st = replicate (unat channels) []"
  using assms by (auto simp: Resampler_new_def Let_def rs_ok_def block_ok_def unat_gt_0 split: if_splits sum.splits)

lemma deinterleave_ok:
  assumes "rs_ok st"
  shows "rs_ok (st\<lparr>pending_in := deinterleave conv (rs_channels st) (pending_in st) xs\<rparr>)"
proof -
  let ?k = "rs_channels st"
  have ok: "0 < ?k" "block_ok ?k (length (pending_in st ! 0)) (pending_in st)"
    using assms by (simp_all add: rs_ok_def)
  have len: "length (pending_in st) = ?k"
    using ok(2) by (simp add: block_ok_def)
  have "block_ok ?k (length (pending_in st ! 0) + length (chunks_exact ?k xs)) (deinterleave conv ?k (pending_in st) xs)"
    using deinterleave_extend [OF len, of conv xs] block_extend [OF ok(2)] by simp
  from this block_nth [OF this ok(1)] show ?thesis
    using assms by (simp add: rs_ok_def)
qed

text \<open>C37: the resampler is a stream.  On every state it can be in, with an engine that keeps its promise, a call with whole frames
  ends and returns whole output blocks, and it makes no difference how the input is cut: two calls in a row return, one
  after the other, what a single call with both inputs returns, and leave the same state.\<close>

theorem resampler_streams:
  fixes st :: "('r, 'f) Resampler"
  assumes "engine_ok R (rs_channels st) (out_frames_per_channel st) rank" and "rs_ok st"
    and "length xs mod rs_channels st = 0" and "length ys mod rs_channels st = 0"
  shows "\<exists>a st1 b st2. Resampler_push R to_f32 to_i16 st xs = Some (Inr a, st1) \<and>
    Resampler_push R to_f32 to_i16 st1 ys = Some (Inr b, st2) \<and>
    Resampler_push R to_f32 to_i16 st (xs @ ys) = Some (Inr (a @ b), st2) \<and>
    out_block_size st dvd length a \<and> out_block_size st dvd length b \<and> rs_ok st2"
proof -
  let ?k = "rs_channels st" and ?d = "deinterleave to_f32 (rs_channels st)"
  let ?q = "?d (replicate ?k []) ys"
  let ?st = "st\<lparr>pending_in := ?d (pending_in st) xs\<rparr>"
  have ok: "rs_ok ?st"
    by (rule deinterleave_ok [OF assms(2)])
  obtain a st1 where a: "rs_ok st1" "out_block_size st dvd length a" "rs_channels st1 = ?k"
    "out_frames_per_channel st1 = out_frames_per_channel st" "\<And>acc. push_loop R to_i16 ?st acc = Some (Inr (acc @ a), st1)"
    "\<And>acc q. length q = ?k \<Longrightarrow> push_loop R to_i16 (?st\<lparr>pending_in := append_channels (?d (pending_in st) xs) q\<rparr>) acc =
       push_loop R to_i16 (st1\<lparr>pending_in := append_channels (pending_in st1) q\<rparr>) (acc @ a)"
    using push_loop_runs [of R ?st rank to_i16] assms(1) ok by (auto simp: out_block_size_def)
  have len: "length (?d (pending_in st) xs) = ?k" "length (pending_in st1) = ?k" "length ?q = ?k"
    using ok a(1,3) deinterleave_extend [of "replicate ?k []" ?k to_f32 ys] by (auto simp: rs_ok_def block_ok_def)
  let ?st1 = "st1\<lparr>pending_in := ?d (pending_in st1) ys\<rparr>"
  have ext: "append_channels (?d (pending_in st) xs) ?q = ?d (pending_in st) (xs @ ys)"
    "append_channels (pending_in st1) ?q = ?d (pending_in st1) ys"
    using deinterleave_extend [OF len(1), of to_f32 ys] deinterleave_extend [OF len(2), of to_f32 ys]
      deinterleave_append [OF assms(3), of to_f32 "pending_in st" ys] by simp_all
  have "rs_ok ?st1"
    using deinterleave_ok [OF a(1), of to_f32 ys] a(3) by simp
  then obtain b st2 where b: "rs_ok st2" "out_block_size st dvd length b" "\<And>acc. push_loop R to_i16 ?st1 acc = Some (Inr (acc @ b), st2)"
    using push_loop_runs [of R ?st1 rank to_i16] assms(1) a(3,4) by (auto simp: out_block_size_def)
  have both: "length (xs @ ys) mod ?k = 0"
    using assms(3,4) by (metis add.right_neutral length_append mod_add_right_eq)
  have "push_loop R to_i16 (st\<lparr>pending_in := ?d (pending_in st) (xs @ ys)\<rparr>) [] = Some (Inr (a @ b), st2)"
    using a(6) [OF len(3), of "[]"] b(3) [of a] ext by simp
  then show ?thesis
    using a(2,3,5) b assms(3,4) both by (intro exI [of _ a] exI [of _ st1] exI [of _ b] exI [of _ st2]) (simp add: Resampler_push_def)
qed

section \<open>Examples\<close>

text \<open>An engine that returns blocks of two samples unchanged.\<close>

definition demo_rubato :: "(unit, i16) rubato" where
  "demo_rubato = \<lparr>rubato_new = (\<lambda>_ _ _ _ _. Inr ()), input_frames_next = (\<lambda>_. 2), process_into_buffer = (\<lambda>r inp out. (Inr inp, r))\<rparr>"

definition demo_resampler :: "(unit, i16) Resampler" where
  "demo_resampler = \<lparr>rs_inner = (), rs_in_rate = 48000, rs_out_rate = 48000, rs_channels = 2, out_frames_per_channel = 2,
     out_f32 = [[0, 0], [0, 0]], pending_in = [[], []]\<rparr>"

theorem resampler_streams_witness:
  "\<exists>a st1 b st2. Resampler_push demo_rubato (\<lambda>x. x) (\<lambda>x. x) demo_resampler [1, 2] = Some (Inr a, st1) \<and>
     Resampler_push demo_rubato (\<lambda>x. x) (\<lambda>x. x) st1 [3, 4, 5, 6] = Some (Inr b, st2) \<and>
     Resampler_push demo_rubato (\<lambda>x. x) (\<lambda>x. x) demo_resampler [1, 2, 3, 4, 5, 6] = Some (Inr (a @ b), st2)"
proof -
  have "engine_ok demo_rubato (rs_channels demo_resampler) (out_frames_per_channel demo_resampler) (\<lambda>_. 0)" "rs_ok demo_resampler"
    "length ([1, 2] :: i16 list) mod rs_channels demo_resampler = 0" "length ([3, 4, 5, 6] :: i16 list) mod rs_channels demo_resampler = 0"
    by (simp_all add: engine_ok_def demo_rubato_def demo_resampler_def rs_ok_def block_ok_def)
  from resampler_streams [OF this, of "\<lambda>x. x" "\<lambda>x. x"] show ?thesis
    by auto
qed

end
