(* ===== verification/SessionRuns.thy ===== *)
theory SessionRuns
  imports Handshake
begin

text \<open>
  Whole lives of a transport session: any sequence of its public operations, with whatever the network and the clock answer.
  A predicate that sending and closing keep is kept by all loops of the handshake; this is proved once, in a locale, and
  used for well-formedness and for the state of the session.
\<close>

section \<open>What a handshake keeps\<close>

locale handshake_invariant =
  fixes P :: "'a Session \<Rightarrow> bool"
  assumes send: "P s \<Longrightarrow> P (snd (send_control env s m sid pl p))"
    and close: "P s \<Longrightarrow> P (snd (close_session env s))"
    and identity: "P s \<Longrightarrow> P (s\<lparr>s_session_id := i\<rparr>)" "P s \<Longrightarrow> P (s\<lparr>negotiated_codec := c\<rparr>)" "P s \<Longrightarrow> P (s\<lparr>local_ssrc := l\<rparr>)"
      "P s \<Longrightarrow> P (s\<lparr>s_peer := q\<rparr>)"
    and keys: "P s \<Longrightarrow> P (store_keys e d s)"
begin

lemma confirm: "P s \<Longrightarrow> P (fst (snd (recv_session_confirm s p sid evs)))"
  by (induction s p sid evs rule: recv_session_confirm.induct)
     (auto simp: close split: hs_event.splits recv_event.splits option.splits sum.splits if_splits)

lemma finish: "P s \<Longrightarrow> P (fst (snd (client_finish K rnd env s p sh evs)))"
  by (simp add: client_finish_def Let_def split_beta identity keys send confirm split: sum.split outcome.split)

lemma client: "P s \<Longrightarrow> P (fst (snd (client_loop K rnd s p hp a w evs)))"
proof (induction evs arbitrary: s a w)
  case (Cons e evs)
  obtain env ev where e: "e = (env, ev)"
    by force
  obtain r1 s1 where s1: "(if w then (Inr (), s) else send_control env s HandshakeClientHello 0 hp p) = (r1, s1)"
    by force
  have "P s1"
    using Cons.prems s1 send [of s env HandshakeClientHello 0 hp p] by (cases w) auto
  then show ?case
    using s1 e by (cases r1) (auto simp: close finish Cons.IH split: hs_event.split recv_event.split option.split sum.split)
qed simp

lemma handshake_client: "P s \<Longrightarrow> P (fst (snd (handshake_client K rnd s p evs)))"
  by (simp add: handshake_client_def client split: sum.split)

lemma hello: "P s \<Longrightarrow> P (fst (snd (recv_client_hello s p evs)))"
  by (induction s p evs rule: recv_client_hello.induct)
     (auto simp: close split: hs_event.splits recv_event.splits option.splits sum.splits)

lemma any_hello: "P s \<Longrightarrow> P (fst (snd (recv_any_hello s w evs)))"
proof (induction evs arbitrary: s w)
  case (Cons e evs)
  then show ?case
    by (subst recv_any_hello.simps) (auto simp: close split: hs_event.split recv_event.split option.split sum.split prod.split)
qed (simp add: recv_any_hello.simps)

lemma key_exchange: "P s \<Longrightarrow> P (fst (snd (recv_key_exchange s p sid shp w evs)))"
proof (induction evs arbitrary: s w)
  case (Cons e evs)
  then show ?case
    by (cases e, subst recv_key_exchange.simps)
       (simp add: close send split_beta split: hs_event.split recv_event.split option.split sum.split)
qed (simp add: recv_key_exchange.simps)

lemma confirmed: "P s \<Longrightarrow> P (snd (server_confirm K env s p sid tr ek dk ke))"
  by (simp add: server_confirm_def Let_def split_beta keys send split: sum.split)

lemma accept: "P s \<Longrightarrow> P (fst (snd (server_accept K rnd env s p ch evs)))"
  by (simp add: server_accept_def Let_def split_beta identity send key_exchange confirmed split: sum.split outcome.split)

lemma handshake_server: "P s \<Longrightarrow> P (fst (snd (handshake_server K rnd s p evs)))"
  by (simp add: handshake_server_def split_beta hello accept split: sum.split outcome.split)

lemma handshake_server_any: "P s \<Longrightarrow> P (fst (snd (handshake_server_any K rnd s evs)))"
  by (simp add: handshake_server_any_def split_beta identity any_hello accept split: sum.split outcome.split)

end

text \<open>A predicate that does not look at the state is kept by the entry points.\<close>

locale session_property = handshake_invariant P for P :: "'a Session \<Rightarrow> bool" +
  assumes state: "P s \<Longrightarrow> P (s\<lparr>s_state := x\<rparr>)"
begin

lemma advance: "P s \<Longrightarrow> P (snd (advance ev msg s))"
  by (simp add: advance_def split_beta state split: sum.split)

lemma transition: "P s \<Longrightarrow> P (transition_state ev s)"
  by (simp add: transition_state_def state)

lemma handshake: "P s \<Longrightarrow> P (fst (snd (handshake K role s p evs)))"
  by (simp add: handshake_def Let_def split_beta identity advance transition handshake_client handshake_server
      split: sum.split outcome.split role_random.split)

lemma open_loop: "P s \<Longrightarrow> P (fst (snd (handshake_open_loop K rnds s evs)))"
proof (induction rnds arbitrary: s evs)
  case (Cons rnd rnds)
  obtain r s1 evs1 where any: "handshake_server_any K rnd s evs = (r, s1, evs1)"
    using prod_cases3 by blast
  have "P s1"
    using handshake_server_any [OF Cons.prems, of K rnd evs] any by simp
  then show ?case
    using any Cons.IH Cons.prems
    by (auto simp: Let_def split_beta identity advance transition split: sum.split outcome.split TransportError.split)
qed simp

lemma handshake_open: "P s \<Longrightarrow> P (fst (snd (handshake_open K rnds s evs)))"
  by (simp add: handshake_open_def split_beta advance open_loop split: sum.split)

end

section \<open>Well-formed sessions\<close>

text \<open>The parity encoder and decoder: the counter stays below the window, and an active group has a slot for each of its frames.\<close>

definition fec_wf :: "FecEncoder \<Rightarrow> FecDecoder \<Rightarrow> bool" where
  "fec_wf e d \<longleftrightarrow> enc_window e = FEC_WINDOW \<and> enc_count e < FEC_WINDOW \<and> dec_window d = FEC_WINDOW \<and>
     (dec_active d \<longrightarrow> length (dec_received d) = unat FEC_WINDOW)"

definition session_wf :: "'a Session \<Rightarrow> bool" where
  "session_wf s \<longleftrightarrow> jb_inv (s_jitter s) \<and> cc_inv (s_congestion s) \<and> fec_wf (fec_enc s) (fec_dec s)"

lemma session_wfI:
  "session_wf s \<Longrightarrow> s_jitter s' = s_jitter s \<Longrightarrow> s_congestion s' = s_congestion s \<Longrightarrow> fec_enc s' = fec_enc s \<Longrightarrow> fec_dec s' = fec_dec s \<Longrightarrow>
   session_wf s'"
  by (simp add: session_wf_def)

lemma sends_wf: "session_wf s \<Longrightarrow> sends s s' \<Longrightarrow> session_wf s'"
  by (rule session_wfI) (simp_all add: sendsD)

lemma close_wf: "session_wf s \<Longrightarrow> session_wf (snd (close_session env s))"
  by (auto simp: close_session_def Let_def transition_state_def session_wf_def sendsD [OF send_control_sends] split: option.split)

interpretation wf: session_property session_wf
  by unfold_locales
     (auto intro: sends_wf send_control_sends close_wf session_wfI simp: store_keys_def)

lemma new_wf: "Session_new config = Some s \<Longrightarrow> session_wf s"
  using new_inv
  by (auto simp: Session_new_def Let_def session_wf_def fec_wf_def cc_inv_def FecEncoder_new_def FecDecoder_new_def FEC_WINDOW_def
      CongestionController_new_def CONGESTION_MIN_BITRATE_def dest: u32_clamp_bounds split: option.splits)

lemma push_wf: "jb_inv b \<Longrightarrow> jb_inv (fst (JitterBuffer_push b f))"
  using jitter_push_window [of b f] jb_push_first(1,2) [of b f] jitter_push_window [of "b\<lparr>next_seq := fr_sequence f, primed := True\<rparr>" f]
  by (cases "primed b") simp_all

lemma deadline_wf: "jb_inv b \<Longrightarrow> jb_inv (fst (pop_with_deadline b now deadline))"
proof (cases "primed b")
  case True
  assume "jb_inv b"
  with True show ?thesis
    using deadline_pop [of b now deadline] by (cases "pop_with_deadline b now deadline") simp
next
  case False
  assume "jb_inv b"
  with False show ?thesis
    by (simp add: pop_with_deadline_def JitterBuffer_pop_def JitterBuffer_skip_def)
qed

lemma fec_push_fields:
  "enc_window (fst (FecEncoder_push e seq pl)) = enc_window e"
  "enc_count (fst (FecEncoder_push e seq pl)) = (if enc_window e \<le> enc_count e + 1 then 0 else enc_count e + 1)"
  by (simp_all add: FecEncoder_push_def Let_def)

lemma fec_push_wf: "fec_wf e d \<Longrightarrow> fec_wf (fst (FecEncoder_push e seq pl)) d"
  by (auto simp: fec_wf_def fec_push_fields FEC_WINDOW_def not_le)

lemma fec_receive_wf:
  "fec_wf e d \<Longrightarrow> fec_wf e (fst (FecDecoder_push_data d seq pl))" "fec_wf e d \<Longrightarrow> fec_wf e (fst (FecDecoder_push_parity d p))"
  by (simp_all add: fec_wf_def FecDecoder_push_data_def FecDecoder_push_parity_def start_group_def Let_def)

lemma wf_encoder: "session_wf s \<Longrightarrow> session_wf (s\<lparr>fec_enc := fst (FecEncoder_push (fec_enc s) seq pl)\<rparr>)"
  by (simp add: session_wf_def fec_push_wf)

lemma wf_fields [simp]:
  "session_wf (s\<lparr>tx_sequence := x\<rparr>) = session_wf s" "session_wf (s\<lparr>audio_tx_seq := y\<rparr>) = session_wf s"
  "session_wf (s\<lparr>ptt_active := a\<rparr>) = session_wf s" "session_wf (s\<lparr>peer_ptt_active := b\<rparr>) = session_wf s"
  "session_wf (s\<lparr>last_rx := t\<rparr>) = session_wf s" "session_wf (count_received n s) = session_wf s"
  "session_wf (count_integrity_error s) = session_wf s" "session_wf (transition_state ev s) = session_wf s"
  by (simp_all add: session_wf_def count_received_def count_integrity_error_def transition_state_def)

lemmas wf_sends = sends_wf [OF _ send_packet_sends] sends_wf [OF _ send_fec_parity_sends] sends_wf [OF _ send_control_sends]

lemma send_audio_wf: "session_wf s \<Longrightarrow> session_wf (snd (send_audio A env s pl))"
  by (simp add: send_audio_def Let_def split_beta wf_encoder wf_sends split: option.split sum.split)

lemma ptt_wf: "session_wf s \<Longrightarrow> session_wf (snd (ptt_press env s))" "session_wf s \<Longrightarrow> session_wf (snd (ptt_release env s))"
  by (simp_all add: ptt_press_def ptt_release_def Let_def split_beta wf_sends split: option.split sum.split)

lemma heartbeat_wf: "session_wf s \<Longrightarrow> session_wf (snd (send_heartbeat env s))"
  by (simp add: send_heartbeat_def wf_sends split: option.split)

lemma receive_wf:
  assumes "session_wf s" and "accept_audio oc env s ts n pl = Some s'"
  shows "session_wf s'"
  using assms
  by (auto simp: accept_audio_def session_wf_def push_wf fec_receive_wf split: option.splits)

lemma dispatch_fec_wf: "session_wf s \<Longrightarrow> session_wf (dispatch_fec A s view raw)"
proof -
  assume wf: "session_wf s"
  have "session_wf (s\<lparr>fec_dec := fst (FecDecoder_push_parity (fec_dec s) p)\<rparr>)"
    "session_wf (s\<lparr>fec_dec := fst (FecDecoder_push_parity (fec_dec s) p), s_jitter := fst (JitterBuffer_push (s_jitter s) f)\<rparr>)" for p f
    using wf by (simp_all add: session_wf_def fec_receive_wf push_wf)
  then show ?thesis
    using wf by (simp add: dispatch_fec_def Let_def split_beta split: option.split sum.split)
qed

lemma bitrate_wf:
  assumes "session_wf s"
  shows "\<exists>cc. set_bitrate (s_congestion s) b = Some cc \<and> session_wf (s\<lparr>s_congestion := cc\<rparr>)"
    "\<exists>cc. CongestionController_update (s_congestion s) l r j = Some cc \<and> session_wf (s\<lparr>s_congestion := cc\<rparr>)"
  using assms cc_apply_inv [of "s_congestion s" "CcSet b"] cc_apply_inv [of "s_congestion s" "CcUpdate l r j"]
  by (auto simp: session_wf_def)

text \<open>A release build never panics on what it receives; a build with overflow checks may, in the estimators.\<close>

lemma release_ops: "i64_sub False a b \<noteq> None" "u64_shl False x n \<noteq> None" "i32_neg False y \<noteq> None"
  by (simp_all add: i64_sub_def u64_shl_def i32_neg_def)

lemma estimators_release: "JitterEstimator_record False e t u \<noteq> None" "LossTracker_record False l n \<noteq> None"
proof -
  show "JitterEstimator_record False e t u \<noteq> None"
    using release_ops(1) unfolding JitterEstimator_record_def Let_def by (auto split: option.split simp del: not_None_eq)
  show "LossTracker_record False l n \<noteq> None"
    using release_ops(2,3) unfolding LossTracker_record_def Let_def by (auto split: option.split simp del: not_None_eq)
qed

lemma accept_release: "accept_audio False env s ts n pl \<noteq> None"
  using estimators_release by (auto simp: accept_audio_def split: option.split simp del: not_None_eq)

definition sound :: "bool \<Rightarrow> ('r \<times> 'a Session) option \<Rightarrow> bool" where
  "sound oc x \<longleftrightarrow> (case x of None \<Rightarrow> oc | Some (r, s) \<Rightarrow> session_wf s)"

lemma sound_simps [simp]: "sound oc None = oc" "sound oc (Some y) = session_wf (snd y)"
  by (simp_all add: sound_def split_beta)

lemma audio_sound:
  "session_wf s \<Longrightarrow> sound oc (case dispatch_audio A oc env s view raw of None \<Rightarrow> None | Some s \<Rightarrow> Some (r, s))"
  using accept_release receive_wf [of s oc env] by (cases oc) (auto simp: dispatch_audio_def split: option.split)

lemma bitrate_sound:
  assumes "session_wf s"
  shows "sound oc (case set_bitrate (s_congestion s) b of None \<Rightarrow> None | Some cc \<Rightarrow> Some (r, s\<lparr>s_congestion := cc\<rparr>))"
    "sound oc (case CongestionController_update (s_congestion s) l d j of None \<Rightarrow> None | Some cc \<Rightarrow> Some (r, s\<lparr>s_congestion := cc\<rparr>))"
  using bitrate_wf(1) [OF assms, of b] bitrate_wf(2) [OF assms, of l d j] by auto

lemma dispatch_sound: "session_wf s \<Longrightarrow> sound oc (dispatch_packet A oc env s view raw)"
  by (simp add: dispatch_packet_def audio_sound bitrate_sound(1) dispatch_fec_wf wf_sends
      split: sum.split MessageType.split option.split)

lemma datagram_sound: "session_wf s \<Longrightarrow> sound oc (handle_datagram A oc env s d)"
  by (simp add: handle_datagram_def Let_def dispatch_sound split: sum.split)

lemma liveness_sound: "session_wf s \<Longrightarrow> sound oc (check_liveness env s)"
  by (simp add: check_liveness_def Let_def bitrate_sound(2))

lemma poll_sound: "session_wf s \<Longrightarrow> sound oc (poll_once A oc env s ev)"
  using heartbeat_wf [of s env] by (auto simp: poll_once_def datagram_sound liveness_sound split: recv_event.split sum.split prod.split)

lemma recv_loop_sound: "session_wf s \<Longrightarrow> sound oc (recv_audio_loop A oc skip deadline s envs evs)"
proof (induction envs arbitrary: s deadline evs)
  case (Cons env envs)
  obtain jb fo where pop: "pop_with_deadline (s_jitter s) (env_now env) deadline = (jb, fo)"
    by force
  let ?s = "s\<lparr>s_jitter := jb\<rparr>"
  have wf: "session_wf ?s"
    using deadline_wf [of "s_jitter s" "env_now env" deadline] pop Cons.prems by (simp add: session_wf_def)
  show ?case
  proof (cases evs)
    case (Cons ev rest)
    have "sound oc (case handle_datagram A oc env ?s d of
        None \<Rightarrow> None
      | Some (Inl e, s) \<Rightarrow> Some (Some (Inl e), s)
      | Some (Inr _, s) \<Rightarrow> recv_audio_loop A oc skip deadline s envs rest)" for d
      using datagram_sound [OF wf, of oc A env d] Cons.IH
      by (cases "handle_datagram A oc env ?s d") (auto split: sum.split)
    then show ?thesis
      using pop wf Cons Cons.IH [OF wf] by (simp add: Let_def split: option.split recv_event.split)
  qed (use pop wf Cons.IH [OF wf] in \<open>simp add: Let_def split: option.split\<close>)
qed simp

section \<open>Runs\<close>

text \<open>The operations of a session with the environment they see.\<close>

datatype 'a session_op =
    SendAudioOp "'a Env" bytes
  | PttPressOp "'a Env"
  | PttReleaseOp "'a Env"
  | HeartbeatOp "'a Env"
  | LivenessOp "'a Env"
  | PollOp "'a Env" "'a recv_event"
  | RecvAudioOp u64 "'a Env list" "'a recv_event list"
  | CloseOp "'a Env"
  | HandshakeOp kx role_random 'a "'a hs_events"
  | HandshakeOpenOp kx "ServerRandom list" "'a hs_events"

definition session_step :: "aead \<Rightarrow> bool \<Rightarrow> 'a Session \<Rightarrow> 'a session_op \<Rightarrow> 'a Session option" where
  "session_step A oc s op =
     (case op of
        SendAudioOp env pl \<Rightarrow> Some (snd (send_audio A env s pl))
      | PttPressOp env \<Rightarrow> Some (snd (ptt_press env s))
      | PttReleaseOp env \<Rightarrow> Some (snd (ptt_release env s))
      | HeartbeatOp env \<Rightarrow> Some (snd (send_heartbeat env s))
      | LivenessOp env \<Rightarrow> map_option snd (check_liveness env s)
      | PollOp env ev \<Rightarrow> map_option snd (poll_once A oc env s ev)
      | RecvAudioOp now envs evs \<Rightarrow> map_option snd (recv_audio A oc now s envs evs)
      | CloseOp env \<Rightarrow> Some (snd (close_session env s))
      | HandshakeOp K role peer evs \<Rightarrow> Some (fst (snd (handshake K role s peer evs)))
      | HandshakeOpenOp K rnds evs \<Rightarrow> Some (fst (snd (handshake_open K rnds s evs))))"

primrec run_session :: "aead \<Rightarrow> bool \<Rightarrow> 'a Session \<Rightarrow> 'a session_op list \<Rightarrow> 'a Session option" where
  "run_session A oc s [] = Some s"
| "run_session A oc s (op # ops) = (case session_step A oc s op of None \<Rightarrow> None | Some s \<Rightarrow> run_session A oc s ops)"

lemma sound_state: "sound oc x \<Longrightarrow> case map_option snd x of None \<Rightarrow> oc | Some s \<Rightarrow> session_wf s"
  by (simp add: sound_def split: option.splits prod.splits)

lemma step_wf: "session_wf s \<Longrightarrow> case session_step A oc s op of None \<Rightarrow> oc | Some s' \<Rightarrow> session_wf s'"
  using sound_state [OF poll_sound] sound_state [OF recv_loop_sound] sound_state [OF liveness_sound]
  by (cases op)
     (simp_all add: session_step_def recv_audio_def Let_def send_audio_wf ptt_wf heartbeat_wf close_wf wf.handshake wf.handshake_open)

section \<open>Properties\<close>


text \<open>The state during a handshake is kept by everything that a handshake does, except that a concurrent close ends it.\<close>

definition settling :: "'a Session \<Rightarrow> bool" where
  "settling s \<longleftrightarrow> sm_state (s_state s) = S_Handshaking \<or> sm_state (s_state s) = S_Closed"

lemma settling_close: "settling s \<Longrightarrow> settling (snd (close_session env s))"
  by (auto simp: settling_def close_session_def Let_def transition_state_def SessionStateMachine_transition_def transition_next_def
      sendsD(1) [OF send_control_sends] split: option.split)

interpretation settling: handshake_invariant settling
  by unfold_locales
     (simp_all add: settling_close, simp_all add: settling_def store_keys_def sendsD(1) [OF send_control_sends])

lemma handshake_refused:
  "sm_state (s_state s) = S_Closed \<Longrightarrow>
   \<exists>s'. handshake K role s p evs = (Done (Inl (InvalidState ''cannot start handshake'')), s', evs) \<and> sm_state (s_state s') = S_Closed"
  by (simp add: handshake_def advance_def SessionStateMachine_transition_def transition_next_def Let_def split: role_random.split)

lemma failed_handshake_closed:
  assumes "sm_state (s_state s) = S_Idle" and "handshake K role s p evs = (Done (Inl e), s', evs')"
  shows "sm_state (s_state s') = S_Closed"
proof -
  let ?s = "s\<lparr>s_peer := Some p, s_state := \<lparr>sm_state = S_Handshaking\<rparr>\<rparr>"
  define res where "res = (case role of ClientSide rnd \<Rightarrow> handshake_client K rnd ?s p evs | ServerSide rnd \<Rightarrow> handshake_server K rnd ?s p evs)"
  obtain r s1 evs1 where res': "res = (r, s1, evs1)"
    using prod_cases3 by blast
  have start: "advance (case role of ClientSide _ \<Rightarrow> StartConnect | ServerSide _ \<Rightarrow> StartAccept) m (s\<lparr>s_peer := Some p\<rparr>) = (Inr (), ?s)" for m
    using assms(1) by (cases role) (simp_all add: advance_def SessionStateMachine_transition_def transition_next_def)
  have start_ok: "settling ?s"
    by (simp add: settling_def)
  have "settling (fst (snd res))"
    unfolding res_def using settling.handshake_client [OF start_ok] settling.handshake_server [OF start_ok]
    by (simp split: role_random.split)
  then have "settling s1"
    by (simp add: res')
  moreover have "handshake K role s p evs = (case res of
       (Done (Inr _), s, evs) \<Rightarrow> (case advance HandshakeOk ''handshake_ok'' s of (r, s) \<Rightarrow> (Done r, s, evs))
     | (Done (Inl e), s, evs) \<Rightarrow> (Done (Inl e), transition_state HandshakeTimeout s, evs)
     | (DeadlineHit, s, evs) \<Rightarrow> (Done (Inl Timeout), transition_state HandshakeTimeout s, evs)
     | (Pending, s, evs) \<Rightarrow> (Pending, s, evs))"
    unfolding handshake_def Let_def start prod.case sum.case res_def by (rule refl)
  ultimately show ?thesis
    using assms(2) res'
    by (auto simp: settling_def advance_def transition_state_def SessionStateMachine_transition_def transition_next_def
        split: outcome.splits sum.splits)
qed

text \<open>C30: a failed handshake is final.  However the first handshake of a session fails - timeout, refused authentication, socket error,
  a concurrent close -, the session is closed, and every later handshake on it, in either role, is refused at once: the
  interfaces for C, Java and Python have no way to try again with the same session.\<close>

theorem failed_handshake_final:
  assumes "sm_state (s_state s) = S_Idle" and "handshake K role s p evs = (Done (Inl e), s', evs')"
  shows "sm_state (s_state s') = S_Closed \<and>
    (\<exists>s''. handshake K2 role2 s' p2 evs2 = (Done (Inl (InvalidState ''cannot start handshake'')), s'', evs2) \<and>
       sm_state (s_state s'') = S_Closed)"
  using failed_handshake_closed [OF assms] handshake_refused [of s' K2 role2 p2 evs2] by simp

section \<open>Examples\<close>


theorem failed_handshake_final_witness:
  "\<exists>s' s''. handshake demo_kx (ServerSide demo_sr) idle_session 10 [(demo_env 1, HsDeadline)] = (Done (Inl Timeout), s', []) \<and>
     handshake demo_kx (ClientSide demo_cr) s' 10 [] = (Done (Inl (InvalidState ''cannot start handshake'')), s'', [])"
proof -
  obtain s' where s': "handshake demo_kx (ServerSide demo_sr) idle_session 10 [(demo_env 1, HsDeadline)] = (Done (Inl Timeout), s', [])"
    using demo_handshake(3)
    by (simp add: handshake_def handshake_server_def advance_def SessionStateMachine_transition_def transition_next_def)
  from failed_handshake_final [OF demo_handshake(3) this, of demo_kx "ClientSide demo_cr" 10 "[]"] s' show ?thesis
    by blast
qed

end
