(* ===== verification/Tones.thy ===== *)
theory Tones
  imports CodecSession
begin

text \<open>
  \<open>gravital-talk-transport/src/tone.rs\<close>: the tones of the push-to-talk key as PCM.  The sine is an argument: \<open>wave f rate i\<close> is
  the \<open>i\<close>-th sample of a tone of \<open>f\<close> Hz.
\<close>

definition PTT_PRESS_FREQ_HZ :: nat where
  "PTT_PRESS_FREQ_HZ = 880"

definition PTT_RELEASE_FREQ_HZ :: nat where
  "PTT_RELEASE_FREQ_HZ = 440"

definition PTT_PRESS_DURATION_MS :: u32 where
  "PTT_PRESS_DURATION_MS = 100"

definition PTT_RELEASE_DURATION_MS :: u32 where
  "PTT_RELEASE_DURATION_MS = 80"

text \<open>The product of rate and duration fits 64 bits.\<close>

definition generate_pcm_tone :: "(nat \<Rightarrow> u32 \<Rightarrow> nat \<Rightarrow> i16) \<Rightarrow> nat \<Rightarrow> u32 \<Rightarrow> u32 \<Rightarrow> i16 list" where
  "generate_pcm_tone wave freq_hz duration_ms rate =
     (let n_samples = unat (ucast rate * ucast duration_ms div 1000 :: u64)
      in map (wave freq_hz rate) [0..<n_samples])"

definition pcm_to_bytes :: "i16 list \<Rightarrow> bytes" where
  "pcm_to_bytes samples = foldl (\<lambda>out s. out @ to_le_bytes s) [] samples"

definition ptt_press_tone :: "(nat \<Rightarrow> u32 \<Rightarrow> nat \<Rightarrow> i16) \<Rightarrow> u32 \<Rightarrow> bytes" where
  "ptt_press_tone wave rate = pcm_to_bytes (generate_pcm_tone wave PTT_PRESS_FREQ_HZ PTT_PRESS_DURATION_MS rate)"

definition ptt_release_tone :: "(nat \<Rightarrow> u32 \<Rightarrow> nat \<Rightarrow> i16) \<Rightarrow> u32 \<Rightarrow> bytes" where
  "ptt_release_tone wave rate = pcm_to_bytes (generate_pcm_tone wave PTT_RELEASE_FREQ_HZ PTT_RELEASE_DURATION_MS rate)"

lemma pcm_to_bytes_wire: "pcm_to_bytes samples = pcm_wire samples"
proof -
  have "foldl (\<lambda>out s. out @ to_le_bytes s) acc samples = acc @ concat (map to_le_bytes samples)" for acc
    by (induction samples arbitrary: acc) simp_all
  then show ?thesis
    by (simp add: pcm_to_bytes_def)
qed

lemma tone_length: "length (generate_pcm_tone wave f ms rate) = unat rate * unat ms div 1000"
proof -
  have lt: "unat rate < 2 ^ 32" "unat ms < 2 ^ 32"
    using unsigned_less [of rate, where 'a = nat] unsigned_less [of ms, where 'a = nat] by simp_all
  then have "unat rate * unat ms < 2 ^ 32 * 2 ^ 32"
    by (intro mult_strict_mono') simp_all
  moreover have "unat (ucast rate :: u64) = unat rate" "unat (ucast ms :: u64) = unat ms"
    using lt by (simp_all add: unsigned_ucast_eq take_bit_nat_eq_self)
  ultimately have "unat (ucast rate * ucast ms :: u64) = unat rate * unat ms"
    by (simp add: unat_word_ariths)
  then show ?thesis
    by (simp add: generate_pcm_tone_def unat_div_distrib)
qed

lemma tone_bytes:
  "length (ptt_press_tone wave rate) = 2 * (unat rate * 100 div 1000)"
  "length (ptt_release_tone wave rate) = 2 * (unat rate * 80 div 1000)"
  by (simp_all add: ptt_press_tone_def ptt_release_tone_def pcm_to_bytes_wire tone_length length_concat comp_def sum_list_triv
      PTT_PRESS_DURATION_MS_def PTT_RELEASE_DURATION_MS_def)

text \<open>The tones cannot be sent.  The module says that its tones can be passed to \<open>send_audio\<close> directly; at every sample rate from
  8 kHz on, on every session with keys and whatever the network, \<open>send_audio\<close> refuses both.\<close>

lemma tones_cannot_be_sent:
  assumes "aead_ok A" and "encrypt_key s = Some k" and "8000 \<le> rate"
    and "tone = ptt_press_tone wave rate \<or> tone = ptt_release_tone wave rate"
  shows "fst (send_audio A env s tone) \<noteq> Inr ()"
proof
  assume "fst (send_audio A env s tone) = Inr ()"
  then obtain s' where "send_audio A env s tone = (Inr (), s')"
    by (cases "send_audio A env s tone") simp
  then have "length tone \<le> 1156"
    using send_audio_needs_room [OF assms(1) _ assms(2)] by blast
  moreover have "8000 \<le> unat rate"
    using assms(3) by (simp add: word_le_nat_alt)
  ultimately show False
    using assms(4) tone_bytes [of wave rate] by auto
qed

lemma tones_cannot_be_sent_witness:
  "\<forall>jb. fst (send_audio null_aead (demo_env 1) (demo_session jb demo_cc) (ptt_press_tone (\<lambda>_ _ _. 0) 48000)) \<noteq> Inr ()"
proof
  fix jb
  have "encrypt_key (demo_session jb demo_cc) = Some [1]" "(8000 :: u32) \<le> 48000"
    by (simp_all add: demo_session_def)
  from tones_cannot_be_sent [OF null_aead_ok this disjI1 [OF refl]]
  show "fst (send_audio null_aead (demo_env 1) (demo_session jb demo_cc) (ptt_press_tone (\<lambda>_ _ _. 0) 48000)) \<noteq> Inr ()" .
qed

end
