(* ===== verification/Udp.thy ===== *)
theory Udp
  imports Session
begin

text \<open>
  \<open>gravital-talk-transport/src/udp.rs\<close> and \<open>traits.rs\<close>: how the UDP socket of a session is set up, on Unix.  The operating system
  is an argument: \<open>os tr c\<close> is the error of the call \<open>c\<close>, if any, when the calls \<open>tr\<close> were made before it.  A step of the
  set-up returns its result and the calls made so far.  Addresses are an argument type; \<open>is_v4\<close> tells those of IP version 4.
\<close>

section \<open>Configuration\<close>

datatype LatencyClass = RealTime | Interactive | Bulk

datatype Domain = IPV4 | IPV6

definition DEFAULT_SOCKET_BUFFER :: nat where
  "DEFAULT_SOCKET_BUFFER = 4 * 1024 * 1024"

definition DSCP_EF :: u32 where
  "DSCP_EF = 0xB8"

record 'a UdpConfig =
  udp_bind_addr :: 'a
  udp_peer :: "'a option"
  udp_socket_buffer_bytes :: nat
  udp_latency_class :: LatencyClass
  udp_reuse_port :: bool
  udp_ttl :: "u32 option"

text \<open>\<open>any\<close> is the address \<open>0.0.0.0:0\<close>.\<close>

definition UdpConfig_default :: "'a \<Rightarrow> 'a UdpConfig" where
  "UdpConfig_default any =
     \<lparr>udp_bind_addr = any, udp_peer = None, udp_socket_buffer_bytes = DEFAULT_SOCKET_BUFFER,
      udp_latency_class = RealTime, udp_reuse_port = True, udp_ttl = None\<rparr>"

section \<open>Calls of the socket\<close>

datatype 'a sock_call =
    NewSocket Domain
  | SetNonblocking bool
  | SetReuseAddress bool
  | SetReusePort bool
  | SetSendBufferSize nat
  | SetRecvBufferSize nat
  | SetTtl u32
  | SetTos u32
  | BindSocket 'a
  | FromStd
  | ConnectSocket 'a

type_synonym 'a os = "'a sock_call list \<Rightarrow> 'a sock_call \<Rightarrow> string option"

type_synonym ('a, 'b) sock_step = "'a sock_call list \<Rightarrow> (TransportError + 'b) \<times> 'a sock_call list"

definition sys :: "'a os \<Rightarrow> 'a sock_call \<Rightarrow> ('a, unit) sock_step" where
  "sys os c tr = (case os tr c of None \<Rightarrow> (Inr (), tr @ [c]) | Some e \<Rightarrow> (Inl (Io e), tr @ [c]))"

text \<open>A call whose error is dropped.\<close>

definition sys_ignored :: "'a os \<Rightarrow> 'a sock_call \<Rightarrow> ('a, unit) sock_step" where
  "sys_ignored os c tr = (Inr (), tr @ [c])"

definition skip_step :: "('a, unit) sock_step" where
  "skip_step tr = (Inr (), tr)"

text \<open>The operator \<open>?\<close>: go on unless there was an error.\<close>

definition try_then :: "('a, unit) sock_step \<Rightarrow> ('a, 'b) sock_step \<Rightarrow> ('a, 'b) sock_step" where
  "try_then m n tr = (case m tr of (Inl e, tr) \<Rightarrow> (Inl e, tr) | (Inr _, tr) \<Rightarrow> n tr)"

record 'a UdpTransport =
  default_peer :: "'a option"

definition UdpTransport_bind :: "('a \<Rightarrow> bool) \<Rightarrow> 'a os \<Rightarrow> 'a UdpConfig \<Rightarrow> ('a, 'a UdpTransport) sock_step" where
  "UdpTransport_bind is_v4 os config =
     (let domain = (if is_v4 (udp_bind_addr config) then IPV4 else IPV6) in
      try_then (sys os (NewSocket domain)) (
      try_then (sys os (SetNonblocking True)) (
      try_then (sys os (SetReuseAddress True)) (
      try_then (if udp_reuse_port config then sys os (SetReusePort True) else skip_step) (
      try_then (sys os (SetSendBufferSize (udp_socket_buffer_bytes config))) (
      try_then (sys os (SetRecvBufferSize (udp_socket_buffer_bytes config))) (
      try_then (case udp_ttl config of Some ttl \<Rightarrow> sys os (SetTtl ttl) | None \<Rightarrow> skip_step) (
      try_then (if udp_latency_class config = RealTime then sys_ignored os (SetTos DSCP_EF) else skip_step) (
      try_then (sys os (BindSocket (udp_bind_addr config))) (
      try_then (sys os FromStd) (
      try_then (case udp_peer config of Some peer \<Rightarrow> sys os (ConnectSocket peer) | None \<Rightarrow> skip_step) (
      \<lambda>tr. (Inr \<lparr>default_peer = udp_peer config\<rparr>, tr)))))))))))))"

text \<open>The transport itself; the answers of \<open>send\<close> and \<open>send_to\<close> of the socket are arguments.\<close>

definition UdpTransport_send ::
  "(bytes \<Rightarrow> string + nat) \<Rightarrow> (bytes \<Rightarrow> 'a \<Rightarrow> string + nat) \<Rightarrow> 'a UdpTransport \<Rightarrow> bytes \<Rightarrow> TransportError + nat" where
  "UdpTransport_send sock_send sock_send_to t bytes =
     (case (case default_peer t of Some peer \<Rightarrow> sock_send_to bytes peer | None \<Rightarrow> sock_send bytes) of
        Inl e \<Rightarrow> Inl (Io e)
      | Inr n \<Rightarrow> Inr n)"

definition UdpTransport_close :: "'a UdpTransport \<Rightarrow> (TransportError + unit) \<times> 'a UdpTransport" where
  "UdpTransport_close t = (Inr (), t)"

section \<open>What binding does\<close>

text \<open>The calls of the set-up in their order.\<close>

definition bind_plan :: "('a \<Rightarrow> bool) \<Rightarrow> 'a UdpConfig \<Rightarrow> 'a sock_call list" where
  "bind_plan is_v4 config =
     [NewSocket (if is_v4 (udp_bind_addr config) then IPV4 else IPV6), SetNonblocking True, SetReuseAddress True] @
     (if udp_reuse_port config then [SetReusePort True] else []) @
     [SetSendBufferSize (udp_socket_buffer_bytes config), SetRecvBufferSize (udp_socket_buffer_bytes config)] @
     map SetTtl (case udp_ttl config of Some ttl \<Rightarrow> [ttl] | None \<Rightarrow> []) @
     (if udp_latency_class config = RealTime then [SetTos DSCP_EF] else []) @
     [BindSocket (udp_bind_addr config), FromStd] @
     map ConnectSocket (case udp_peer config of Some p \<Rightarrow> [p] | None \<Rightarrow> [])"

definition fatal :: "'a sock_call \<Rightarrow> bool" where
  "fatal c \<longleftrightarrow> (case c of SetTos _ \<Rightarrow> False | _ \<Rightarrow> True)"

text \<open>Running calls one after the other up to the first fatal error.\<close>

primrec run_calls :: "'a os \<Rightarrow> 'a sock_call list \<Rightarrow> 'b \<Rightarrow> ('a, 'b) sock_step" where
  "run_calls os [] x = (\<lambda>tr. (Inr x, tr))"
| "run_calls os (c # cs) x = (\<lambda>tr.
     (case os tr c of
        Some e \<Rightarrow> if fatal c then (Inl (Io e), tr @ [c]) else run_calls os cs x (tr @ [c])
      | None \<Rightarrow> run_calls os cs x (tr @ [c])))"

lemma run_step:
  "fatal c \<Longrightarrow> try_then (sys os c) (run_calls os cs x) = run_calls os (c # cs) x"
  "\<not> fatal c \<Longrightarrow> try_then (sys_ignored os c) (run_calls os cs x) = run_calls os (c # cs) x"
  "try_then skip_step n = n"
  by (auto simp: fun_eq_iff try_then_def sys_def sys_ignored_def skip_step_def split: option.splits)

lemma fatal_simps [simp]:
  "fatal (NewSocket d)" "fatal (SetNonblocking b)" "fatal (SetReuseAddress b)" "fatal (SetReusePort b)" "fatal (SetSendBufferSize n)"
  "fatal (SetRecvBufferSize n)" "fatal (SetTtl t)" "\<not> fatal (SetTos u)" "fatal (BindSocket a)" "fatal FromStd" "fatal (ConnectSocket a)"
  by (simp_all add: fatal_def)

lemma bind_runs_plan: "UdpTransport_bind is_v4 os config = run_calls os (bind_plan is_v4 config) \<lparr>default_peer = udp_peer config\<rparr>"
proof -
  let ?nil = "run_calls os [] \<lparr>default_peer = udp_peer config\<rparr>"
  have e: "(\<lambda>tr. (Inr \<lparr>default_peer = udp_peer config\<rparr>, tr)) = ?nil"
    by simp
  show ?thesis
    unfolding UdpTransport_bind_def Let_def e
    by (cases "udp_reuse_port config"; cases "udp_latency_class config = RealTime"; cases "udp_ttl config"; cases "udp_peer config")
       (simp_all only: run_step fatal_simps bind_plan_def if_True if_False option.case append.simps list.map simp_thms)
qed

lemma run_calls_spec:
  assumes "run_calls os cs x tr = (r, made)"
  shows "case r of
      Inr y \<Rightarrow> y = x \<and> made = tr @ cs \<and> (\<forall>i < length cs. fatal (cs ! i) \<longrightarrow> os (tr @ take i cs) (cs ! i) = None)
    | Inl e \<Rightarrow> \<exists>i < length cs. made = tr @ take (Suc i) cs \<and> fatal (cs ! i) \<and>
        (\<exists>msg. os (tr @ take i cs) (cs ! i) = Some msg \<and> e = Io msg) \<and>
        (\<forall>j < i. fatal (cs ! j) \<longrightarrow> os (tr @ take j cs) (cs ! j) = None)"
  using assms
proof (induction cs arbitrary: tr)
  case (Cons c cs)
  show ?case
  proof (cases "fatal c \<and> os tr c \<noteq> None")
    case True
    then show ?thesis
      using Cons.prems by (auto intro!: exI [of _ "0 :: nat"])
  next
    case False
    then have "run_calls os cs x (tr @ [c]) = (r, made)"
      using Cons.prems by (auto split: option.splits if_splits)
    note IH = Cons.IH [OF this]
    have head: "fatal c \<longrightarrow> os tr c = None"
      using False by blast
    show ?thesis
    proof (cases r)
      case (Inr y)
      then show ?thesis
        using IH head by (auto simp: nth_Cons less_Suc_eq_0_disj split: nat.splits)
    next
      case (Inl e)
      with IH obtain i msg where i: "i < length cs" "made = (tr @ [c]) @ take (Suc i) cs" "fatal (cs ! i)"
        "os ((tr @ [c]) @ take i cs) (cs ! i) = Some msg" "e = Io msg"
        "\<forall>j < i. fatal (cs ! j) \<longrightarrow> os ((tr @ [c]) @ take j cs) (cs ! j) = None"
        by auto
      then have "\<forall>j < Suc i. fatal ((c # cs) ! j) \<longrightarrow> os (tr @ take j (c # cs)) ((c # cs) ! j) = None"
        using head by (auto simp: less_Suc_eq_0_disj)
      then show ?thesis
        unfolding Inl sum.case using i(1-5) by (intro exI [of _ "Suc i"] conjI) simp_all
    qed
  qed
qed auto

text \<open>C33: binding is all or nothing.  Setting up the socket makes the planned calls in their order.  It succeeds when, and only when,
  every call but the one that marks the traffic as urgent succeeds, and then it has made them all and the transport sends to
  the configured peer.  Otherwise it stops at the first of the other calls that fails and returns the error of that call.\<close>

theorem udp_bind_exact:
  "case UdpTransport_bind is_v4 os config [] of
     (Inr t, made) \<Rightarrow> made = bind_plan is_v4 config \<and> default_peer t = udp_peer config \<and>
       (\<forall>i < length made. fatal (made ! i) \<longrightarrow> os (take i made) (made ! i) = None)
   | (Inl e, made) \<Rightarrow> \<exists>i < length (bind_plan is_v4 config). made = take (Suc i) (bind_plan is_v4 config) \<and> fatal (bind_plan is_v4 config ! i) \<and>
       (\<exists>msg. os (take i (bind_plan is_v4 config)) (bind_plan is_v4 config ! i) = Some msg \<and> e = Io msg) \<and>
       (\<forall>j < i. fatal (bind_plan is_v4 config ! j) \<longrightarrow> os (take j (bind_plan is_v4 config)) (bind_plan is_v4 config ! j) = None)"
  using run_calls_spec [of os "bind_plan is_v4 config" "\<lparr>default_peer = udp_peer config\<rparr>" "[]"]
  by (auto simp: bind_runs_plan split: prod.splits sum.splits)

theorem udp_bind_exact_witness:
  "\<exists>made. UdpTransport_bind (\<lambda>_. True) (\<lambda>_ c. if c = SetTos 0xB8 then Some ''EPERM'' else None) (UdpConfig_default (0 :: nat)) [] =
     (Inr \<lparr>default_peer = None\<rparr>, made) \<and> length made = 9"
  using udp_bind_exact [of "\<lambda>_. True" "UdpConfig_default (0 :: nat)" "\<lambda>_ c. if c = SetTos 0xB8 then Some ''EPERM'' else None"]
  by (simp add: bind_runs_plan bind_plan_def UdpConfig_default_def DSCP_EF_def)

end
