(* ===== verification/PySdk.thy ===== *)
theory PySdk
  imports LiveStream Udp RustStr
begin

text \<open>
  \<open>sdks/python/src/lib.rs\<close>: the Python classes around a session.  A method returns its result or the exception it raises, and
  the object afterwards.  The result \<open>None\<close> stands for a call that does not return, or for a panic of the library.  Parsing
  addresses (standard library) and the answers of the operating system are arguments.  The metrics class only reports
  floating-point numbers and is left out.
\<close>

datatype PyErr = PyValueError | PyIOError TransportError | PyRuntimeError TransportError

definition PyConfig_new :: "u32 \<Rightarrow> u8 \<Rightarrow> u8 \<Rightarrow> u16 \<Rightarrow> Config" where
  "PyConfig_new sample_rate channels frame_duration_ms jitter_buffer_ms =
     Config_default\<lparr>cfg_sample_rate := sample_rate, cfg_channels := channels,
       cfg_frame_duration_ms := frame_duration_ms, cfg_jitter_buffer_ms := jitter_buffer_ms\<rparr>"

record 'a PySession =
  py_inner :: "'a Session"
  py_local_addr :: 'a

text \<open>\<open>local_addr\<close> is the answer of the socket that was set up with the given calls.\<close>

definition PySession_new ::
  "(str \<Rightarrow> 'ip option) \<Rightarrow> ('ip \<Rightarrow> u16 \<Rightarrow> 'a) \<Rightarrow> ('a \<Rightarrow> bool) \<Rightarrow> 'a \<Rightarrow> 'a os \<Rightarrow> ('a sock_call list \<Rightarrow> string + 'a) \<Rightarrow>
   Config option \<Rightarrow> str \<Rightarrow> u16 \<Rightarrow> (PyErr + 'a PySession) option" where
  "PySession_new parse_ip sock_addr is_v4 any os local_addr config bind_addr bind_port =
     (let cfg = (case config of Some c \<Rightarrow> c | None \<Rightarrow> Config_default) in
      case parse_ip bind_addr of
        None \<Rightarrow> Some (Inl PyValueError)
      | Some ip \<Rightarrow>
          (let bind = sock_addr ip bind_port in
           case UdpTransport_bind is_v4 os ((UdpConfig_default any)\<lparr>udp_bind_addr := bind\<rparr>) [] of
             (Inl e, _) \<Rightarrow> Some (Inl (PyIOError e))
           | (Inr transport, calls) \<Rightarrow>
               (case local_addr calls of
                  Inl e \<Rightarrow> Some (Inl (PyIOError (Io e)))
                | Inr addr \<Rightarrow>
                    (case Session_new cfg of
                       None \<Rightarrow> None
                     | Some s \<Rightarrow> Some (Inr \<lparr>py_inner = s, py_local_addr = addr\<rparr>)))))"

text \<open>\<open>format!("{host}:{port}")\<close>.\<close>

definition py_address :: "str \<Rightarrow> u16 \<Rightarrow> str" where
  "py_address host port = host @ ascii '':'' @ decimal (unat port)"

definition PySession_connect ::
  "kx \<Rightarrow> ClientRandom \<Rightarrow> (str \<Rightarrow> 'a option) \<Rightarrow> 'a hs_events \<Rightarrow> 'a PySession \<Rightarrow> str \<Rightarrow> u16 \<Rightarrow>
   ((PyErr + unit) \<times> 'a PySession) option" where
  "PySession_connect K rnd parse_addr evs s host port =
     (case parse_addr (py_address host port) of
        None \<Rightarrow> Some (Inl PyValueError, s)
      | Some peer \<Rightarrow>
          (case handshake K (ClientSide rnd) (py_inner s) peer evs of
             (Done r, i, _) \<Rightarrow> Some (map_sum PyRuntimeError id r, s\<lparr>py_inner := i\<rparr>)
           | _ \<Rightarrow> None))"

definition PySession_accept ::
  "kx \<Rightarrow> ServerRandom \<Rightarrow> (str \<Rightarrow> 'a option) \<Rightarrow> 'a hs_events \<Rightarrow> 'a PySession \<Rightarrow> str \<Rightarrow> u16 \<Rightarrow>
   ((PyErr + unit) \<times> 'a PySession) option" where
  "PySession_accept K rnd parse_addr evs s host port =
     (case parse_addr (py_address host port) of
        None \<Rightarrow> Some (Inl PyValueError, s)
      | Some peer \<Rightarrow>
          (case handshake K (ServerSide rnd) (py_inner s) peer evs of
             (Done r, i, _) \<Rightarrow> Some (map_sum PyRuntimeError id r, s\<lparr>py_inner := i\<rparr>)
           | _ \<Rightarrow> None))"

definition PySession_send_audio :: "aead \<Rightarrow> 'a Env \<Rightarrow> 'a PySession \<Rightarrow> bytes \<Rightarrow> (PyErr + unit) \<times> 'a PySession" where
  "PySession_send_audio A env s data =
     (case send_audio A env (py_inner s) data of (r, i) \<Rightarrow> (map_sum PyIOError id r, s\<lparr>py_inner := i\<rparr>))"

definition PySession_recv_audio ::
  "aead \<Rightarrow> bool \<Rightarrow> u64 \<Rightarrow> 'a Env list \<Rightarrow> 'a recv_event list \<Rightarrow> 'a PySession \<Rightarrow> ((PyErr + bytes) \<times> 'a PySession) option" where
  "PySession_recv_audio A oc now envs evs s =
     (case recv_audio A oc now (py_inner s) envs evs of
        Some (Some r, i) \<Rightarrow> Some (map_sum PyIOError fr_payload r, s\<lparr>py_inner := i\<rparr>)
      | _ \<Rightarrow> None)"

definition PySession_close :: "'a Env \<Rightarrow> 'a PySession \<Rightarrow> (PyErr + unit) \<times> 'a PySession" where
  "PySession_close env s =
     (case close_session env (py_inner s) of (r, i) \<Rightarrow> (map_sum PyIOError id r, s\<lparr>py_inner := i\<rparr>))"

definition PySession_session_id :: "'a PySession \<Rightarrow> u32" where
  "PySession_session_id s = s_session_id (py_inner s)"

definition PySession_local_port :: "('a \<Rightarrow> u16) \<Rightarrow> 'a PySession \<Rightarrow> u16" where
  "PySession_local_port port_of s = port_of (py_local_addr s)"

section \<open>New sessions\<close>

text \<open>The defaults of the Python signature are those of the library.\<close>

lemma PyConfig_defaults: "PyConfig_new 48000 1 20 40 = Config_default"
  by (simp add: PyConfig_new_def Config_default_def DEFAULT_SAMPLE_RATE_def DEFAULT_FRAME_DURATION_MS_def DEFAULT_JITTER_BUFFER_MS_def)

lemma PyConfig_fields:
  "cfg_mtu (PyConfig_new r c f j) = 1200" "cfg_codec_preferred (PyConfig_new r c f j) = 1"
  "cfg_supported_codecs (PyConfig_new r c f j) = [1, 2]" "cfg_jitter_buffer_ms (PyConfig_new r c f j) = j"
  by (simp_all add: PyConfig_new_def Config_default_def DEFAULT_MTU_def)

lemma PySession_newD:
  "PySession_new parse_ip sock_addr is_v4 any os local_addr (Some cfg) addr port = Some (Inr s) \<Longrightarrow> Session_new cfg = Some (py_inner s)"
  by (auto simp: PySession_new_def Let_def split: option.splits sum.splits prod.splits)

lemma new_session_fields:
  assumes "Session_new cfg = Some s"
  shows "sm_state (s_state s) = S_Idle" "\<not> s_closed s" "s_config s = cfg" "audio_tx_seq s = 0" "outbox s = []"
    "JitterBuffer_new (jitter_slots (cfg_jitter_buffer_ms cfg) (cfg_frame_duration_ms cfg)) = Some (s_jitter s)"
    "fec_enc s = FecEncoder_new FEC_WINDOW" "fec_dec s = FecDecoder_new FEC_WINDOW"
  using assms by (auto simp: Session_new_def Let_def SessionStateMachine_new_def split: option.splits)

text \<open>Two fresh sessions that ran the handshake are at the start of a stream.\<close>

lemma stream_at_start:
  assumes "Session_new cfgc = Some c" and "Session_new cfgv = Some v" and "kept c c'" and "kept v v'"
    and "encrypt_key c' = Some k" and "decrypt_key v' = Some k" and "s_session_id v' = s_session_id c'"
  shows "stream_at A k c' v' []"
  using assms(3-7) new_session_fields [OF assms(1)] new_session_fields [OF assms(2)] in_step_new waiting_new [of _ "s_jitter v'" 0]
  by (auto simp: stream_at_def receiver_at_def pending_ok_def kept_def intro!: exI [of _ "0 :: u32"] exI [of _ "0 :: nat"])

section \<open>A call between two Python programs\<close>

text \<open>The two calls that set up the session.\<close>

lemma py_handshake:
  fixes c :: "'a PySession" and v :: "'a PySession"
  assumes c: "Session_new (PyConfig_new r1 ch1 fd1 jb1) = Some (py_inner c)" and v: "Session_new (PyConfig_new r2 ch2 fd2 jb2) = Some (py_inner v)"
    and peers: "parse_addr (py_address h1 p1) = Some sa" "parse_addr (py_address h2 p2) = Some ca"
    and hs: "kx_ok K" "length (cr_nonce cr) = 32" "length (sr_nonce sr) = 32"
    and net: "accepts e1 sa" "accepts f1 ca" "accepts f2 ca"
  shows "\<exists>d1 d2 d3 d4 c' v' k.
    PySession_connect K cr parse_addr [(e1, HsRecv (RecvData d2 sa)), (e2, HsRecv (RecvData d4 sa))] c h1 p1 =
      Some (Inr (), c\<lparr>py_inner := c'\<rparr>) \<and>
    PySession_accept K sr parse_addr [(f1, HsRecv (RecvData d1 ca)), (f2, HsRecv (RecvData d3 ca))] v h2 p2 =
      Some (Inr (), v\<lparr>py_inner := v'\<rparr>) \<and>
    outbox c' = [(sa, d1), (sa, d3)] \<and> outbox v' = [(ca, d2), (ca, d4)] \<and> s_session_id c' = s_session_id v' \<and>
    sm_state (s_state c') = S_Active \<and> s_peer c' = Some sa \<and> encrypt_key c' = Some k \<and> cfg_mtu (s_config c') = 1200 \<and>
    cfg_jitter_buffer_ms (s_config v') = jb2 \<and> stream_at A k c' v' []"
proof -
  note nc = new_session_fields [OF c] and nv = new_session_fields [OF v]
  have codec: "choose_codec (s_config (py_inner v)) (client_hello_msg K cr (s_config (py_inner c))) = Inr 1"
    "1 \<in> set (cfg_supported_codecs (s_config (py_inner c)))"
    by (simp_all add: nc(3) nv(3) PyConfig_fields choose_codec_def client_hello_msg_def)
  have mtu: "112 \<le> cfg_mtu (s_config (py_inner c))" "112 \<le> cfg_mtu (s_config (py_inner v))"
    by (simp_all add: nc(3) nv(3) PyConfig_fields)
  from handshake_pair [OF hs nc(1) nv(1,2) net mtu codec, where ?e2.0 = e2]
  obtain d1 d2 d3 d4 c' v' where run:
    "handshake K (ClientSide cr) (py_inner c) sa [(e1, HsRecv (RecvData d2 sa)), (e2, HsRecv (RecvData d4 sa))] = (Done (Inr ()), c', [])"
    "handshake K (ServerSide sr) (py_inner v) ca [(f1, HsRecv (RecvData d1 ca)), (f2, HsRecv (RecvData d3 ca))] = (Done (Inr ()), v', [])"
    "outbox c' = [(sa, d1), (sa, d3)]" "outbox v' = [(ca, d2), (ca, d4)]" "sm_state (s_state c') = S_Active"
    "s_peer c' = Some sa" "encrypt_key c' \<noteq> None" "encrypt_key c' = decrypt_key v'" "s_session_id v' = s_session_id c'"
    "kept (py_inner c) c'" "kept (py_inner v) v'"
    by (auto simp: nc(5) nv(5))
  obtain k where k: "encrypt_key c' = Some k" "decrypt_key v' = Some k"
    using run(7,8) by auto
  have kept: "cfg_mtu (s_config c') = 1200" "cfg_jitter_buffer_ms (s_config v') = jb2"
    using run(10,11) nc(3) nv(3) by (simp_all add: kept_def PyConfig_fields)
  show ?thesis
    by (rule exI [of _ d1], rule exI [of _ d2], rule exI [of _ d3], rule exI [of _ d4], rule exI [of _ c'], rule exI [of _ v'],
        rule exI [of _ k])
       (use run(1-6,9) k kept peers stream_at_start [OF c v run(10,11) k run(9)] in
         \<open>simp add: PySession_connect_def PySession_accept_def\<close>)
qed

text \<open>One bytes object from one program to the other.\<close>

lemma py_small:
  assumes A: "aead_ok A" "\<forall>k n a m. aead_encrypt A k n a m \<noteq> None" and at: "stream_at A k (py_inner c) (py_inner v) []"
    and ready: "sm_state (s_state (py_inner c)) = S_Active" "s_peer (py_inner c) = Some sa" "encrypt_key (py_inner c) = Some k"
      "cfg_mtu (s_config (py_inner c)) = 1200" "accepts env sa"
    and len: "length data \<le> 1152"
  shows "\<exists>c2 d rest. PySession_send_audio A env c data = (Inr (), c2) \<and>
    outbox (py_inner c2) = outbox (py_inner c) @ map (Pair sa) (d # rest) \<and>
    (\<forall>call. arrives (cfg_jitter_buffer_ms (s_config (py_inner v))) ca call [d] \<longrightarrow>
       (\<exists>v2. PySession_recv_audio A False (fst call) (fst (snd call)) (snd (snd call)) v = Some (Inr data, v2)))"
proof -
  obtain s' where s': "send_audio A env (py_inner c) data = (Inr (), s')"
    using send_audio_succeeds [OF A(1) ready(1-3), of env data] A(2) ready(4,5) len by (auto simp: accepts_def)
  from stream_step [OF A(1) at s'] ready(2) obtain d rest where d: "outbox s' = outbox (py_inner c) @ map (Pair sa) (d # rest)"
    "\<And>q now envs evs. receives q evs [d] \<Longrightarrow> length evs < length envs \<Longrightarrow>
       \<forall>e \<in> set envs. env_now e < now + ucast (cfg_jitter_buffer_ms (s_config (py_inner v))) * 3 * 1000 \<Longrightarrow>
       \<exists>f r'. recv_audio A False now (py_inner v) envs evs = Some (Some (Inr f), r') \<and> fr_payload f = data"
    by fastforce
  have "\<exists>v2. PySession_recv_audio A False (fst call) (fst (snd call)) (snd (snd call)) v = Some (Inr data, v2)"
    if "arrives (cfg_jitter_buffer_ms (s_config (py_inner v))) ca call [d]" for call
    using d(2) [of ca "snd (snd call)" "fst (snd call)" "fst call"] that by (auto simp: arrives_def PySession_recv_audio_def)
  then show ?thesis
    using s' d(1) by (auto simp: PySession_send_audio_def)
qed

lemma py_large:
  assumes "aead_ok A" and "encrypt_key (py_inner c) = Some k" and "1156 < length data"
  shows "\<exists>e c2. PySession_send_audio A env c data = (Inl (PyIOError e), c2)"
proof -
  obtain r s' where r: "send_audio A env (py_inner c) data = (r, s')"
    by force
  then have "r \<noteq> Inr ()"
    using send_audio_needs_room [OF assms(1) _ assms(2), of env data s'] assms(3) by auto
  then obtain e where "r = Inl e"
    by (cases r) auto
  then show ?thesis
    using r by (simp add: PySession_send_audio_def)
qed

text \<open>C10: two Python programs talk.  One program calls \<open>connect\<close>, the other \<open>accept\<close>, on sessions with any audio format, and each
  receives what the other sends: both calls return, nothing is raised.  After that \<open>send_audio\<close> accepts any bytes
  object of at most 1152 bytes, and \<open>recv_audio\<close> of the other program returns exactly these bytes when the first of the datagrams
  arrives before its deadline.  A bytes object of more than 1156 bytes always raises an \<open>OSError\<close>: also
  the frame of 1920 bytes in the example of the package.\<close>

theorem py_call:
  fixes c :: "'a PySession"
  assumes new: "PySession_new parse_ip sock_addr is_v4 any os local_addr (Some (PyConfig_new r1 ch1 fd1 jb1)) ba1 bp1 = Some (Inr c)"
      "PySession_new parse_ip sock_addr is_v4 any os local_addr (Some (PyConfig_new r2 ch2 fd2 jb2)) ba2 bp2 = Some (Inr v)"
    and peers: "parse_addr (py_address h1 p1) = Some sa" "parse_addr (py_address h2 p2) = Some ca"
    and crypto: "kx_ok K" "aead_ok A" "\<forall>k n a m. aead_encrypt A k n a m \<noteq> None"
    and nonces: "length (cr_nonce cr) = 32" "length (sr_nonce sr) = 32"
    and net: "accepts e1 sa" "accepts f1 ca" "accepts f2 ca" "accepts env sa"
  shows "\<exists>d1 d2 d3 d4 c1 v1.
    PySession_connect K cr parse_addr [(e1, HsRecv (RecvData d2 sa)), (e2, HsRecv (RecvData d4 sa))] c h1 p1 = Some (Inr (), c1) \<and>
    PySession_accept K sr parse_addr [(f1, HsRecv (RecvData d1 ca)), (f2, HsRecv (RecvData d3 ca))] v h2 p2 = Some (Inr (), v1) \<and>
    outbox (py_inner c1) = [(sa, d1), (sa, d3)] \<and> outbox (py_inner v1) = [(ca, d2), (ca, d4)] \<and>
    PySession_session_id c1 = PySession_session_id v1 \<and>
    (\<forall>data. length data \<le> 1152 \<longrightarrow>
       (\<exists>c2 d rest. PySession_send_audio A env c1 data = (Inr (), c2) \<and>
          outbox (py_inner c2) = outbox (py_inner c1) @ map (Pair sa) (d # rest) \<and>
          (\<forall>call. arrives jb2 ca call [d] \<longrightarrow>
             (\<exists>v2. PySession_recv_audio A False (fst call) (fst (snd call)) (snd (snd call)) v1 = Some (Inr data, v2))))) \<and>
    (\<forall>data. 1156 < length data \<longrightarrow> (\<exists>e c2. PySession_send_audio A env c1 data = (Inl (PyIOError e), c2)))"
proof -
  from py_handshake [OF PySession_newD [OF new(1)] PySession_newD [OF new(2)] peers crypto(1) nonces net(1-3), where ?e2.0 = e2 and A = A]
  obtain d1 d2 d3 d4 c' v' k where hs:
    "PySession_connect K cr parse_addr [(e1, HsRecv (RecvData d2 sa)), (e2, HsRecv (RecvData d4 sa))] c h1 p1 =
      Some (Inr (), c\<lparr>py_inner := c'\<rparr>)"
    "PySession_accept K sr parse_addr [(f1, HsRecv (RecvData d1 ca)), (f2, HsRecv (RecvData d3 ca))] v h2 p2 =
      Some (Inr (), v\<lparr>py_inner := v'\<rparr>)"
    "outbox c' = [(sa, d1), (sa, d3)]" "outbox v' = [(ca, d2), (ca, d4)]" "s_session_id c' = s_session_id v'"
    "sm_state (s_state c') = S_Active" "s_peer c' = Some sa" "encrypt_key c' = Some k" "cfg_mtu (s_config c') = 1200"
    "cfg_jitter_buffer_ms (s_config v') = jb2" "stream_at A k c' v' []"
    by blast
  let ?c = "c\<lparr>py_inner := c'\<rparr>" and ?v = "v\<lparr>py_inner := v'\<rparr>"
  note small = py_small [OF crypto(2,3), of k ?c ?v sa env, simplified, OF hs(11,6-9) net(4), of _ ca, unfolded hs(10)]
    and large = py_large [OF crypto(2), of ?c k _ env, simplified, OF hs(8)]
  show ?thesis
    by (rule exI [of _ d1], rule exI [of _ d2], rule exI [of _ d3], rule exI [of _ d4], rule exI [of _ ?c], rule exI [of _ ?v])
       (use hs(1-5) small large in \<open>simp add: PySession_session_id_def\<close>)
qed

section \<open>Example\<close>

definition demo_local :: "nat sock_call list \<Rightarrow> string + nat" where
  "demo_local calls = Inr 9000"

definition py_demo :: "(PyErr + nat PySession) option" where
  "py_demo = PySession_new (\<lambda>_. Some ()) (\<lambda>_ _. 0) (\<lambda>_. True) 0 (\<lambda>_ _. None) demo_local (Some (PyConfig_new 48000 1 20 40)) [] 0"

lemma py_demo_exists: "\<exists>s. py_demo = Some (Inr s)"
proof -
  obtain s :: "nat Session" where s: "Session_new Config_default = Some s"
    using session_creation [where 'a = nat, of Config_default]
    by (cases "Session_new Config_default :: nat Session option")
       (simp_all add: Config_default_def DEFAULT_MAX_BITRATE_def DEFAULT_JITTER_BUFFER_MS_def DEFAULT_FRAME_DURATION_MS_def)
  then show ?thesis
    by (simp add: py_demo_def PySession_new_def Let_def bind_runs_plan bind_plan_def UdpConfig_default_def PyConfig_defaults demo_local_def)
qed

theorem py_call_witness:
  "\<exists>c d1 d2 d3 d4 c1 v1 c2 c3 e call v2. py_demo = Some (Inr c) \<and>
     PySession_connect demo_kx demo_cr (\<lambda>_. Some 20) [(demo_env 1, HsRecv (RecvData d2 20)), (demo_env 2, HsRecv (RecvData d4 20))] c [] 0 =
       Some (Inr (), c1) \<and>
     PySession_accept demo_kx demo_sr (\<lambda>_. Some 20) [(demo_env 1, HsRecv (RecvData d1 20)), (demo_env 2, HsRecv (RecvData d3 20))] c [] 0 =
       Some (Inr (), v1) \<and>
     PySession_send_audio null_aead (demo_env 3) c1 [1, 2, 3] = (Inr (), c2) \<and>
     PySession_recv_audio null_aead False (fst call) (fst (snd call)) (snd (snd call)) v1 = Some (Inr [1, 2, 3], v2) \<and>
     PySession_send_audio null_aead (demo_env 3) c1 (replicate 1920 0) = (Inl (PyIOError e), c3)"
proof -
  obtain c where c: "py_demo = Some (Inr c)"
    using py_demo_exists by blast
  have cipher: "\<forall>k n a m. aead_encrypt null_aead k n a m \<noteq> None"
    by (simp add: null_aead_def)
  note nets = demo_handshake(6)
  from py_call [OF c [unfolded py_demo_def] c [unfolded py_demo_def], of "\<lambda>_. Some 20" "[]" 0 20 "[]" 0 20 demo_kx null_aead demo_cr demo_sr
      "demo_env 1" "demo_env 1" "demo_env 2" "demo_env 3" "demo_env 2"] demo_kx_ok null_aead_ok cipher demo_handshake(1,2) nets
  obtain d1 d2 d3 d4 c1 v1 where hs:
    "PySession_connect demo_kx demo_cr (\<lambda>_. Some 20) [(demo_env 1, HsRecv (RecvData d2 20)), (demo_env 2, HsRecv (RecvData d4 20))] c [] 0 =
       Some (Inr (), c1)"
    "PySession_accept demo_kx demo_sr (\<lambda>_. Some 20) [(demo_env 1, HsRecv (RecvData d1 20)), (demo_env 2, HsRecv (RecvData d3 20))] c [] 0 =
       Some (Inr (), v1)"
    and small: "\<forall>data. length data \<le> 1152 \<longrightarrow> (\<exists>c2 d rest. PySession_send_audio null_aead (demo_env 3) c1 data = (Inr (), c2) \<and>
          outbox (py_inner c2) = outbox (py_inner c1) @ map (Pair 20) (d # rest) \<and>
          (\<forall>call. arrives 40 20 call [d] \<longrightarrow>
             (\<exists>v2. PySession_recv_audio null_aead False (fst call) (fst (snd call)) (snd (snd call)) v1 = Some (Inr data, v2))))"
    and large: "\<forall>data. 1156 < length data \<longrightarrow> (\<exists>e c2. PySession_send_audio null_aead (demo_env 3) c1 data = (Inl (PyIOError e), c2))"
    by blast
  from small [rule_format, of "[1, 2, 3]"] obtain c2 d where c2: "PySession_send_audio null_aead (demo_env 3) c1 [1, 2, 3] = (Inr (), c2)"
    "\<forall>call. arrives 40 20 call [d] \<longrightarrow>
       (\<exists>v2. PySession_recv_audio null_aead False (fst call) (fst (snd call)) (snd (snd call)) v1 = Some (Inr [1, 2, 3], v2))"
    by auto
  let ?call = "(0 :: u64, [demo_env 4, demo_env 5], [RecvData d (20 :: nat)])"
  have "arrives 40 20 ?call [d]"
    by (simp add: arrives_def receives_def demo_env_def)
  with c2(2) obtain v2 where "PySession_recv_audio null_aead False (fst ?call) (fst (snd ?call)) (snd (snd ?call)) v1 = Some (Inr [1, 2, 3], v2)"
    by blast
  moreover obtain e c3 where "PySession_send_audio null_aead (demo_env 3) c1 (replicate 1920 0) = (Inl (PyIOError e), c3)"
    using large [rule_format, of "replicate 1920 0"] by auto
  ultimately show ?thesis
    using c hs c2(1) by blast
qed

end
